theory Spec2Isabelle
  imports Complex_Main
begin

section \<open>Numbers and points\<close>

text \<open>
  The component \<open>LetterSection.tsx\<close> computes with JavaScript numbers. Coordinates,
  distances and progress are modelled as \<^typ>\<open>real\<close> (exact arithmetic, no rounding,
  no NaN and no infinity); the state of the noise source, which the code only ever
  seeds with integers, is an \<^typ>\<open>int\<close>. The products formed by the noise source
  stay far below \<open>2^53\<close> once the state is below the modulus, so that integer
  arithmetic is what the code computes there.
\<close>

text \<open>
  \<open>interface TearPoint { x: number; y: number }\<close>, both normalized to the surface;
  the fields are \<open>tx\<close> and \<open>ty\<close> here.
\<close>

record TearPoint =
  tx :: real
  ty :: real

section \<open>Deterministic noise source\<close>

text \<open>
  The remainder operator \<open>%\<close> of JavaScript truncates: the result has the sign of
  the dividend.
\<close>

definition js_rem :: "int \<Rightarrow> int \<Rightarrow> int" where
  "js_rem a b = sgn a * (\<bar>a\<bar> mod \<bar>b\<bar>)"

text \<open>
  \<open>seededRandom(seed)\<close> returns a closure over the mutable variable \<open>s\<close>, which
  starts as the seed. One call of the closure updates \<open>s\<close> and returns a value:
  \<open>rng\<close> gives the value and the new \<open>s\<close>.
\<close>

definition seededRandom :: "int \<Rightarrow> int" where
  "seededRandom seed = seed"

definition rng :: "int \<Rightarrow> real \<times> int" where
  "rng s = (let s' = js_rem (s * 16807 + 0) 2147483647
            in ((real_of_int s' - 1) / 2147483646, s'))"

text \<open>The state after \<open>n\<close> calls, and the value returned by call number \<open>n + 1\<close>.\<close>

fun rng_state :: "int \<Rightarrow> nat \<Rightarrow> int" where
  "rng_state seed 0 = seededRandom seed"
| "rng_state seed (Suc n) = snd (rng (rng_state seed n))"

definition rng_value :: "int \<Rightarrow> nat \<Rightarrow> real" where
  "rng_value seed n = fst (rng (rng_state seed n))"

section \<open>Jagged edge generator\<close>

text \<open>
  \<open>len || 1\<close>: the length of the segment, or \<open>1\<close> when the length is \<open>0\<close>. This is
  the divisor of both components of the normal.
\<close>

definition segmentLength :: "TearPoint \<Rightarrow> TearPoint \<Rightarrow> real" where
  "segmentLength p1 p2 =
     (let dx = tx p2 - tx p1; dy = ty p2 - ty p1 in sqrt (dx * dx + dy * dy))"

definition normalDivisor :: "TearPoint \<Rightarrow> TearPoint \<Rightarrow> real" where
  "normalDivisor p1 p2 =
     (let len = segmentLength p1 p2 in if len = 0 then 1 else len)"

text \<open>The normal \<open>(nx, ny)\<close> perpendicular to the segment.\<close>

definition segmentNormal :: "TearPoint \<Rightarrow> TearPoint \<Rightarrow> real \<times> real" where
  "segmentNormal p1 p2 =
     (let dx = tx p2 - tx p1; dy = ty p2 - ty p1
      in (- dy / normalDivisor p1 p2, dx / normalDivisor p1 p2))"

text \<open>
  The body of the loop for one index \<open>i\<close>: three draws from the noise source, in the
  order offset, microX, microY, and the point that is pushed. The result is the point and
  the state of the noise source after the draws.
\<close>

definition jaggedPoint ::
  "TearPoint \<Rightarrow> TearPoint \<Rightarrow> real \<Rightarrow> int \<Rightarrow> int \<Rightarrow> int \<Rightarrow> TearPoint \<times> int" where
  "jaggedPoint p1 p2 jaggedness segments i s =
     (let dx = tx p2 - tx p1;
          dy = ty p2 - ty p1;
          (nx, ny) = segmentNormal p1 p2;
          t = real_of_int i / real_of_int segments;
          baseX = tx p1 + dx * t;
          baseY = ty p1 + dy * t;
          (r1, s1) = rng s;
          offset = (r1 - 0.5) * 2 * jaggedness;
          (r2, s2) = rng s1;
          microX = (r2 - 0.5) * jaggedness * 0.3;
          (r3, s3) = rng s2;
          microY = (r3 - 0.5) * jaggedness * 0.3
      in (\<lparr>tx = baseX + nx * offset + microX, ty = baseY + ny * offset + microY\<rparr>, s3))"

text \<open>
  \<open>for (let i = 1; i < segments; i++) { ... points.push(...) }\<close>, started at index \<open>i\<close>
  with noise state \<open>s\<close> and the points pushed so far.
\<close>

function jaggedLoop ::
  "TearPoint \<Rightarrow> TearPoint \<Rightarrow> real \<Rightarrow> int \<Rightarrow> int \<Rightarrow> int \<Rightarrow> TearPoint list \<Rightarrow> TearPoint list" where
  "jaggedLoop p1 p2 jaggedness segments i s points =
     (if i < segments
      then (let (p, s') = jaggedPoint p1 p2 jaggedness segments i s
            in jaggedLoop p1 p2 jaggedness segments (i + 1) s' (points @ [p]))
      else points)"
  by pat_completeness auto
termination
  by (relation "measure (\<lambda>(p1, p2, jaggedness, segments, i, s, points). nat (segments - i))") auto

definition generateJaggedEdge ::
  "TearPoint \<Rightarrow> TearPoint \<Rightarrow> real \<Rightarrow> int \<Rightarrow> int \<Rightarrow> TearPoint list" where
  "generateJaggedEdge p1 p2 jaggedness segments seed =
     jaggedLoop p1 p2 jaggedness segments 1 (seededRandom seed) [p1] @ [p2]"

text \<open>The interior points alone: what the loop pushes between \<open>p1\<close> and \<open>p2\<close>.\<close>

definition jaggedInterior ::
  "TearPoint \<Rightarrow> TearPoint \<Rightarrow> real \<Rightarrow> int \<Rightarrow> int \<Rightarrow> TearPoint list" where
  "jaggedInterior p1 p2 jaggedness segments seed =
     jaggedLoop p1 p2 jaggedness segments 1 (seededRandom seed) []"

section \<open>Edge extension resolver\<close>

text \<open>\<open>Math.max(0, Math.min(1, v))\<close>\<close>

definition clamp01 :: "real \<Rightarrow> real" where
  "clamp01 v = max 0 (min 1 v)"

text \<open>
  The candidate list of \<open>extendToEdge\<close>, in the order of the pushes: left, right, top,
  bottom. An axis whose delta is \<open>0\<close> contributes no candidate, so no division by
  \<open>0\<close> is evaluated.
\<close>

definition edgeCandidates :: "TearPoint \<Rightarrow> real \<Rightarrow> real \<Rightarrow> TearPoint list" where
  "edgeCandidates point dx dy =
     (if dx \<noteq> 0
      then (let tLeft = - tx point / dx;
                tRight = (1 - tx point) / dx
            in (if tLeft > 0 then [\<lparr>tx = 0, ty = ty point + dy * tLeft\<rparr>] else [])
               @ (if tRight > 0 then [\<lparr>tx = 1, ty = ty point + dy * tRight\<rparr>] else []))
      else [])
     @ (if dy \<noteq> 0
        then (let tTop = - ty point / dy;
                  tBottom = (1 - ty point) / dy
              in (if tTop > 0 then [\<lparr>tx = tx point + dx * tTop, ty = 0\<rparr>] else [])
                 @ (if tBottom > 0 then [\<lparr>tx = tx point + dx * tBottom, ty = 1\<rparr>] else []))
        else [])"

text \<open>The validity test of the selection loop.\<close>

definition candidateValid :: "TearPoint \<Rightarrow> bool" where
  "candidateValid c \<longleftrightarrow>
     tx c \<ge> - 0.01 \<and> tx c \<le> 1.01 \<and> ty c \<ge> - 0.01 \<and> ty c \<le> 1.01"

text \<open>
  One iteration of \<open>for (const c of candidates)\<close> on the pair \<open>(best, bestDist)\<close>;
  \<open>bestDist = Infinity\<close> is \<open>None\<close>.
\<close>

definition pickCloser ::
  "TearPoint \<Rightarrow> TearPoint \<times> real option \<Rightarrow> TearPoint \<Rightarrow> TearPoint \<times> real option" where
  "pickCloser point acc c =
     (if candidateValid c
      then (let d = (tx c - tx point)\<^sup>2 + (ty c - ty point)\<^sup>2
            in if (case snd acc of None \<Rightarrow> True | Some bestDist \<Rightarrow> d < bestDist)
               then (\<lparr>tx = clamp01 (tx c), ty = clamp01 (ty c)\<rparr>, Some d)
               else acc)
      else acc)"

definition extendToEdge :: "TearPoint \<Rightarrow> TearPoint \<Rightarrow> bool \<Rightarrow> TearPoint" where
  "extendToEdge point neighbor isStart =
     (let dx = (if isStart then tx point - tx neighbor else tx point - tx neighbor);
          dy = (if isStart then ty point - ty neighbor else ty point - ty neighbor);
          candidates = edgeCandidates point dx dy
      in fst (foldl (pickCloser point)
                (\<lparr>tx = clamp01 (tx point), ty = 0\<rparr>, None) candidates))"

section \<open>Gesture tracking state machine\<close>

text \<open>
  What the handlers read of the DOM element \<open>coverRef.current\<close>: its bounding
  rectangle and its layout size. \<open>None\<close> is the null ref. The element is taken to
  have a positive width and height (with a zero size, JavaScript divides by zero and
  continues with NaN or Infinity, which \<^typ>\<open>real\<close> does not have).
\<close>

record Cover =
  rectLeft :: real
  rectTop :: real
  rectWidth :: real
  rectHeight :: real
  offsetWidth :: real
  offsetHeight :: real

text \<open>
  The React state and refs of the component that the tear depends on, and the number of
  calls of the \<open>onRevealed\<close> callback so far. Each handler runs to its end on the
  state of the last render, and the state updates it queues are applied in order before
  the next event.
\<close>

record TearState =
  isRevealed :: bool
  isDragging :: bool
  tearProgress :: real
  tearPath :: "TearPoint list"
  completedTear :: "TearPoint list option"
  dragStartRef :: "(real \<times> real) option"
  lastPointRef :: "TearPoint option"
  isMobileRef :: bool
  onRevealedCalls :: nat

definition initialState :: "bool \<Rightarrow> TearState" where
  "initialState mobile =
     \<lparr>isRevealed = False, isDragging = False, tearProgress = 0, tearPath = [],
      completedTear = None, dragStartRef = None, lastPointRef = None,
      isMobileRef = mobile, onRevealedCalls = 0\<rparr>"

datatype InteractionPhase = Idle | Dragging | Revealed

definition phase :: "TearState \<Rightarrow> InteractionPhase" where
  "phase s = (if isRevealed s then Revealed else if isDragging s then Dragging else Idle)"

definition getNormalizedPos :: "Cover option \<Rightarrow> real \<Rightarrow> real \<Rightarrow> TearPoint option" where
  "getNormalizedPos el clientX clientY =
     (case el of
        None \<Rightarrow> None
      | Some rect \<Rightarrow>
          Some \<lparr>tx = max 0 (min 1 ((clientX - rectLeft rect) / rectWidth rect)),
                ty = max 0 (min 1 ((clientY - rectTop rect) / rectHeight rect))\<rparr>)"

definition finishTear :: "TearPoint option \<Rightarrow> TearState \<Rightarrow> TearState" where
  "finishTear lastPos s =
     (let finalPath = tearPath s @ (case lastPos of Some p \<Rightarrow> [p] | None \<Rightarrow> []);
          completed =
            (if length finalPath \<ge> 2
             then (let first = finalPath ! 0;
                       last = finalPath ! (length finalPath - 1);
                       startEdge = extendToEdge first
                         (if length finalPath > 1 then finalPath ! 1 else first) True;
                       endEdge = extendToEdge last
                         (if length finalPath > 1 then finalPath ! (length finalPath - 2)
                          else last) False
                   in Some ([startEdge] @ finalPath @ [endEdge]))
             else completedTear s)
      in s\<lparr>tearPath := finalPath, completedTear := completed, isRevealed := True,
            isDragging := False, dragStartRef := None, lastPointRef := None,
            onRevealedCalls := onRevealedCalls s + 1\<rparr>)"

definition handleCoverPointerDown ::
  "Cover option \<Rightarrow> real \<Rightarrow> real \<Rightarrow> TearState \<Rightarrow> TearState" where
  "handleCoverPointerDown el clientX clientY s =
     (if isRevealed s then s
      else case getNormalizedPos el clientX clientY of
             None \<Rightarrow> s
           | Some pos \<Rightarrow>
               s\<lparr>dragStartRef := Some (clientX, clientY), lastPointRef := Some pos,
                 isDragging := True, tearPath := [pos]\<rparr>)"

text \<open>
  The progress computed by \<open>handleCoverPointerMove\<close> from the element, the drag start
  and the pointer position, all in client units. The handler leaves at once unless a
  drag is on, the drag start is set and the cover is not revealed.
\<close>

definition coverDiagonal :: "Cover option \<Rightarrow> real" where
  "coverDiagonal el =
     (case el of Some c \<Rightarrow> sqrt ((offsetWidth c)\<^sup>2 + (offsetHeight c)\<^sup>2) | None \<Rightarrow> 700)"

definition totalDist :: "real \<times> real \<Rightarrow> real \<Rightarrow> real \<Rightarrow> real" where
  "totalDist start clientX clientY =
     (let totalDx = clientX - fst start; totalDy = clientY - snd start
      in sqrt (totalDx * totalDx + totalDy * totalDy))"

definition requiredDist :: "Cover option \<Rightarrow> real" where
  "requiredDist el = coverDiagonal el * 0.85"

definition dragProgress :: "Cover option \<Rightarrow> real \<times> real \<Rightarrow> real \<Rightarrow> real \<Rightarrow> real" where
  "dragProgress el start clientX clientY =
     min (totalDist start clientX clientY / requiredDist el) 1"

definition handleCoverPointerMove ::
  "Cover option \<Rightarrow> real \<Rightarrow> real \<Rightarrow> TearState \<Rightarrow> TearState" where
  "handleCoverPointerMove el clientX clientY s =
     (if \<not> isDragging s \<or> isRevealed s then s
      else case dragStartRef s of
        None \<Rightarrow> s
      | Some start \<Rightarrow>
         (case getNormalizedPos el clientX clientY of
            None \<Rightarrow> s
          | Some pos \<Rightarrow>
             (case lastPointRef s of
                None \<Rightarrow> s
              | Some lastPoint \<Rightarrow>
                 (let dx = tx pos - tx lastPoint;
                      dy = ty pos - ty lastPoint;
                      dist = sqrt (dx * dx + dy * dy);
                      s1 = (if dist > 0.012
                            then s\<lparr>lastPointRef := Some pos, tearPath := tearPath s @ [pos]\<rparr>
                            else s);
                      progress = dragProgress el start clientX clientY;
                      s2 = s1\<lparr>tearProgress := progress\<rparr>;
                      nearEdge = (tx pos \<le> 0.03 \<or> tx pos \<ge> 0.97
                                  \<or> ty pos \<le> 0.03 \<or> ty pos \<ge> 0.97)
                  in if progress \<ge> 1 \<or> (progress \<ge> 0.75 \<and> nearEdge)
                     then finishTear (Some pos) s2
                     else s2))))"

text \<open>
  The two tests of \<open>handleCoverPointerUp\<close>: whether the last recorded point is near
  an edge (\<open>false\<close> for a null ref), and whether the release commits the tear.
\<close>

definition nearEdgeAtRelease :: "TearPoint option \<Rightarrow> bool" where
  "nearEdgeAtRelease lastPt =
     (case lastPt of
        Some p \<Rightarrow> tx p \<le> 0.04 \<or> tx p \<ge> 0.96 \<or> ty p \<le> 0.04 \<or> ty p \<ge> 0.96
      | None \<Rightarrow> False)"

definition commitsOnRelease :: "TearState \<Rightarrow> bool" where
  "commitsOnRelease s \<longleftrightarrow>
     tearProgress s \<ge> 0.85 \<or> (tearProgress s \<ge> 0.6 \<and> nearEdgeAtRelease (lastPointRef s))"

definition handleCoverPointerUp :: "TearState \<Rightarrow> TearState" where
  "handleCoverPointerUp s =
     (if isRevealed s then s
      else (let s1 = (if commitsOnRelease s
                      then finishTear None s
                      else s\<lparr>tearPath := [], tearProgress := 0\<rparr>)
            in s1\<lparr>isDragging := False, dragStartRef := None, lastPointRef := None\<rparr>))"

text \<open>
  The loop of \<open>handleTapOpen\<close>, \<open>for (let i = 0; i <= 20; i++)\<close>: the draw for \<open>x\<close>
  comes before the draw for \<open>y\<close>.
\<close>

function fakeTearLoop :: "int \<Rightarrow> int \<Rightarrow> TearPoint list \<Rightarrow> TearPoint list" where
  "fakeTearLoop i s fakeTear =
     (if i \<le> 20
      then (let t = real_of_int i / 20;
                (r1, s1) = rng s;
                (r2, s2) = rng s1
            in fakeTearLoop (i + 1) s2
                 (fakeTear @ [\<lparr>tx = 0.1 + t * 0.8 + (r1 - 0.5) * 0.03,
                                ty = 0.3 + t * 0.4 + (r2 - 0.5) * 0.03\<rparr>]))
      else fakeTear)"
  by pat_completeness auto
termination
  by (relation "measure (\<lambda>(i, s, fakeTear). nat (21 - i))") auto

definition handleTapOpen :: "TearState \<Rightarrow> TearState" where
  "handleTapOpen s =
     (if isRevealed s \<or> isDragging s then s
      else if \<not> isMobileRef s then s
      else (let fakeTear = fakeTearLoop 0 (seededRandom 42) []
            in s\<lparr>tearPath := fakeTear, tearProgress := 1,
                  completedTear := Some ([\<lparr>tx = 0, ty = 0.28\<rparr>] @ fakeTear @ [\<lparr>tx = 1, ty = 0.72\<rparr>]),
                  isRevealed := True,
                  onRevealedCalls := onRevealedCalls s + 1\<rparr>))"

text \<open>The events of the cover element and the handler bound to each.\<close>

datatype Event = PointerDown real real | PointerMove real real | PointerUp | Tap

fun handle :: "Cover option \<Rightarrow> Event \<Rightarrow> TearState \<Rightarrow> TearState" where
  "handle el (PointerDown clientX clientY) s = handleCoverPointerDown el clientX clientY s"
| "handle el (PointerMove clientX clientY) s = handleCoverPointerMove el clientX clientY s"
| "handle el PointerUp s = handleCoverPointerUp s"
| "handle el Tap s = handleTapOpen s"

fun run :: "Cover option \<Rightarrow> Event list \<Rightarrow> TearState \<Rightarrow> TearState" where
  "run el [] s = s"
| "run el (e # es) s = run el es (handle el e s)"

text \<open>
  The tear state that the claim of terminality speaks of: the raw path, the progress,
  the completed tear and the phase.
\<close>

definition tearStateOf ::
  "TearState \<Rightarrow> TearPoint list \<times> real \<times> TearPoint list option \<times> InteractionPhase" where
  "tearStateOf s = (tearPath s, tearProgress s, completedTear s, phase s)"

section \<open>Chained jagged path\<close>

text \<open>
  The loop of the \<open>jaggedTearPoints\<close> memo,
  \<open>for (let i = 0; i < source.length - 1; i++)\<close>: segment \<open>i\<close> is generated with
  4 segments and seed \<open>i * 137 + 7\<close>, and \<open>jagged.slice(1)\<close> is pushed for \<open>i > 0\<close>.
\<close>

definition segmentEdge :: "TearPoint list \<Rightarrow> real \<Rightarrow> nat \<Rightarrow> TearPoint list" where
  "segmentEdge source progress i =
     generateJaggedEdge (source ! i) (source ! (i + 1))
       (0.012 + progress * 0.008) 4 (int i * 137 + 7)"

function chainLoop :: "TearPoint list \<Rightarrow> real \<Rightarrow> nat \<Rightarrow> TearPoint list \<Rightarrow> TearPoint list" where
  "chainLoop source progress i allJagged =
     (if int i < int (length source) - 1
      then (let jagged = segmentEdge source progress i
            in chainLoop source progress (i + 1)
                 (if i = 0 then allJagged @ jagged else allJagged @ drop 1 jagged))
      else allJagged)"
  by pat_completeness auto
termination
  by (relation "measure (\<lambda>(source, progress, i, allJagged). length source - 1 - i)") auto

definition jaggedTearPoints ::
  "TearPoint list \<Rightarrow> TearPoint list option \<Rightarrow> real \<Rightarrow> TearPoint list" where
  "jaggedTearPoints path completed progress =
     (let source = (case completed of
                      Some c \<Rightarrow> Some c
                    | None \<Rightarrow> if length path \<ge> 2 then Some path else None)
      in case source of
           None \<Rightarrow> []
         | Some src \<Rightarrow> if length src < 2 then [] else chainLoop src progress 0 [])"

section \<open>Clip geometry builder\<close>

text \<open>
  The number that \<open>v.toFixed(1)\<close> prints: \<open>v\<close> rounded to one decimal, a tie going
  away from zero.
\<close>

definition toFixed1 :: "real \<Rightarrow> real" where
  "toFixed1 v = sgn v * real_of_int \<lfloor>\<bar>v\<bar> * 10 + 1 / 2\<rfloor> / 10"

text \<open>
  A clip path \<open>polygon(a% b%, ...)\<close> is modelled by the list of its vertices, each a
  pair of percentages; the empty string is the empty list. The memo returns
  \<open>topPath\<close> and \<open>bottomPath\<close>; the strings \<open>top\<close> and \<open>bottom\<close> that it also
  builds are not used.
\<close>

type_synonym vertex = "real \<times> real"

definition clipVertex :: "TearPoint \<Rightarrow> vertex" where
  "clipVertex p = (toFixed1 (tx p * 100), toFixed1 (ty p * 100))"

definition clipPaths :: "TearPoint list \<Rightarrow> vertex list \<times> vertex list" where
  "clipPaths jagged =
     (if length jagged < 2 then ([], [])
      else (let tearPathStr = map clipVertex jagged;
                tearPathReversed = map clipVertex (rev jagged);
                firstTear = jagged ! 0;
                lastTear = jagged ! (length jagged - 1);
                topPath = [(0, 0), (100, 0), (100, toFixed1 (ty lastTear * 100))]
                          @ tearPathReversed @ [(0, toFixed1 (ty firstTear * 100))];
                bottomPath = [(0, toFixed1 (ty firstTear * 100))] @ tearPathStr
                          @ [(100, toFixed1 (ty lastTear * 100)), (100, 100), (0, 100)]
            in (topPath, bottomPath)))"

definition topClip :: "TearPoint list \<Rightarrow> vertex list" where
  "topClip jagged = fst (clipPaths jagged)"

definition bottomClip :: "TearPoint list \<Rightarrow> vertex list" where
  "bottomClip jagged = snd (clipPaths jagged)"

section \<open>Measuring clip polygons\<close>

text \<open>
  A sum over the edges of an open vertex chain, and over the edges of the closed polygon
  with these vertices (the last vertex joined to the first).
\<close>

fun edgeSum :: "(vertex \<Rightarrow> vertex \<Rightarrow> 'a::ab_group_add) \<Rightarrow> vertex list \<Rightarrow> 'a" where
  "edgeSum f (a # b # vs) = f a b + edgeSum f (b # vs)"
| "edgeSum f vs = 0"

definition closedSum :: "(vertex \<Rightarrow> vertex \<Rightarrow> 'a::ab_group_add) \<Rightarrow> vertex list \<Rightarrow> 'a" where
  "closedSum f vs = (case vs of [] \<Rightarrow> 0 | v # _ \<Rightarrow> edgeSum f (vs @ [v]))"

text \<open>
  The area of a closed polygon by the shoelace formula, as a fraction of the surface
  (the vertices are percentages). It is signed: positive for a polygon that runs
  like the surface's corners \<open>(0,0), (100,0), (100,100), (0,100)\<close>.
\<close>

definition cross :: "vertex \<Rightarrow> vertex \<Rightarrow> real" where
  "cross a b = fst a * snd b - fst b * snd a"

definition polygonArea :: "vertex list \<Rightarrow> real" where
  "polygonArea vs = closedSum cross vs / 2 / (100 * 100)"

text \<open>
  The winding number of a closed polygon around a point \<open>q\<close>, counted by the edges that
  cross the horizontal line through \<open>q\<close> on one side of it: \<open>+1\<close> for an edge that
  crosses towards larger \<open>y\<close>, \<open>-1\<close> for one that crosses towards smaller \<open>y\<close>. Under the
  nonzero fill rule, the default of a CSS \<open>polygon()\<close>, a point is inside the clip region
  when its winding number is not \<open>0\<close>.
\<close>

definition isLeft :: "vertex \<Rightarrow> vertex \<Rightarrow> vertex \<Rightarrow> real" where
  "isLeft a b q = (fst b - fst a) * (snd q - snd a) - (fst q - fst a) * (snd b - snd a)"

definition edgeWinding :: "vertex \<Rightarrow> vertex \<Rightarrow> vertex \<Rightarrow> int" where
  "edgeWinding q a b =
     (if snd a \<le> snd q
      then (if snd q < snd b \<and> isLeft a b q > 0 then 1 else 0)
      else (if snd b \<le> snd q \<and> isLeft a b q < 0 then - 1 else 0))"

definition windingNumber :: "vertex list \<Rightarrow> vertex \<Rightarrow> int" where
  "windingNumber vs q = closedSum (edgeWinding q) vs"

definition insideClip :: "vertex list \<Rightarrow> vertex \<Rightarrow> bool" where
  "insideClip vs q \<longleftrightarrow> windingNumber vs q \<noteq> 0"

text \<open>The whole surface as a polygon.\<close>

definition surfacePolygon :: "vertex list" where
  "surfacePolygon = [(0, 0), (100, 0), (100, 100), (0, 100)]"

section \<open>Progress in double precision\<close>

text \<open>
  The numbers of the program are IEEE doubles. \<open>fl\<close> rounds a real to the nearest
  number with a significand of 53 bits, a tie going to the even significand, as every
  arithmetic operation and \<open>Math.sqrt\<close> do; the exponent is not bounded (no overflow,
  no subnormal numbers), which is enough for the magnitudes of pointer coordinates.
  \<open>pow2 e\<close> is \<open>2\<close> to the integer power \<open>e\<close>.
\<close>

definition pow2 :: "int \<Rightarrow> real" where
  "pow2 e = (if 0 \<le> e then 2 ^ nat e else 1 / 2 ^ nat (- e))"

definition roundHalfEven :: "real \<Rightarrow> int" where
  "roundHalfEven m =
     (let f = \<lfloor>m\<rfloor>; r = m - real_of_int f
      in if r < 1 / 2 then f else if r > 1 / 2 then f + 1 else if even f then f else f + 1)"

definition fl :: "real \<Rightarrow> real" where
  "fl v =
     (if v = 0 then 0
      else (let e = \<lfloor>log 2 \<bar>v\<bar>\<rfloor> - 52
            in sgn v * real_of_int (roundHalfEven (\<bar>v\<bar> / pow2 e)) * pow2 e))"

text \<open>
  The progress expression of \<open>handleCoverPointerMove\<close> with every operation rounded:
  \<open>Math.sqrt(el.offsetWidth ** 2 + el.offsetHeight ** 2)\<close>, \<open>coverDiagonal * 0.85\<close>,
  \<open>Math.sqrt(totalDx * totalDx + totalDy * totalDy)\<close> and
  \<open>Math.min(totalDist / requiredDist, 1)\<close>. The literal \<open>0.85\<close> is the double
  \<open>fl 0.85\<close>. \<open>dragProgress\<close> above is the exact value of the same expression.
\<close>

definition coverDiagonalDouble :: "Cover option \<Rightarrow> real" where
  "coverDiagonalDouble el =
     (case el of
        Some c \<Rightarrow> fl (sqrt (fl (fl ((offsetWidth c)\<^sup>2) + fl ((offsetHeight c)\<^sup>2))))
      | None \<Rightarrow> 700)"

definition totalDistDouble :: "real \<times> real \<Rightarrow> real \<Rightarrow> real \<Rightarrow> real" where
  "totalDistDouble start clientX clientY =
     (let totalDx = fl (clientX - fst start); totalDy = fl (clientY - snd start)
      in fl (sqrt (fl (fl (totalDx * totalDx) + fl (totalDy * totalDy)))))"

definition requiredDistDouble :: "Cover option \<Rightarrow> real" where
  "requiredDistDouble el = fl (coverDiagonalDouble el * fl 0.85)"

definition dragProgressDouble :: "Cover option \<Rightarrow> real \<times> real \<Rightarrow> real \<Rightarrow> real \<Rightarrow> real" where
  "dragProgressDouble el start clientX clientY =
     min (fl (totalDistDouble start clientX clientY / requiredDistDouble el)) 1"

text \<open>
  \<open>handleCoverPointerMove\<close> and \<open>handleCoverPointerUp\<close> with the progress as the code
  computes it: the move stores \<open>dragProgressDouble\<close>, and the release compares the stored
  progress with the doubles \<open>fl 0.85\<close> and \<open>fl 0.6\<close>. The thresholds \<open>1\<close> and \<open>0.75\<close>
  of the move are doubles already. The normalised position, which feeds only the edge
  tests and the raw path, stays exact.
\<close>

definition handleCoverPointerMoveDouble ::
  "Cover option \<Rightarrow> real \<Rightarrow> real \<Rightarrow> TearState \<Rightarrow> TearState" where
  "handleCoverPointerMoveDouble el clientX clientY s =
     (if \<not> isDragging s \<or> isRevealed s then s
      else case dragStartRef s of
        None \<Rightarrow> s
      | Some start \<Rightarrow>
         (case getNormalizedPos el clientX clientY of
            None \<Rightarrow> s
          | Some pos \<Rightarrow>
             (case lastPointRef s of
                None \<Rightarrow> s
              | Some lastPoint \<Rightarrow>
                 (let dx = tx pos - tx lastPoint;
                      dy = ty pos - ty lastPoint;
                      dist = sqrt (dx * dx + dy * dy);
                      s1 = (if dist > 0.012
                            then s\<lparr>lastPointRef := Some pos, tearPath := tearPath s @ [pos]\<rparr>
                            else s);
                      progress = dragProgressDouble el start clientX clientY;
                      s2 = s1\<lparr>tearProgress := progress\<rparr>;
                      nearEdge = (tx pos \<le> 0.03 \<or> tx pos \<ge> 0.97
                                  \<or> ty pos \<le> 0.03 \<or> ty pos \<ge> 0.97)
                  in if progress \<ge> 1 \<or> (progress \<ge> 0.75 \<and> nearEdge)
                     then finishTear (Some pos) s2
                     else s2))))"

definition commitsOnReleaseDouble :: "TearState \<Rightarrow> bool" where
  "commitsOnReleaseDouble s \<longleftrightarrow>
     tearProgress s \<ge> fl 0.85
     \<or> (tearProgress s \<ge> fl 0.6 \<and> nearEdgeAtRelease (lastPointRef s))"

definition handleCoverPointerUpDouble :: "TearState \<Rightarrow> TearState" where
  "handleCoverPointerUpDouble s =
     (if isRevealed s then s
      else (let s1 = (if commitsOnReleaseDouble s
                      then finishTear None s
                      else s\<lparr>tearPath := [], tearProgress := 0\<rparr>)
            in s1\<lparr>isDragging := False, dragStartRef := None, lastPointRef := None\<rparr>))"

text \<open>A cover of 400 by 800 pixels at the origin of the viewport.\<close>

definition tallCover :: "Cover option" where
  "tallCover = Some \<lparr>rectLeft = 0, rectTop = 0, rectWidth = 400, rectHeight = 800,
                       offsetWidth = 400, offsetHeight = 800\<rparr>"

section \<open>A tear drawn from right to left\<close>

text \<open>
  A drag on the cover of 300 by 400 pixels that goes straight from the right to the left
  at mid height and is released near the left edge.
\<close>

definition rightToLeftDrag :: "Event list" where
  "rightToLeftDrag = [PointerDown 290 200, PointerMove 10 200, PointerUp]"

text \<open>The inputs of the \<open>jaggedTearPoints\<close> memo, read from the state.\<close>

definition jaggedOf :: "TearState \<Rightarrow> TearPoint list" where
  "jaggedOf s = jaggedTearPoints (tearPath s) (completedTear s) (tearProgress s)"

text \<open>The completed tear that this drag leaves.\<close>

definition rightToLeftTear :: "TearPoint list" where
  "rightToLeftTear = [\<lparr>tx = 1, ty = 1 / 2\<rparr>, \<lparr>tx = 29 / 30, ty = 1 / 2\<rparr>,
                      \<lparr>tx = 1 / 30, ty = 1 / 2\<rparr>, \<lparr>tx = 0, ty = 1 / 2\<rparr>]"

section \<open>Auxiliary notions for the properties\<close>

text \<open>A point of the closed unit square.\<close>

definition inUnitSquare :: "TearPoint \<Rightarrow> bool" where
  "inUnitSquare p \<longleftrightarrow> 0 \<le> tx p \<and> tx p \<le> 1 \<and> 0 \<le> ty p \<and> ty p \<le> 1"

text \<open>
  What holds of the state after any sequence of events: no completed tear before the
  reveal, a drag in progress has its two refs set and is not revealed, and the callback
  has been called once if revealed and not at all otherwise.
\<close>

definition sessionInvariant :: "TearState \<Rightarrow> bool" where
  "sessionInvariant s \<longleftrightarrow>
     (\<not> isRevealed s \<longrightarrow> completedTear s = None)
     \<and> (isDragging s \<longrightarrow> \<not> isRevealed s \<and> dragStartRef s \<noteq> None \<and> lastPointRef s \<noteq> None)
     \<and> onRevealedCalls s = (if isRevealed s then 1 else 0)"

text \<open>
  One rounding changes a number by a factor between \<open>roundingLo\<close> and \<open>roundingHi\<close>.
  \<open>withinRoundings k a A\<close>: the computed \<open>a\<close> is the exact \<open>A \<ge> 0\<close> up to \<open>k\<close>
  such factors.
\<close>

definition roundingLo :: real where
  "roundingLo = 1 - 1 / 2 ^ 53"

definition roundingHi :: real where
  "roundingHi = 1 + 1 / 2 ^ 53"

definition withinRoundings :: "nat \<Rightarrow> real \<Rightarrow> real \<Rightarrow> bool" where
  "withinRoundings k a A \<longleftrightarrow> A * roundingLo ^ k \<le> a \<and> a \<le> A * roundingHi ^ k"

text \<open>A cover of 300 by 400 pixels at the origin of the viewport, for the worked examples.\<close>

definition exampleCover :: "Cover option" where
  "exampleCover = Some \<lparr>rectLeft = 0, rectTop = 0, rectWidth = 300, rectHeight = 400,
                          offsetWidth = 300, offsetHeight = 400\<rparr>"

text \<open>The interior points of segment \<open>i\<close> of the chained path.\<close>

definition segmentInterior :: "TearPoint list \<Rightarrow> real \<Rightarrow> nat \<Rightarrow> TearPoint list" where
  "segmentInterior source progress i =
     jaggedInterior (source ! i) (source ! (i + 1))
       (0.012 + progress * 0.008) 4 (int i * 137 + 7)"

text \<open>A raw path of four points, three segments, for the worked example.\<close>

definition exampleSource :: "TearPoint list" where
  "exampleSource = [\<lparr>tx = 0.1, ty = 0.5\<rparr>, \<lparr>tx = 0.3, ty = 0.5\<rparr>,
                    \<lparr>tx = 0.5, ty = 0.5\<rparr>, \<lparr>tx = 0.7, ty = 0.5\<rparr>]"

section \<open>Properties of the noise source\<close>

lemma lcg_multiplier_bezout: "(1407677000::int) * 16807 - 11017 * 2147483647 = 1"
  by simp

lemma lcg_dvd_cancel:
  assumes "(2147483647::int) dvd s * 16807"
  shows "2147483647 dvd s"
proof -
  have "s = 1407677000 * (s * 16807) - (11017 * s) * 2147483647"
    by (simp add: algebra_simps)
  moreover have "(2147483647::int) dvd 1407677000 * (s * 16807)"
    using assms by (rule dvd_mult)
  moreover have "(2147483647::int) dvd (11017 * s) * 2147483647"
    by simp
  ultimately show ?thesis
    by (metis dvd_diff)
qed

lemma rng_state_step:
  assumes "0 < s" and "s mod 2147483647 \<noteq> 0"
  shows "0 < snd (rng s) \<and> snd (rng s) < 2147483647"
proof -
  have pos: "0 < s * 16807" using assms(1) by simp
  have eq: "snd (rng s) = (s * 16807) mod 2147483647"
    using pos by (simp add: rng_def js_rem_def Let_def)
  have "\<not> (2147483647::int) dvd s"
    using assms(2) by (simp add: dvd_eq_mod_eq_0)
  then have "\<not> (2147483647::int) dvd s * 16807"
    using lcg_dvd_cancel by blast
  then have "(s * 16807) mod 2147483647 \<noteq> 0"
    by (simp add: dvd_eq_mod_eq_0)
  moreover have "0 \<le> (s * 16807) mod 2147483647"
    by simp
  moreover have "(s * 16807) mod 2147483647 < 2147483647"
    by simp
  ultimately show ?thesis
    using eq by linarith
qed

lemma rng_state_invariant:
  assumes "0 < seed" and "seed mod 2147483647 \<noteq> 0"
  shows "0 < rng_state seed n \<and> rng_state seed n mod 2147483647 \<noteq> 0"
proof (induction n)
  case 0
  show ?case using assms by (simp add: seededRandom_def)
next
  case (Suc n)
  then have "0 < snd (rng (rng_state seed n)) \<and> snd (rng (rng_state seed n)) < 2147483647"
    using rng_state_step by blast
  then show ?case by simp
qed

lemma rng_value_of_state:
  assumes "0 < s'" and "s' < 2147483647"
  shows "0 \<le> (real_of_int s' - 1) / 2147483646 \<and> (real_of_int s' - 1) / 2147483646 < 1"
proof -
  have "1 \<le> real_of_int s'" using assms(1) by linarith
  moreover have "real_of_int s' \<le> 2147483646" using assms(2) by linarith
  ultimately show ?thesis by simp
qed

text \<open>
  Claim C9, as amended. The recurrence is
  \<open>state = (state * 16807) mod 2147483647\<close> with output \<open>(state - 1) / 2147483646\<close>,
  and for every positive integer seed that is not a multiple of \<open>2147483647\<close> and
  for which the first product \<open>seed * 16807\<close> is below \<open>2^53\<close> (so that it is exact
  in double precision, as every later product is), every value of the sequence lies in
  \<open>[0, 1)\<close>.
\<close>

theorem seededRandom_unit_interval:
  assumes "0 < seed" and "seed mod 2147483647 \<noteq> 0" and "seed * 16807 < 2 ^ 53"
  shows "rng s = ((real_of_int (js_rem (s * 16807) 2147483647) - 1) / 2147483646,
                  js_rem (s * 16807) 2147483647)
         \<and> 0 \<le> rng_value seed n \<and> rng_value seed n < 1"
proof -
  have inv: "0 < rng_state seed n \<and> rng_state seed n mod 2147483647 \<noteq> 0"
    using assms(1,2) by (rule rng_state_invariant)
  then have st: "0 < snd (rng (rng_state seed n)) \<and> snd (rng (rng_state seed n)) < 2147483647"
    using rng_state_step by blast
  have "rng_value seed n = (real_of_int (snd (rng (rng_state seed n))) - 1) / 2147483646"
    by (simp add: rng_value_def rng_def Let_def)
  then have "0 \<le> rng_value seed n \<and> rng_value seed n < 1"
    using rng_value_of_state [OF conjunct1 [OF st] conjunct2 [OF st]] by simp
  moreover have "rng s = ((real_of_int (js_rem (s * 16807) 2147483647) - 1) / 2147483646,
                  js_rem (s * 16807) 2147483647)"
    by (simp add: rng_def Let_def)
  ultimately show ?thesis by simp
qed

theorem seededRandom_unit_interval_witness:
  "(0::int) < 42 \<and> (42::int) mod 2147483647 \<noteq> 0 \<and> (42::int) * 16807 < 2 ^ 53
   \<and> 0 \<le> rng_value 42 0 \<and> rng_value 42 0 < 1 \<and> rng_value 42 0 = 705893 / 2147483646"
proof -
  have h1: "(0::int) < 42" by simp
  have h2: "(42::int) mod 2147483647 \<noteq> 0" by simp
  have h3: "(42::int) * 16807 < 2 ^ 53" by simp
  have "rng_value 42 0 = 705893 / 2147483646"
    by (simp add: rng_value_def rng_def js_rem_def seededRandom_def Let_def)
  then show ?thesis
    using seededRandom_unit_interval [OF h1 h2 h3, of 0 0] by simp
qed

text \<open>
  Claim C9 as stated, for every integer seed, fails: with seed \<open>0\<close> the state stays
  \<open>0\<close> and the first value is \<open>-1 / 2147483646\<close>, below \<open>0\<close>.
\<close>

theorem seededRandom_seed_zero_negative:
  "rng_value 0 0 = - 1 / 2147483646 \<and> \<not> (0 \<le> rng_value 0 0 \<and> rng_value 0 0 < 1)"
  by (simp add: rng_value_def rng_def js_rem_def seededRandom_def Let_def)

section \<open>Properties of the jagged edge generator\<close>

declare jaggedLoop.simps [simp del]

lemma jaggedLoop_append:
  "jaggedLoop p1 p2 j n i s (pre @ points) = pre @ jaggedLoop p1 p2 j n i s points"
proof (induction p1 p2 j n i s points rule: jaggedLoop.induct)
  case (1 p1 p2 j n i s points)
  show ?case
  proof (cases "i < n")
    case True
    obtain p s' where ps: "jaggedPoint p1 p2 j n i s = (p, s')"
      by (cases "jaggedPoint p1 p2 j n i s")
    have "jaggedLoop p1 p2 j n i s (pre @ points)
            = jaggedLoop p1 p2 j n (i + 1) s' (pre @ (points @ [p]))"
      using True ps by (subst jaggedLoop.simps) simp
    also have "\<dots> = pre @ jaggedLoop p1 p2 j n (i + 1) s' (points @ [p])"
      using "1.IH" [OF True ps [symmetric] refl] by simp
    also have "\<dots> = pre @ jaggedLoop p1 p2 j n i s points"
      using True ps by (subst (2) jaggedLoop.simps) simp
    finally show ?thesis .
  next
    case False
    then show ?thesis by (simp add: jaggedLoop.simps)
  qed
qed

lemma jaggedLoop_length:
  "length (jaggedLoop p1 p2 j n i s points) = length points + nat (n - i)"
proof (induction p1 p2 j n i s points rule: jaggedLoop.induct)
  case (1 p1 p2 j n i s points)
  show ?case
  proof (cases "i < n")
    case True
    obtain p s' where ps: "jaggedPoint p1 p2 j n i s = (p, s')"
      by (cases "jaggedPoint p1 p2 j n i s")
    have "length (jaggedLoop p1 p2 j n i s points)
            = length (jaggedLoop p1 p2 j n (i + 1) s' (points @ [p]))"
      using True ps by (subst jaggedLoop.simps) simp
    also have "\<dots> = length (points @ [p]) + nat (n - (i + 1))"
      using "1.IH" [OF True ps [symmetric] refl] by simp
    also have "\<dots> = length points + nat (n - i)"
      using True by simp
    finally show ?thesis .
  next
    case False
    then show ?thesis by (simp add: jaggedLoop.simps)
  qed
qed

lemma generateJaggedEdge_split:
  "generateJaggedEdge p1 p2 j n seed = p1 # jaggedInterior p1 p2 j n seed @ [p2]"
  using jaggedLoop_append [of p1 p2 j n 1 "seededRandom seed" "[p1]" "[]"]
  by (simp add: generateJaggedEdge_def jaggedInterior_def)

lemma jaggedInterior_length:
  "length (jaggedInterior p1 p2 j n seed) = nat (n - 1)"
  by (simp add: jaggedInterior_def jaggedLoop_length)

lemma normalDivisor_nonzero: "normalDivisor p1 p2 \<noteq> 0"
  by (simp add: normalDivisor_def Let_def)

lemma segmentNormal_degenerate: "segmentNormal p p = (0, 0)"
  by (simp add: segmentNormal_def Let_def)

lemma rng_at_state:
  "rng (rng_state seed k) = (rng_value seed k, rng_state seed (Suc k))"
  by (simp add: rng_value_def)

lemma jaggedPoint_at_state:
  "jaggedPoint p1 p2 j n i (rng_state seed k) =
     (\<lparr>tx = tx p1 + (tx p2 - tx p1) * (real_of_int i / real_of_int n)
              + fst (segmentNormal p1 p2) * ((rng_value seed k - 0.5) * 2 * j)
              + (rng_value seed (k + 1) - 0.5) * j * 0.3,
       ty = ty p1 + (ty p2 - ty p1) * (real_of_int i / real_of_int n)
              + snd (segmentNormal p1 p2) * ((rng_value seed k - 0.5) * 2 * j)
              + (rng_value seed (k + 2) - 0.5) * j * 0.3\<rparr>,
      rng_state seed (k + 3))"
proof -
  have r1: "rng (rng_state seed k) = (rng_value seed k, rng_state seed (k + 1))"
    using rng_at_state [of seed k] by simp
  have r2: "rng (rng_state seed (k + 1)) = (rng_value seed (k + 1), rng_state seed (k + 2))"
    using rng_at_state [of seed "k + 1"] by simp
  have r3: "rng (rng_state seed (k + 2)) = (rng_value seed (k + 2), rng_state seed (k + 3))"
    using rng_at_state [of seed "k + 2"] by (simp add: eval_nat_numeral)
  show ?thesis
    unfolding jaggedPoint_def Let_def r1 r2 r3 split_beta fst_conv snd_conv
    by (rule refl)
qed

lemma jaggedLoop_points:
  "s = rng_state seed k \<Longrightarrow>
   jaggedLoop p1 p2 j n i s points
     = points @ map (\<lambda>m. fst (jaggedPoint p1 p2 j n (i + int m) (rng_state seed (k + 3 * m))))
                    [0..<nat (n - i)]"
proof (induction p1 p2 j n i s points arbitrary: k rule: jaggedLoop.induct)
  case (1 p1 p2 j n i s points)
  show ?case
  proof (cases "i < n")
    case True
    let ?f = "\<lambda>i k m. fst (jaggedPoint p1 p2 j n (i + int m) (rng_state seed (k + 3 * m)))"
    obtain p s' where ps: "jaggedPoint p1 p2 j n i s = (p, s')"
      by (cases "jaggedPoint p1 p2 j n i s")
    have s': "s' = rng_state seed (k + 3)" and p: "p = ?f i k 0"
      using ps "1.prems" by (simp_all add: jaggedPoint_at_state)
    have "jaggedLoop p1 p2 j n i s points = jaggedLoop p1 p2 j n (i + 1) s' (points @ [p])"
      using True ps by (subst jaggedLoop.simps) simp
    also have "\<dots> = (points @ [p]) @ map (?f (i + 1) (k + 3)) [0..<nat (n - (i + 1))]"
      using "1.IH" [OF True ps [symmetric] refl s'] .
    also have "map (?f (i + 1) (k + 3)) [0..<nat (n - (i + 1))]
                 = map (\<lambda>m. ?f i k (Suc m)) [0..<nat (n - (i + 1))]"
      by (simp add: algebra_simps)
    also have "\<dots> = map (?f i k) (map Suc [0..<nat (n - (i + 1))])"
      by simp
    also have "map Suc [0..<nat (n - (i + 1))] = [1..<nat (n - i)]"
    proof -
      have "Suc (nat (n - (i + 1))) = nat (n - i)" using True by simp
      then show ?thesis by (simp add: map_Suc_upt)
    qed
    finally have "jaggedLoop p1 p2 j n i s points
        = points @ ?f i k 0 # map (?f i k) [1..<nat (n - i)]"
      by (simp add: p)
    moreover have "[0..<nat (n - i)] = 0 # [1..<nat (n - i)]"
      using True by (simp add: upt_conv_Cons)
    ultimately show ?thesis by simp
  next
    case False
    then show ?thesis by (simp add: jaggedLoop.simps)
  qed
qed

lemma jaggedInterior_points:
  "jaggedInterior p1 p2 j n seed
     = map (\<lambda>m. fst (jaggedPoint p1 p2 j n (1 + int m) (rng_state seed (3 * m))))
           [0..<nat (n - 1)]"
  using jaggedLoop_points [of "seededRandom seed" seed 0 p1 p2 j n 1 "[]"]
  by (simp add: jaggedInterior_def)

lemma generateJaggedEdge_nth:
  assumes "1 \<le> i" and "i < nat n"
  shows "generateJaggedEdge p1 p2 j n seed ! i
           = fst (jaggedPoint p1 p2 j n (int i) (rng_state seed (3 * (i - 1))))"
proof -
  obtain m where m: "i = Suc m" using assms(1) by (cases i) auto
  have lt: "m < nat (n - 1)" using assms(2) m by simp
  have "generateJaggedEdge p1 p2 j n seed ! i = jaggedInterior p1 p2 j n seed ! m"
    using lt by (simp add: generateJaggedEdge_split m nth_append jaggedInterior_length)
  also have "\<dots> = fst (jaggedPoint p1 p2 j n (1 + int m) (rng_state seed (3 * m)))"
    using lt by (simp add: jaggedInterior_points)
  finally show ?thesis by (simp add: m)
qed

lemma TearPoint_eq_iff: "(p1::TearPoint) = p2 \<longleftrightarrow> tx p1 = tx p2 \<and> ty p1 = ty p2"
  by (cases p1, cases p2) simp

lemma segmentLength_pos: "p1 \<noteq> p2 \<Longrightarrow> 0 < segmentLength (p1::TearPoint) p2"
proof -
  assume "p1 \<noteq> p2"
  then have "tx p2 - tx p1 \<noteq> 0 \<or> ty p2 - ty p1 \<noteq> 0"
    by (auto simp: TearPoint_eq_iff)
  then have "0 < (tx p2 - tx p1) * (tx p2 - tx p1) + (ty p2 - ty p1) * (ty p2 - ty p1)"
    by (metis add_pos_nonneg add_nonneg_pos zero_le_square less_le mult_eq_0_iff)
  then show ?thesis by (simp add: segmentLength_def Let_def)
qed

lemma segmentNormal_unit:
  assumes "p1 \<noteq> (p2::TearPoint)"
  shows "segmentNormal p1 p2
           = (- (ty p2 - ty p1) / segmentLength p1 p2, (tx p2 - tx p1) / segmentLength p1 p2)"
    and "(fst (segmentNormal p1 p2))\<^sup>2 + (snd (segmentNormal p1 p2))\<^sup>2 = 1"
    and "fst (segmentNormal p1 p2) * (tx p2 - tx p1)
         + snd (segmentNormal p1 p2) * (ty p2 - ty p1) = 0"
proof -
  let ?dx = "tx p2 - tx p1" and ?dy = "ty p2 - ty p1" and ?len = "segmentLength p1 p2"
  have pos: "0 < ?len" using assms by (rule segmentLength_pos)
  then have div: "normalDivisor p1 p2 = ?len"
    by (simp add: normalDivisor_def Let_def)
  show n: "segmentNormal p1 p2 = (- ?dy / ?len, ?dx / ?len)"
    unfolding segmentNormal_def Let_def div by (rule refl)
  have sq: "?len\<^sup>2 = ?dx * ?dx + ?dy * ?dy"
    by (simp add: segmentLength_def Let_def)
  have "(- ?dy / ?len)\<^sup>2 = (- ?dy)\<^sup>2 / ?len\<^sup>2"
    by (rule power_divide)
  also have "(- ?dy)\<^sup>2 = ?dy * ?dy"
    by (simp only: power2_minus power2_eq_square)
  finally have a: "(- ?dy / ?len)\<^sup>2 = ?dy * ?dy / ?len\<^sup>2" .
  have "(?dx / ?len)\<^sup>2 = ?dx\<^sup>2 / ?len\<^sup>2"
    by (rule power_divide)
  also have "?dx\<^sup>2 = ?dx * ?dx"
    by (simp only: power2_eq_square)
  finally have b: "(?dx / ?len)\<^sup>2 = ?dx * ?dx / ?len\<^sup>2" .
  have "(- ?dy / ?len)\<^sup>2 + (?dx / ?len)\<^sup>2 = (?dx * ?dx + ?dy * ?dy) / ?len\<^sup>2"
    unfolding a b by (simp only: add_divide_distrib add.commute)
  also have "\<dots> = 1" using pos by (simp add: sq [symmetric])
  finally show "(fst (segmentNormal p1 p2))\<^sup>2 + (snd (segmentNormal p1 p2))\<^sup>2 = 1"
    by (simp add: n)
  have "- ?dy / ?len * ?dx + ?dx / ?len * ?dy = (- ?dy * ?dx + ?dx * ?dy) / ?len"
    by (simp only: add_divide_distrib times_divide_eq_left)
  also have "\<dots> = 0" by (simp add: algebra_simps)
  finally show "fst (segmentNormal p1 p2) * ?dx + snd (segmentNormal p1 p2) * ?dy = 0"
    unfolding n fst_conv snd_conv .
qed


text \<open>
  Claim C7. For endpoints \<open>p1\<close>, \<open>p2\<close>, any jaggedness and seed, and a segment count
  \<open>s \<ge> 1\<close>, \<open>generateJaggedEdge\<close> returns \<open>s + 1\<close> points: \<open>p1\<close> first, then
  \<open>s - 1\<close> interior points, then \<open>p2\<close> last. Interior point \<open>i\<close> is the point at
  parameter \<open>i / s\<close> of the line from \<open>p1\<close> to \<open>p2\<close>, moved along the normal by
  \<open>(r - 0.5) * 2 * jaggedness\<close> and on each axis by \<open>(r' - 0.5) * jaggedness * 0.3\<close>,
  where \<open>r\<close>, \<open>r'\<close> and \<open>r''\<close> are the values number \<open>3 (i - 1) + 1\<close>,
  \<open>+ 2\<close> and \<open>+ 3\<close> of the noise source. The normal is the unit vector perpendicular
  to the segment; its divisor is never \<open>0\<close>, and for \<open>p1 = p2\<close> the divisor is the
  fallback \<open>1\<close> and the normal is \<open>(0, 0)\<close>.
\<close>

theorem generateJaggedEdge_shape:
  assumes "1 \<le> segments"
  shows "length (generateJaggedEdge p1 p2 jaggedness segments seed) = nat segments + 1
       \<and> hd (generateJaggedEdge p1 p2 jaggedness segments seed) = p1
       \<and> last (generateJaggedEdge p1 p2 jaggedness segments seed) = p2
       \<and> generateJaggedEdge p1 p2 jaggedness segments seed
           = [p1] @ jaggedInterior p1 p2 jaggedness segments seed @ [p2]
       \<and> length (jaggedInterior p1 p2 jaggedness segments seed) = nat segments - 1
       \<and> (\<forall>i. 1 \<le> i \<and> i < nat segments \<longrightarrow>
             generateJaggedEdge p1 p2 jaggedness segments seed ! i
               = \<lparr>tx = tx p1 + (tx p2 - tx p1) * (real i / real_of_int segments)
                        + fst (segmentNormal p1 p2)
                          * ((rng_value seed (3 * (i - 1)) - 0.5) * 2 * jaggedness)
                        + (rng_value seed (3 * (i - 1) + 1) - 0.5) * jaggedness * 0.3,
                  ty = ty p1 + (ty p2 - ty p1) * (real i / real_of_int segments)
                        + snd (segmentNormal p1 p2)
                          * ((rng_value seed (3 * (i - 1)) - 0.5) * 2 * jaggedness)
                        + (rng_value seed (3 * (i - 1) + 2) - 0.5) * jaggedness * 0.3\<rparr>)
       \<and> normalDivisor p1 p2 \<noteq> 0
       \<and> (p1 = p2 \<longrightarrow> normalDivisor p1 p2 = 1 \<and> segmentNormal p1 p2 = (0, 0))
       \<and> (p1 \<noteq> p2 \<longrightarrow>
             segmentNormal p1 p2
               = (- (ty p2 - ty p1) / sqrt ((tx p2 - tx p1)\<^sup>2 + (ty p2 - ty p1)\<^sup>2),
                  (tx p2 - tx p1) / sqrt ((tx p2 - tx p1)\<^sup>2 + (ty p2 - ty p1)\<^sup>2))
             \<and> (fst (segmentNormal p1 p2))\<^sup>2 + (snd (segmentNormal p1 p2))\<^sup>2 = 1
             \<and> fst (segmentNormal p1 p2) * (tx p2 - tx p1)
                 + snd (segmentNormal p1 p2) * (ty p2 - ty p1) = 0)"
proof -
  let ?edge = "generateJaggedEdge p1 p2 jaggedness segments seed"
  have len: "length (jaggedInterior p1 p2 jaggedness segments seed) = nat segments - 1"
    using assms by (simp add: jaggedInterior_length nat_diff_distrib)
  have split: "?edge = [p1] @ jaggedInterior p1 p2 jaggedness segments seed @ [p2]"
    by (simp add: generateJaggedEdge_split)
  have A: "length ?edge = nat segments + 1"
    using assms len by (simp add: split)
  have B: "hd ?edge = p1"
    by (simp add: split)
  have C: "last ?edge = p2"
    by (simp add: split)
  have D: "\<forall>i. 1 \<le> i \<and> i < nat segments \<longrightarrow>
             ?edge ! i
               = \<lparr>tx = tx p1 + (tx p2 - tx p1) * (real i / real_of_int segments)
                        + fst (segmentNormal p1 p2)
                          * ((rng_value seed (3 * (i - 1)) - 0.5) * 2 * jaggedness)
                        + (rng_value seed (3 * (i - 1) + 1) - 0.5) * jaggedness * 0.3,
                  ty = ty p1 + (ty p2 - ty p1) * (real i / real_of_int segments)
                        + snd (segmentNormal p1 p2)
                          * ((rng_value seed (3 * (i - 1)) - 0.5) * 2 * jaggedness)
                        + (rng_value seed (3 * (i - 1) + 2) - 0.5) * jaggedness * 0.3\<rparr>"
  proof (intro allI impI, elim conjE)
    fix i :: nat
    assume i: "1 \<le> i" "i < nat segments"
    show "?edge ! i
               = \<lparr>tx = tx p1 + (tx p2 - tx p1) * (real i / real_of_int segments)
                        + fst (segmentNormal p1 p2)
                          * ((rng_value seed (3 * (i - 1)) - 0.5) * 2 * jaggedness)
                        + (rng_value seed (3 * (i - 1) + 1) - 0.5) * jaggedness * 0.3,
                  ty = ty p1 + (ty p2 - ty p1) * (real i / real_of_int segments)
                        + snd (segmentNormal p1 p2)
                          * ((rng_value seed (3 * (i - 1)) - 0.5) * 2 * jaggedness)
                        + (rng_value seed (3 * (i - 1) + 2) - 0.5) * jaggedness * 0.3\<rparr>"
      unfolding generateJaggedEdge_nth [OF i] jaggedPoint_at_state fst_conv
      by simp
  qed
  have E: "p1 = p2 \<longrightarrow> normalDivisor p1 p2 = 1 \<and> segmentNormal p1 p2 = (0, 0)"
    by (simp add: segmentNormal_degenerate normalDivisor_def segmentLength_def Let_def)
  have F: "p1 \<noteq> p2 \<longrightarrow>
             segmentNormal p1 p2
               = (- (ty p2 - ty p1) / sqrt ((tx p2 - tx p1)\<^sup>2 + (ty p2 - ty p1)\<^sup>2),
                  (tx p2 - tx p1) / sqrt ((tx p2 - tx p1)\<^sup>2 + (ty p2 - ty p1)\<^sup>2))
             \<and> (fst (segmentNormal p1 p2))\<^sup>2 + (snd (segmentNormal p1 p2))\<^sup>2 = 1
             \<and> fst (segmentNormal p1 p2) * (tx p2 - tx p1)
                 + snd (segmentNormal p1 p2) * (ty p2 - ty p1) = 0"
  proof
    assume ne: "p1 \<noteq> p2"
    have l: "segmentLength p1 p2 = sqrt ((tx p2 - tx p1)\<^sup>2 + (ty p2 - ty p1)\<^sup>2)"
      by (simp add: segmentLength_def Let_def power2_eq_square)
    show "segmentNormal p1 p2
               = (- (ty p2 - ty p1) / sqrt ((tx p2 - tx p1)\<^sup>2 + (ty p2 - ty p1)\<^sup>2),
                  (tx p2 - tx p1) / sqrt ((tx p2 - tx p1)\<^sup>2 + (ty p2 - ty p1)\<^sup>2))
             \<and> (fst (segmentNormal p1 p2))\<^sup>2 + (snd (segmentNormal p1 p2))\<^sup>2 = 1
             \<and> fst (segmentNormal p1 p2) * (tx p2 - tx p1)
                 + snd (segmentNormal p1 p2) * (ty p2 - ty p1) = 0"
      using segmentNormal_unit [OF ne] unfolding l by (intro conjI)
  qed
  show ?thesis
    by (rule conjI [OF A conjI [OF B conjI [OF C conjI [OF split conjI [OF len
          conjI [OF D conjI [OF normalDivisor_nonzero conjI [OF E F]]]]]]]])
qed

lemma rng_values_seed7:
  "rng_value 7 0 = 6536 / 119304647"
  "rng_value 7 1 = 329554457 / 357913941"
  "rng_value 7 2 = 20036525 / 69273666"
proof -
  have s0: "rng_state 7 0 = 7"
    by (simp add: seededRandom_def)
  have r0: "rng 7 = (6536 / 119304647, 117649)"
    by (simp add: rng_def js_rem_def Let_def)
  have s1: "rng_state 7 1 = 117649"
    by (simp add: seededRandom_def r0)
  have r1: "rng 117649 = (329554457 / 357913941, 1977326743)"
    by (simp add: rng_def js_rem_def Let_def)
  have s2: "rng_state 7 2 = 1977326743"
    using s1 by (simp add: numeral_2_eq_2 r1)
  have r2: "rng 1977326743 = (20036525 / 69273666, 621132276)"
    by (simp add: rng_def js_rem_def Let_def)
  show "rng_value 7 0 = 6536 / 119304647"
    by (simp only: rng_value_def s0 r0 fst_conv)
  show "rng_value 7 1 = 329554457 / 357913941"
    by (simp only: rng_value_def s1 r1 fst_conv)
  show "rng_value 7 2 = 20036525 / 69273666"
    by (simp only: rng_value_def s2 r2 fst_conv)
qed

theorem generateJaggedEdge_shape_witness:
  "(1::int) \<le> 4 \<and> (1::nat) \<le> 1 \<and> (1::nat) < nat 4
   \<and> length (generateJaggedEdge \<lparr>tx = 0.5, ty = 0.5\<rparr> \<lparr>tx = 0.5, ty = 0.5\<rparr> 0.012 4 7) = 5
   \<and> hd (generateJaggedEdge \<lparr>tx = 0.5, ty = 0.5\<rparr> \<lparr>tx = 0.5, ty = 0.5\<rparr> 0.012 4 7)
       = \<lparr>tx = 0.5, ty = 0.5\<rparr>
   \<and> last (generateJaggedEdge \<lparr>tx = 0.5, ty = 0.5\<rparr> \<lparr>tx = 0.5, ty = 0.5\<rparr> 0.012 4 7)
       = \<lparr>tx = 0.5, ty = 0.5\<rparr>
   \<and> length (jaggedInterior \<lparr>tx = 0.5, ty = 0.5\<rparr> \<lparr>tx = 0.5, ty = 0.5\<rparr> 0.012 4 7) = 3
   \<and> segmentNormal \<lparr>tx = 0.5, ty = 0.5\<rparr> \<lparr>tx = 0.5, ty = 0.5\<rparr> = (0, 0)
   \<and> generateJaggedEdge \<lparr>tx = 0.5, ty = 0.5\<rparr> \<lparr>tx = 0.5, ty = 0.5\<rparr> 0.012 4 7 ! 1
       = \<lparr>tx = 299165202419 / 596523235000, ty = 1200842774 / 2405335625\<rparr>
   \<and> \<lparr>tx = 0.1, ty = 0.5\<rparr> \<noteq> \<lparr>tx = 0.3, ty = 0.5 :: real\<rparr>
   \<and> segmentNormal \<lparr>tx = 0.1, ty = 0.5\<rparr> \<lparr>tx = 0.3, ty = 0.5\<rparr> = (0, 1)
   \<and> generateJaggedEdge \<lparr>tx = 0.1, ty = 0.5\<rparr> \<lparr>tx = 0.3, ty = 0.5\<rparr> 0.012 4 7 ! 1
       = \<lparr>tx = 90382070169 / 596523235000, ty = 72662878363 / 149130808750\<rparr>"
proof -
  have h: "(1::int) \<le> 4" by simp
  let ?p = "\<lparr>tx = 0.5, ty = 0.5 :: real\<rparr>"
  let ?a = "\<lparr>tx = 0.1, ty = 0.5 :: real\<rparr>" and ?b = "\<lparr>tx = 0.3, ty = 0.5 :: real\<rparr>"
  note deg = generateJaggedEdge_shape [OF h, of ?p ?p "0.012" 7]
  note gen = generateJaggedEdge_shape [OF h, of ?a ?b "0.012" 7]
  note deg_len = conjunct1 [OF deg]
  note deg_hd = conjunct1 [OF conjunct2 [OF deg]]
  note deg_last = conjunct1 [OF conjunct2 [OF conjunct2 [OF deg]]]
  note deg_int = conjunct1 [OF conjunct2 [OF conjunct2 [OF conjunct2 [OF conjunct2 [OF deg]]]]]
  note deg_pts = conjunct1 [OF conjunct2 [OF conjunct2 [OF conjunct2 [OF conjunct2
      [OF conjunct2 [OF deg]]]]]]
  note deg_eq = conjunct1 [OF conjunct2 [OF conjunct2 [OF conjunct2 [OF conjunct2
      [OF conjunct2 [OF conjunct2 [OF conjunct2 [OF deg]]]]]]]]
  note gen_pts = conjunct1 [OF conjunct2 [OF conjunct2 [OF conjunct2 [OF conjunct2
      [OF conjunct2 [OF gen]]]]]]
  note gen_ne = conjunct2 [OF conjunct2 [OF conjunct2 [OF conjunct2 [OF conjunct2
      [OF conjunct2 [OF conjunct2 [OF conjunct2 [OF gen]]]]]]]]
  have n0: "segmentNormal ?p ?p = (0, 0)"
    using deg_eq by simp
  have ne: "?a \<noteq> ?b" by simp
  have "sqrt ((tx ?b - tx ?a)\<^sup>2 + (ty ?b - ty ?a)\<^sup>2) = 0.2"
    by (rule real_sqrt_unique) (simp_all add: power2_eq_square)
  then have n1: "segmentNormal ?a ?b = (0, 1)"
    using gen_ne ne by simp
  have v1: "rng_value 7 (Suc 0) = 329554457 / 357913941"
    using rng_values_seed7(2) by (simp only: One_nat_def)
  have v2: "rng_value 7 (Suc (Suc 0)) = 20036525 / 69273666"
    using rng_values_seed7(3) by (simp only: numeral_2_eq_2)
  note v0 = rng_values_seed7(1)
  have d1: "generateJaggedEdge ?p ?p 0.012 4 7 ! 1
       = \<lparr>tx = 299165202419 / 596523235000, ty = 1200842774 / 2405335625\<rparr>"
    using deg_pts [rule_format, of 1] n0 by (simp add: numeral_2_eq_2 v0 v1 v2)
  have g1: "generateJaggedEdge ?a ?b 0.012 4 7 ! 1
       = \<lparr>tx = 90382070169 / 596523235000, ty = 72662878363 / 149130808750\<rparr>"
    using gen_pts [rule_format, of 1] n1 by (simp add: numeral_2_eq_2 v0 v1 v2)
  have l: "length (generateJaggedEdge ?p ?p 0.012 4 7) = 5"
    using deg_len by simp
  have li: "length (jaggedInterior ?p ?p 0.012 4 7) = 3"
    using deg_int by simp
  show ?thesis
    using l deg_hd deg_last li n0 ne n1 d1 g1 by simp
qed

section \<open>Properties of the edge extension resolver\<close>

lemma clamp01_range: "0 \<le> clamp01 v \<and> clamp01 v \<le> 1"
  by (simp add: clamp01_def)

lemma clamp01_id: "0 \<le> v \<Longrightarrow> v \<le> 1 \<Longrightarrow> clamp01 v = v"
  by (simp add: clamp01_def)

lemma pickCloser_unit:
  "inUnitSquare (fst acc) \<Longrightarrow> inUnitSquare (fst (pickCloser point acc c))"
  by (simp add: pickCloser_def inUnitSquare_def Let_def clamp01_range)

lemma foldl_pickCloser_unit:
  "inUnitSquare (fst acc) \<Longrightarrow> inUnitSquare (fst (foldl (pickCloser point) acc cs))"
  by (induction cs arbitrary: acc) (simp_all add: pickCloser_unit)

lemma foldl_pickCloser_none_valid:
  "list_all (\<lambda>c. \<not> candidateValid c) cs \<Longrightarrow> foldl (pickCloser point) acc cs = acc"
  by (induction cs arbitrary: acc) (simp_all add: pickCloser_def)

text \<open>
  Claim C3. For every endpoint, neighbor and flag, the point returned by
  \<open>extendToEdge\<close> has both coordinates in \<open>[0, 1]\<close>. When no candidate passes the
  validity test, the result is the fallback: the endpoint's clamped \<open>x\<close> on the top
  boundary \<open>y = 0\<close>, which is the endpoint's own \<open>x\<close> for an endpoint within the
  surface.
\<close>

theorem extendToEdge_unit_square:
  "0 \<le> tx (extendToEdge point neighbor isStart) \<and> tx (extendToEdge point neighbor isStart) \<le> 1
   \<and> 0 \<le> ty (extendToEdge point neighbor isStart) \<and> ty (extendToEdge point neighbor isStart) \<le> 1
   \<and> (list_all (\<lambda>c. \<not> candidateValid c)
         (edgeCandidates point (tx point - tx neighbor) (ty point - ty neighbor))
        \<longrightarrow> extendToEdge point neighbor isStart = \<lparr>tx = clamp01 (tx point), ty = 0\<rparr>
          \<and> (0 \<le> tx point \<and> tx point \<le> 1
               \<longrightarrow> extendToEdge point neighbor isStart = \<lparr>tx = tx point, ty = 0\<rparr>))"
proof -
  let ?start = "(\<lparr>tx = clamp01 (tx point), ty = 0\<rparr>, None :: real option)"
  let ?cs = "edgeCandidates point (tx point - tx neighbor) (ty point - ty neighbor)"
  have eq: "extendToEdge point neighbor isStart = fst (foldl (pickCloser point) ?start ?cs)"
    by (simp add: extendToEdge_def Let_def)
  have "inUnitSquare (fst ?start)"
    by (simp add: inUnitSquare_def clamp01_range)
  then have "inUnitSquare (extendToEdge point neighbor isStart)"
    unfolding eq by (rule foldl_pickCloser_unit)
  moreover have "list_all (\<lambda>c. \<not> candidateValid c) ?cs
      \<longrightarrow> extendToEdge point neighbor isStart = \<lparr>tx = clamp01 (tx point), ty = 0\<rparr>"
    unfolding eq by (simp add: foldl_pickCloser_none_valid)
  ultimately show ?thesis
    by (auto simp: inUnitSquare_def clamp01_id)
qed

theorem extendToEdge_unit_square_witness:
  "list_all (\<lambda>c. \<not> candidateValid c)
     (edgeCandidates \<lparr>tx = 0.3, ty = 0.7\<rparr> (tx \<lparr>tx = 0.3, ty = 0.7\<rparr> - tx \<lparr>tx = 0.3, ty = 0.7\<rparr>)
        (ty \<lparr>tx = 0.3, ty = 0.7\<rparr> - ty \<lparr>tx = 0.3, ty = 0.7\<rparr>))
   \<and> 0 \<le> tx \<lparr>tx = 0.3, ty = 0.7 :: real\<rparr> \<and> tx \<lparr>tx = 0.3, ty = 0.7 :: real\<rparr> \<le> 1
   \<and> extendToEdge \<lparr>tx = 0.3, ty = 0.7\<rparr> \<lparr>tx = 0.3, ty = 0.7\<rparr> True = \<lparr>tx = 0.3, ty = 0\<rparr>"
proof -
  have h: "list_all (\<lambda>c. \<not> candidateValid c)
     (edgeCandidates \<lparr>tx = 0.3, ty = 0.7\<rparr> (tx \<lparr>tx = 0.3, ty = 0.7\<rparr> - tx \<lparr>tx = 0.3, ty = 0.7\<rparr>)
        (ty \<lparr>tx = 0.3, ty = 0.7\<rparr> - ty \<lparr>tx = 0.3, ty = 0.7\<rparr>))"
    by (simp add: edgeCandidates_def)
  show ?thesis
    using h extendToEdge_unit_square [of "\<lparr>tx = 0.3, ty = 0.7\<rparr>" "\<lparr>tx = 0.3, ty = 0.7\<rparr>" True]
    by (simp add: clamp01_def)
qed

text \<open>
  Claim C4. With endpoint \<open>(0.5, 0.5)\<close> and neighbor \<open>(0.5, 0.6)\<close> the direction is
  \<open>(0, -0.1)\<close>: the zero x-delta leaves out the left and right candidates, the only
  candidate is on the top edge, and the result is exactly \<open>(0.5, 0)\<close>.
\<close>

theorem extendToEdge_upward:
  "edgeCandidates \<lparr>tx = 0.5, ty = 0.5\<rparr>
      (tx \<lparr>tx = 0.5, ty = 0.5\<rparr> - tx \<lparr>tx = 0.5, ty = 0.6\<rparr>)
      (ty \<lparr>tx = 0.5, ty = 0.5\<rparr> - ty \<lparr>tx = 0.5, ty = 0.6\<rparr>) = [\<lparr>tx = 0.5, ty = 0\<rparr>]
   \<and> extendToEdge \<lparr>tx = 0.5, ty = 0.5\<rparr> \<lparr>tx = 0.5, ty = 0.6\<rparr> isStart = \<lparr>tx = 0.5, ty = 0\<rparr>"
  by (simp add: extendToEdge_def edgeCandidates_def pickCloser_def candidateValid_def
      clamp01_def Let_def)

text \<open>
  Claim C10. The result of \<open>extendToEdge\<close> does not depend on its flag
  \<open>isStart\<close>: both branches compute the direction \<open>point - neighbor\<close>.
\<close>

theorem extendToEdge_flag_irrelevant:
  "extendToEdge point neighbor True = extendToEdge point neighbor False"
  by (simp add: extendToEdge_def)

section \<open>Properties of the gesture tracking state machine\<close>

declare fakeTearLoop.simps [simp del]

lemma handle_revealed: "isRevealed s \<Longrightarrow> handle el e s = s"
  by (cases e)
    (simp_all add: handleCoverPointerDown_def handleCoverPointerMove_def
      handleCoverPointerUp_def handleTapOpen_def)

lemma run_revealed: "isRevealed s \<Longrightarrow> run el es s = s"
  by (induction es) (simp_all add: handle_revealed)

lemma finishTear_fields:
  "isRevealed (finishTear lastPos s) \<and> \<not> isDragging (finishTear lastPos s)
   \<and> onRevealedCalls (finishTear lastPos s) = onRevealedCalls s + 1
   \<and> tearProgress (finishTear lastPos s) = tearProgress s
   \<and> isMobileRef (finishTear lastPos s) = isMobileRef s"
  by (simp add: finishTear_def Let_def)

lemma pointerDown_invariant:
  "sessionInvariant s \<Longrightarrow> sessionInvariant (handleCoverPointerDown el cx cy s)"
  by (auto simp: sessionInvariant_def handleCoverPointerDown_def split: option.splits)

lemma pointerMove_invariant:
  "sessionInvariant s \<Longrightarrow> sessionInvariant (handleCoverPointerMove el cx cy s)"
  by (auto simp: sessionInvariant_def handleCoverPointerMove_def Let_def finishTear_fields
      split: option.splits)

lemma pointerUp_invariant:
  "sessionInvariant s \<Longrightarrow> sessionInvariant (handleCoverPointerUp s)"
  by (auto simp: sessionInvariant_def handleCoverPointerUp_def Let_def finishTear_fields)

lemma tap_invariant:
  "sessionInvariant s \<Longrightarrow> sessionInvariant (handleTapOpen s)"
  by (auto simp: sessionInvariant_def handleTapOpen_def Let_def)

lemma handle_invariant: "sessionInvariant s \<Longrightarrow> sessionInvariant (handle el e s)"
  by (cases e)
    (simp_all add: pointerDown_invariant pointerMove_invariant pointerUp_invariant tap_invariant)

lemma run_invariant: "sessionInvariant s \<Longrightarrow> sessionInvariant (run el es s)"
  by (induction es arbitrary: s) (simp_all add: handle_invariant)

lemma initial_invariant: "sessionInvariant (initialState mobile)"
  by (simp add: sessionInvariant_def initialState_def)

lemma reachable_invariant: "sessionInvariant (run el es (initialState mobile))"
  by (simp add: run_invariant initial_invariant)

lemma handle_calls:
  "onRevealedCalls (handle el e s)
     = onRevealedCalls s + (if \<not> isRevealed s \<and> isRevealed (handle el e s) then 1 else 0)"
proof (cases e)
  case (PointerDown cx cy)
  then show ?thesis
    by (simp add: handleCoverPointerDown_def split: option.splits)
next
  case (PointerMove cx cy)
  then show ?thesis
    by (simp add: handleCoverPointerMove_def Let_def finishTear_fields split: option.splits)
next
  case PointerUp
  then show ?thesis
    by (simp add: handleCoverPointerUp_def Let_def finishTear_fields)
next
  case Tap
  then show ?thesis
    by (simp add: handleTapOpen_def Let_def)
qed

lemma run_append: "run el (es @ es') s = run el es' (run el es s)"
  by (induction es arbitrary: s) simp_all

text \<open>
  Claim C5. \<open>Revealed\<close> is terminal: once a session has reached it, any further
  pointer-down, pointer-move, pointer-up and tap events leave the whole state as it is,
  in particular the raw path, the progress, the completed tear and the phase. The
  \<open>onRevealed\<close> callback has been called once in a session that is revealed and
  never in one that is not, and an event calls it exactly when that event enters
  \<open>Revealed\<close>.
\<close>

theorem revealed_terminal:
  "(phase (run el es (initialState mobile)) = Revealed \<longrightarrow>
      run el (es @ es') (initialState mobile) = run el es (initialState mobile)
      \<and> tearStateOf (run el (es @ es') (initialState mobile))
          = tearStateOf (run el es (initialState mobile))
      \<and> onRevealedCalls (run el (es @ es') (initialState mobile)) = 1)
   \<and> onRevealedCalls (run el es (initialState mobile))
       = (if phase (run el es (initialState mobile)) = Revealed then 1 else 0)
   \<and> (phase s = Revealed \<longrightarrow> handle el e s = s)
   \<and> onRevealedCalls (handle el e s)
       = onRevealedCalls s
         + (if phase s \<noteq> Revealed \<and> phase (handle el e s) = Revealed then 1 else 0)"
proof -
  let ?s = "run el es (initialState mobile)"
  have ph: "phase t = Revealed \<longleftrightarrow> isRevealed t" for t
    by (simp add: phase_def)
  have calls: "onRevealedCalls ?s = (if phase ?s = Revealed then 1 else 0)"
    using reachable_invariant [of el es mobile]
    by (simp add: sessionInvariant_def ph)
  have stay: "phase ?s = Revealed \<longrightarrow>
      run el (es @ es') (initialState mobile) = ?s
      \<and> tearStateOf (run el (es @ es') (initialState mobile)) = tearStateOf ?s
      \<and> onRevealedCalls (run el (es @ es') (initialState mobile)) = 1"
    using calls by (simp add: run_append run_revealed ph)
  have one: "phase s = Revealed \<longrightarrow> handle el e s = s"
    by (simp add: ph handle_revealed)
  have step: "onRevealedCalls (handle el e s)
       = onRevealedCalls s
         + (if phase s \<noteq> Revealed \<and> phase (handle el e s) = Revealed then 1 else 0)"
    using handle_calls [of el e s] by (simp add: ph)
  show ?thesis
    by (rule conjI [OF stay conjI [OF calls conjI [OF one step]]])
qed

lemma getNormalizedPos_Some: "el = Some c \<Longrightarrow> getNormalizedPos el cx cy \<noteq> None"
  by (simp add: getNormalizedPos_def)

lemma dragging_refs:
  assumes "sessionInvariant s" and "phase s = Dragging"
  shows "isDragging s \<and> \<not> isRevealed s \<and> completedTear s = None
         \<and> dragStartRef s \<noteq> None \<and> lastPointRef s \<noteq> None"
  using assms by (auto simp: sessionInvariant_def phase_def split: if_splits)

lemma pointerMove_progress:
  assumes "isDragging s" and "\<not> isRevealed s" and "dragStartRef s = Some start"
    and "lastPointRef s \<noteq> None" and "el = Some c"
  shows "tearProgress (handleCoverPointerMove el cx cy s) = dragProgress el start cx cy"
    and "completedTear s = None \<Longrightarrow> \<not> isRevealed (handleCoverPointerMove el cx cy s)
          \<Longrightarrow> completedTear (handleCoverPointerMove el cx cy s) = None"
    and "isRevealed (handleCoverPointerMove el cx cy s)
         \<longleftrightarrow> dragProgress el start cx cy \<ge> 1
             \<or> (dragProgress el start cx cy \<ge> 0.75
                 \<and> (\<exists>pos. getNormalizedPos el cx cy = Some pos
                      \<and> (tx pos \<le> 0.03 \<or> tx pos \<ge> 0.97 \<or> ty pos \<le> 0.03 \<or> ty pos \<ge> 0.97)))"
    and "\<not> isRevealed (handleCoverPointerMove el cx cy s)
         \<Longrightarrow> isDragging (handleCoverPointerMove el cx cy s)
             \<and> dragStartRef (handleCoverPointerMove el cx cy s) = Some start
             \<and> lastPointRef (handleCoverPointerMove el cx cy s) \<noteq> None"
proof -
  obtain pos where pos: "getNormalizedPos el cx cy = Some pos"
    using getNormalizedPos_Some [OF assms(5)] by blast
  obtain lp where lp: "lastPointRef s = Some lp"
    using assms(4) by blast
  show "tearProgress (handleCoverPointerMove el cx cy s) = dragProgress el start cx cy"
    using assms(1,2,3) pos lp
    by (simp add: handleCoverPointerMove_def Let_def finishTear_fields)
  show "completedTear s = None \<Longrightarrow> \<not> isRevealed (handleCoverPointerMove el cx cy s)
          \<Longrightarrow> completedTear (handleCoverPointerMove el cx cy s) = None"
    using assms(1,2,3) pos lp
    by (auto simp: handleCoverPointerMove_def Let_def finishTear_fields split: if_splits)
  show "isRevealed (handleCoverPointerMove el cx cy s)
         \<longleftrightarrow> dragProgress el start cx cy \<ge> 1
             \<or> (dragProgress el start cx cy \<ge> 0.75
                 \<and> (\<exists>pos. getNormalizedPos el cx cy = Some pos
                      \<and> (tx pos \<le> 0.03 \<or> tx pos \<ge> 0.97 \<or> ty pos \<le> 0.03 \<or> ty pos \<ge> 0.97)))"
    using assms(1,2,3) pos lp
    by (simp add: handleCoverPointerMove_def Let_def finishTear_fields)
  show "\<not> isRevealed (handleCoverPointerMove el cx cy s)
         \<Longrightarrow> isDragging (handleCoverPointerMove el cx cy s)
             \<and> dragStartRef (handleCoverPointerMove el cx cy s) = Some start
             \<and> lastPointRef (handleCoverPointerMove el cx cy s) \<noteq> None"
    using assms(1,2,3) pos lp
    by (simp add: handleCoverPointerMove_def Let_def finishTear_fields split: if_splits)
qed

lemma dragProgress_bounds: "0 < coverDiagonal el \<Longrightarrow>
   0 \<le> dragProgress el start cx cy \<and> dragProgress el start cx cy \<le> 1"
  by (simp add: dragProgress_def requiredDist_def totalDist_def Let_def)

lemma dragProgress_mono:
  assumes "0 < coverDiagonal el" and "totalDist start cx cy \<le> totalDist start cx' cy'"
  shows "dragProgress el start cx cy \<le> dragProgress el start cx' cy'"
proof -
  have "0 < requiredDist el" using assms(1) by (simp add: requiredDist_def)
  then have "totalDist start cx cy / requiredDist el \<le> totalDist start cx' cy' / requiredDist el"
    using assms(2) by (simp add: divide_right_mono)
  then show ?thesis
    by (simp add: dragProgress_def min_le_iff_disj)
qed

lemma pointerUp_phase:
  assumes "\<not> isRevealed s"
  shows "commitsOnRelease s \<Longrightarrow> phase (handleCoverPointerUp s) = Revealed"
    and "\<not> commitsOnRelease s \<Longrightarrow> phase (handleCoverPointerUp s) = Idle
          \<and> tearPath (handleCoverPointerUp s) = [] \<and> tearProgress (handleCoverPointerUp s) = 0
          \<and> completedTear (handleCoverPointerUp s) = completedTear s
          \<and> onRevealedCalls (handleCoverPointerUp s) = onRevealedCalls s"
  using assms by (simp_all add: handleCoverPointerUp_def Let_def phase_def finishTear_fields)


subsection \<open>Rounding to double precision\<close>

lemma pow2_powr: "pow2 e = 2 powr real_of_int e"
  by (simp add: pow2_def powr_real_of_int inverse_eq_divide)

lemma pow2_pos: "0 < pow2 e"
  by (simp add: pow2_def)

lemma roundHalfEven_near:
  assumes "\<bar>t - real_of_int m\<bar> < 1 / 2"
  shows "roundHalfEven t = m"
proof (cases "real_of_int m \<le> t")
  case True
  then have f: "\<lfloor>t\<rfloor> = m" using assms by linarith
  show ?thesis using assms True by (simp add: roundHalfEven_def f Let_def)
next
  case False
  then have f: "\<lfloor>t\<rfloor> = m - 1" using assms by linarith
  show ?thesis using assms False by (simp add: roundHalfEven_def f Let_def)
qed

lemma floor_log2:
  assumes "pow2 b \<le> v" and "v < pow2 (b + 1)"
  shows "\<lfloor>log 2 v\<rfloor> = b"
proof -
  have pos: "0 < v" using assms(1) pow2_pos [of b] by linarith
  have "real_of_int b \<le> log 2 v"
    using assms(1) pos by (simp add: le_log_iff pow2_powr)
  moreover have "log 2 v < real_of_int b + 1"
    using assms(2) pos by (simp add: log_less_iff pow2_powr)
  ultimately show ?thesis by linarith
qed

lemma fl_near:
  assumes "pow2 (e + 52) \<le> v" and "v < pow2 (e + 53)"
    and "\<bar>v / pow2 e - real_of_int m\<bar> < 1 / 2"
  shows "fl v = real_of_int m * pow2 e"
proof -
  have pos: "0 < v" using assms(1) pow2_pos [of "e + 52"] by linarith
  have "\<lfloor>log 2 v\<rfloor> = e + 52"
    using floor_log2 [of "e + 52" v] assms(1,2) by (simp add: add.commute add.left_commute)
  then show ?thesis
    using pos assms(3) by (simp add: fl_def Let_def roundHalfEven_near)
qed

lemma pow2_add: "pow2 (a + b) = pow2 a * pow2 b"
  by (simp add: pow2_powr powr_add)

lemma fl_dyadic:
  assumes "2 ^ 52 < m" and "m < 2 ^ 53"
    and "(real_of_int m - 1 / 2) / 2 ^ k < v" and "v < (real_of_int m + 1 / 2) / 2 ^ k"
  shows "fl v = real_of_int m / 2 ^ k"
proof -
  have e: "pow2 (- int k) = 1 / 2 ^ k"
    by (simp add: pow2_def)
  have p52: "pow2 52 = 2 ^ 52" and p53: "pow2 53 = 2 ^ 53"
    by (simp_all add: pow2_def)
  have lo: "real_of_int m - 1 / 2 < v * 2 ^ k"
    using assms(3) by (simp add: field_simps)
  have hi: "v * 2 ^ k < real_of_int m + 1 / 2"
    using assms(4) by (simp add: field_simps)
  have "(2::int) ^ 52 + 1 \<le> m" using assms(1) by simp
  then have "real_of_int (2 ^ 52 + 1) \<le> real_of_int m" by (rule of_int_le_iff [THEN iffD2])
  then have m1: "(2::real) ^ 52 + 1 \<le> real_of_int m" by simp
  have "m \<le> (2::int) ^ 53 - 1" using assms(2) by simp
  then have "real_of_int m \<le> real_of_int (2 ^ 53 - 1)" by (rule of_int_le_iff [THEN iffD2])
  then have m2: "real_of_int m \<le> 2 ^ 53 - 1" by simp
  have b1: "pow2 (- int k + 52) \<le> v"
  proof -
    have "pow2 (- int k + 52) = pow2 (- int k) * pow2 52"
      by (rule pow2_add)
    also have "\<dots> = 2 ^ 52 / 2 ^ k" by (simp only: e p52) simp
    also have "\<dots> \<le> v"
      using lo m1 by (simp add: field_simps)
    finally show ?thesis .
  qed
  have b2: "v < pow2 (- int k + 53)"
  proof -
    have "v < 2 ^ 53 / 2 ^ k"
      using hi m2 by (simp add: field_simps)
    also have "\<dots> = pow2 (- int k) * pow2 53" by (simp only: e p53) simp
    also have "\<dots> = pow2 (- int k + 53)"
      by (rule pow2_add [symmetric])
    finally show ?thesis .
  qed
  have "\<bar>v * 2 ^ k - real_of_int m\<bar> < 1 / 2"
    using lo hi by linarith
  then have near: "\<bar>v / pow2 (- int k) - real_of_int m\<bar> < 1 / 2"
    by (simp add: e)
  show ?thesis
    using fl_near [OF b1 b2 near] by (simp add: e)
qed

lemma fl_exact:
  assumes "2 ^ 52 < m" and "m < 2 ^ 53" and "v = real_of_int m / 2 ^ k"
  shows "fl v = v"
proof -
  have "(real_of_int m - 1 / 2) / 2 ^ k < v"
    unfolding assms(3) by (simp add: divide_strict_right_mono)
  moreover have "v < (real_of_int m + 1 / 2) / 2 ^ k"
    unfolding assms(3) by (simp add: divide_strict_right_mono)
  ultimately have "fl v = real_of_int m / 2 ^ k"
    by (rule fl_dyadic [OF assms(1,2)])
  then show ?thesis by (simp add: assms(3))
qed

lemma fl_085: "fl 0.85 = 7656119366529843 / 2 ^ 53"
  using fl_dyadic [of 7656119366529843 53 "0.85"] by simp

lemma roundHalfEven_error: "\<bar>real_of_int (roundHalfEven t) - t\<bar> \<le> 1 / 2"
  unfolding roundHalfEven_def Let_def by (simp; linarith)

lemma pow2_floor_log2:
  assumes "0 < a"
  shows "pow2 \<lfloor>log 2 a\<rfloor> \<le> a"
proof -
  have "2 powr real_of_int \<lfloor>log 2 a\<rfloor> \<le> 2 powr (log 2 a)"
    by (rule powr_mono) simp_all
  also have "\<dots> = a" using assms by simp
  finally show ?thesis by (simp add: pow2_powr)
qed

lemma fl_rel: "\<bar>fl v - v\<bar> \<le> \<bar>v\<bar> / 2 ^ 53"
proof (cases "v = 0")
  case True
  then show ?thesis by (simp add: fl_def)
next
  case False
  define e where "e = \<lfloor>log 2 \<bar>v\<bar>\<rfloor> - 52"
  define t where "t = \<bar>v\<bar> / pow2 e"
  define r where "r = real_of_int (roundHalfEven t)"
  have pe: "0 < pow2 e" by (rule pow2_pos)
  have av: "0 < \<bar>v\<bar>" using False by simp
  have flv: "fl v = sgn v * r * pow2 e"
    using False by (simp add: fl_def Let_def e_def t_def r_def)
  have v: "v = sgn v * t * pow2 e"
    using pe by (simp add: t_def sgn_if)
  have "fl v - v = sgn v * (r - t) * pow2 e"
    using flv v by (simp add: algebra_simps)
  then have "\<bar>fl v - v\<bar> = \<bar>r - t\<bar> * pow2 e"
    using pe False by (simp add: abs_mult abs_sgn_eq)
  also have "\<dots> \<le> 1 / 2 * pow2 e"
    using roundHalfEven_error [of t] pe by (simp add: r_def)
  finally have b: "\<bar>fl v - v\<bar> \<le> pow2 e / 2" by simp
  have "pow2 (e + 52) \<le> \<bar>v\<bar>"
    using pow2_floor_log2 [OF av] by (simp add: e_def)
  then have "pow2 e * 2 ^ 52 \<le> \<bar>v\<bar>"
    by (simp add: pow2_add) (simp add: pow2_def)
  then have "pow2 e / 2 \<le> \<bar>v\<bar> / 2 ^ 53" by simp
  then show ?thesis using b by linarith
qed

lemma fl_abs_bounds:
  "\<bar>v\<bar> * roundingLo \<le> \<bar>fl v\<bar> \<and> \<bar>fl v\<bar> \<le> \<bar>v\<bar> * roundingHi"
proof -
  have d: "\<bar>fl v - v\<bar> \<le> \<bar>v\<bar> / 2 ^ 53" by (rule fl_rel)
  have t1: "\<bar>fl v\<bar> \<le> \<bar>v\<bar> + \<bar>fl v - v\<bar>" by linarith
  have t2: "\<bar>v\<bar> \<le> \<bar>fl v\<bar> + \<bar>fl v - v\<bar>" by linarith
  have "\<bar>v\<bar> - \<bar>v\<bar> / 2 ^ 53 \<le> \<bar>fl v\<bar>" using d t2 by linarith
  moreover have "\<bar>fl v\<bar> \<le> \<bar>v\<bar> + \<bar>v\<bar> / 2 ^ 53" using d t1 by linarith
  ultimately show ?thesis
    by (simp add: roundingLo_def roundingHi_def algebra_simps)
qed

lemma fl_nonneg: "0 \<le> v \<Longrightarrow> 0 \<le> fl v"
  by (simp add: fl_def Let_def pow2_pos less_imp_le roundHalfEven_def sgn_if)


lemma fl_bounds:
  assumes "0 \<le> v"
  shows "v * roundingLo \<le> fl v" and "fl v \<le> v * roundingHi"
  using fl_abs_bounds [of v] assms fl_nonneg [OF assms] by simp_all

lemma rounding_bounds: "0 < roundingLo" "roundingLo \<le> 1" "1 \<le> roundingHi" "0 < roundingHi"
  by (simp_all add: roundingLo_def roundingHi_def)

lemma withinRoundings_refl: "withinRoundings 0 a a"
  by (simp add: withinRoundings_def)

lemma withinRoundings_nonneg:
  assumes "0 \<le> A" and "withinRoundings k a A"
  shows "0 \<le> a"
proof -
  have "0 \<le> A * roundingLo ^ k"
    using assms(1) rounding_bounds(1) by simp
  then show ?thesis using assms(2) by (simp add: withinRoundings_def)
qed

lemma withinRoundings_fl:
  assumes A: "0 \<le> A" and w: "withinRoundings k a A"
  shows "withinRoundings (Suc k) (fl a) A"
proof -
  have a: "0 \<le> a" by (rule withinRoundings_nonneg [OF A w])
  have fa: "0 \<le> fl a" by (rule fl_nonneg [OF a])
  have b: "a * roundingLo \<le> fl a" "fl a \<le> a * roundingHi"
    using fl_abs_bounds [of a] a fa by simp_all
  have "A * roundingLo ^ Suc k = A * roundingLo ^ k * roundingLo" by simp
  also have "\<dots> \<le> a * roundingLo"
    using w rounding_bounds(1) by (intro mult_right_mono) (simp_all add: withinRoundings_def)
  also have "\<dots> \<le> fl a" by (rule b(1))
  finally have lo: "A * roundingLo ^ Suc k \<le> fl a" .
  have "fl a \<le> a * roundingHi" by (rule b(2))
  also have "\<dots> \<le> A * roundingHi ^ k * roundingHi"
    using w rounding_bounds(4) by (intro mult_right_mono) (simp_all add: withinRoundings_def)
  also have "\<dots> = A * roundingHi ^ Suc k" by simp
  finally have hi: "fl a \<le> A * roundingHi ^ Suc k" .
  show ?thesis using lo hi by (simp add: withinRoundings_def)
qed

lemma withinRoundings_fl_abs: "withinRoundings 1 \<bar>fl v\<bar> \<bar>v\<bar>"
  using fl_abs_bounds [of v] by (simp add: withinRoundings_def)

lemma withinRoundings_mult:
  assumes A: "0 \<le> A" and B: "0 \<le> B"
    and wa: "withinRoundings j a A" and wb: "withinRoundings k b B"
  shows "withinRoundings (j + k) (a * b) (A * B)"
proof -
  have a: "0 \<le> a" by (rule withinRoundings_nonneg [OF A wa])
  have b: "0 \<le> b" by (rule withinRoundings_nonneg [OF B wb])
  have la: "0 \<le> A * roundingLo ^ j" and lb: "0 \<le> B * roundingLo ^ k"
    using A B rounding_bounds(1) by simp_all
  have "(A * roundingLo ^ j) * (B * roundingLo ^ k) \<le> a * b"
    using wa wb la lb by (intro mult_mono) (simp_all add: withinRoundings_def a)
  then have lo: "A * B * roundingLo ^ (j + k) \<le> a * b"
    by (simp add: power_add mult_ac)
  have "a * b \<le> (A * roundingHi ^ j) * (B * roundingHi ^ k)"
    using wa wb a b A B rounding_bounds(4)
    by (intro mult_mono) (simp_all add: withinRoundings_def)
  then have hi: "a * b \<le> A * B * roundingHi ^ (j + k)"
    by (simp add: power_add mult_ac)
  show ?thesis using lo hi by (simp add: withinRoundings_def)
qed

lemma withinRoundings_add:
  assumes "withinRoundings k a A" and "withinRoundings k b B"
  shows "withinRoundings k (a + b) (A + B)"
  using assms by (simp add: withinRoundings_def distrib_right)

lemma withinRoundings_weaken:
  assumes A: "0 \<le> A" and w: "withinRoundings k a A" and le: "k \<le> k'"
  shows "withinRoundings k' a A"
proof -
  have "roundingLo ^ k' \<le> roundingLo ^ k"
    using le rounding_bounds(1,2) by (intro power_decreasing) simp_all
  then have "A * roundingLo ^ k' \<le> A * roundingLo ^ k"
    using A by (rule mult_left_mono)
  then have lo: "A * roundingLo ^ k' \<le> a"
    using w by (simp add: withinRoundings_def)
  have "roundingHi ^ k \<le> roundingHi ^ k'"
    using le rounding_bounds(3) by (intro power_increasing) simp_all
  then have "A * roundingHi ^ k \<le> A * roundingHi ^ k'"
    using A by (rule mult_left_mono)
  then have hi: "a \<le> A * roundingHi ^ k'"
    using w by (simp add: withinRoundings_def)
  show ?thesis using lo hi by (simp add: withinRoundings_def)
qed

lemma sqrt_scaled:
  assumes "0 \<le> c"
  shows "sqrt (A * c ^ (2 * k)) = sqrt A * c ^ k"
proof -
  have "c ^ (2 * k) = (c ^ k)\<^sup>2"
    by (simp add: power_mult mult.commute power2_eq_square power_mult_distrib [symmetric]
        power_add [symmetric] mult_2)
  then show ?thesis
    using assms by (simp add: real_sqrt_mult)
qed

lemma withinRoundings_sqrt:
  assumes w: "withinRoundings (2 * k) a A"
  shows "withinRoundings k (sqrt a) (sqrt A)"
proof -
  have "sqrt (A * roundingLo ^ (2 * k)) \<le> sqrt a"
    using w by (simp add: withinRoundings_def)
  then have lo: "sqrt A * roundingLo ^ k \<le> sqrt a"
    using sqrt_scaled [of roundingLo A k] rounding_bounds(1) by simp
  have "sqrt a \<le> sqrt (A * roundingHi ^ (2 * k))"
    using w by (simp add: withinRoundings_def)
  then have hi: "sqrt a \<le> sqrt A * roundingHi ^ k"
    using sqrt_scaled [of roundingHi A k] rounding_bounds(4) by simp
  show ?thesis using lo hi by (simp add: withinRoundings_def)
qed


lemma square_within:
  "withinRoundings 3 (fl (fl d * fl d)) (d * d)"
proof -
  have "withinRoundings (1 + 1) (\<bar>fl d\<bar> * \<bar>fl d\<bar>) (\<bar>d\<bar> * \<bar>d\<bar>)"
    by (rule withinRoundings_mult [OF _ _ withinRoundings_fl_abs withinRoundings_fl_abs]) simp_all
  then have "withinRoundings 2 (fl d * fl d) (d * d)"
    by (simp add: abs_mult [symmetric] numeral_2_eq_2)
  then have "withinRoundings (Suc 2) (fl (fl d * fl d)) (d * d)"
    by (rule withinRoundings_fl [rotated]) simp
  then show ?thesis by (simp add: numeral_3_eq_3 numeral_2_eq_2)
qed

lemma totalDistDouble_within:
  "withinRoundings 3 (totalDistDouble start x y) (totalDist start x y)"
proof -
  define dx where "dx = x - fst start"
  define dy where "dy = y - snd start"
  have s: "0 \<le> dx * dx + dy * dy" by simp
  have "withinRoundings 3 (fl (fl dx * fl dx) + fl (fl dy * fl dy)) (dx * dx + dy * dy)"
    by (rule withinRoundings_add [OF square_within square_within])
  then have "withinRoundings (Suc 3) (fl (fl (fl dx * fl dx) + fl (fl dy * fl dy))) (dx * dx + dy * dy)"
    by (rule withinRoundings_fl [OF s])
  then have "withinRoundings (2 * 2) (fl (fl (fl dx * fl dx) + fl (fl dy * fl dy))) (dx * dx + dy * dy)"
    by (simp add: numeral_3_eq_3 numeral_2_eq_2)
  then have "withinRoundings 2 (sqrt (fl (fl (fl dx * fl dx) + fl (fl dy * fl dy))))
               (sqrt (dx * dx + dy * dy))"
    by (rule withinRoundings_sqrt)
  then have "withinRoundings (Suc 2) (fl (sqrt (fl (fl (fl dx * fl dx) + fl (fl dy * fl dy)))))
               (sqrt (dx * dx + dy * dy))"
    by (rule withinRoundings_fl [rotated]) simp
  then show ?thesis
    by (simp add: totalDistDouble_def totalDist_def Let_def dx_def dy_def numeral_3_eq_3 numeral_2_eq_2)
qed

lemma coverDiagonalDouble_within:
  "withinRoundings 2 (coverDiagonalDouble el) (coverDiagonal el)"
proof (cases el)
  case None
  have "withinRoundings 2 700 700"
    by (rule withinRoundings_weaken [OF _ withinRoundings_refl]) simp_all
  then show ?thesis using None by (simp add: coverDiagonalDouble_def coverDiagonal_def)
next
  case (Some c)
  define w where "w = (offsetWidth c)\<^sup>2"
  define h where "h = (offsetHeight c)\<^sup>2"
  have w: "0 \<le> w" and h: "0 \<le> h" by (simp_all add: w_def h_def)
  have fw: "withinRoundings (Suc 0) (fl w) w"
    by (rule withinRoundings_fl [OF w withinRoundings_refl])
  have fh: "withinRoundings (Suc 0) (fl h) h"
    by (rule withinRoundings_fl [OF h withinRoundings_refl])
  have "withinRoundings (Suc 0) (fl w + fl h) (w + h)"
    by (rule withinRoundings_add [OF fw fh])
  then have "withinRoundings (Suc (Suc 0)) (fl (fl w + fl h)) (w + h)"
    by (rule withinRoundings_fl [rotated]) (simp add: w h)
  then have "withinRoundings (2 * 1) (fl (fl w + fl h)) (w + h)"
    by (simp add: numeral_2_eq_2)
  then have "withinRoundings 1 (sqrt (fl (fl w + fl h))) (sqrt (w + h))"
    by (rule withinRoundings_sqrt)
  then have "withinRoundings (Suc 1) (fl (sqrt (fl (fl w + fl h)))) (sqrt (w + h))"
    by (rule withinRoundings_fl [rotated]) (simp add: w h)
  then show ?thesis
    using Some by (simp add: coverDiagonalDouble_def coverDiagonal_def w_def h_def numeral_2_eq_2)
qed

lemma coverDiagonal_nonneg: "0 \<le> coverDiagonal el"
  by (cases el) (simp_all add: coverDiagonal_def)

lemma requiredDistDouble_within:
  "withinRoundings 4 (requiredDistDouble el) (requiredDist el)"
proof -
  have c: "withinRoundings 1 (fl 0.85) 0.85"
    using withinRoundings_fl [OF _ withinRoundings_refl, of "0.85"] by simp
  have "withinRoundings (2 + 1) (coverDiagonalDouble el * fl 0.85) (coverDiagonal el * 0.85)"
    by (rule withinRoundings_mult [OF coverDiagonal_nonneg _ coverDiagonalDouble_within c]) simp
  then have "withinRoundings (Suc (2 + 1)) (fl (coverDiagonalDouble el * fl 0.85)) (coverDiagonal el * 0.85)"
    by (rule withinRoundings_fl [rotated]) (simp add: coverDiagonal_nonneg)
  then show ?thesis
    by (simp add: requiredDistDouble_def requiredDist_def eval_nat_numeral)
qed


lemma rounding_ratio:
  "roundingHi ^ 4 / roundingLo ^ 4 \<le> 1 + 1 / 10 ^ 15"
  "1 - 1 / 10 ^ 15 \<le> roundingLo ^ 4 / roundingHi ^ 4"
  by (simp_all add: roundingLo_def roundingHi_def power_divide)

lemma dragProgressDouble_close:
  assumes diag: "0 < coverDiagonal el"
  shows "\<bar>dragProgressDouble el start x y - dragProgress el start x y\<bar> \<le> 1 / 10 ^ 15"
proof -
  define T where "T = totalDist start x y"
  define R where "R = requiredDist el"
  define T' where "T' = totalDistDouble start x y"
  define R' where "R' = requiredDistDouble el"
  define q where "q = T / R"
  define v where "v = fl (T' / R')"
  define eps :: real where "eps = 1 / 10 ^ 15"
  have T: "0 \<le> T" by (simp add: T_def totalDist_def Let_def)
  have R: "0 < R" using diag by (simp add: R_def requiredDist_def)
  have wT: "withinRoundings 3 T' T" unfolding T_def T'_def by (rule totalDistDouble_within)
  have wR: "withinRoundings 4 R' R" unfolding R_def R'_def by (rule requiredDistDouble_within)
  have lo: "0 < roundingLo" and hi: "0 < roundingHi" by (rule rounding_bounds)+
  have T'lo: "T * roundingLo ^ 3 \<le> T'" and T'hi: "T' \<le> T * roundingHi ^ 3"
    using wT by (simp_all add: withinRoundings_def)
  have R'lo: "R * roundingLo ^ 4 \<le> R'" and R'hi: "R' \<le> R * roundingHi ^ 4"
    using wR by (simp_all add: withinRoundings_def)
  have T': "0 \<le> T'" by (rule withinRoundings_nonneg [OF T wT])
  have Rl: "0 < R * roundingLo ^ 4" using R lo by simp
  have R': "0 < R'" using Rl R'lo by linarith
  have q: "0 \<le> q" using T R by (simp add: q_def)
  have q': "0 \<le> T' / R'" using T' R' by simp
  have "0 \<le> T * roundingHi ^ 3" using T hi by simp
  then have up1: "T' / R' \<le> (T * roundingHi ^ 3) / (R * roundingLo ^ 4)"
    by (rule frac_le [OF _ T'hi Rl R'lo])
  have dn1: "(T * roundingLo ^ 3) / (R * roundingHi ^ 4) \<le> T' / R'"
    by (rule frac_le [OF T' T'lo R' R'hi])
  have fb: "T' / R' * roundingLo \<le> v" "v \<le> T' / R' * roundingHi"
    unfolding v_def by (rule fl_bounds [OF q'])+
  have "v \<le> (T * roundingHi ^ 3) / (R * roundingLo ^ 4) * roundingHi"
    using fb(2) mult_right_mono [OF up1 less_imp_le [OF hi]] by linarith
  also have "\<dots> = q * (roundingHi ^ 4 / roundingLo ^ 4)"
    by (simp add: q_def eval_nat_numeral)
  also have "\<dots> \<le> q * (1 + eps)"
    unfolding eps_def by (rule mult_left_mono [OF rounding_ratio(1) q])
  finally have up: "v \<le> q + q * eps" by (simp add: algebra_simps)
  have "q * (1 - eps) \<le> q * (roundingLo ^ 4 / roundingHi ^ 4)"
    unfolding eps_def by (rule mult_left_mono [OF rounding_ratio(2) q])
  also have "\<dots> = (T * roundingLo ^ 3) / (R * roundingHi ^ 4) * roundingLo"
    by (simp add: q_def eval_nat_numeral)
  also have "\<dots> \<le> v"
    using fb(1) mult_right_mono [OF dn1 less_imp_le [OF lo]] by linarith
  finally have dn: "q - q * eps \<le> v" by (simp add: algebra_simps)
  have e: "0 < eps" "eps < 1" by (simp_all add: eps_def)
  have "\<bar>min v 1 - min q 1\<bar> \<le> eps"
  proof (cases "q \<le> 1")
    case True
    have "q * eps \<le> 1 * eps" using True e(1) by (intro mult_right_mono) simp_all
    then have qe: "q * eps \<le> eps" by (simp only: mult_1)
    have b: "v \<le> q + eps" "q - eps \<le> v" using up dn qe by linarith+
    then show ?thesis using True by (cases "v \<le> 1") (simp_all add: min_def abs_le_iff)
  next
    case False
    then have "1 * (1 - eps) \<le> q * (1 - eps)" using e(2) by (intro mult_right_mono) simp_all
    then have "1 - eps \<le> q - q * eps" by (simp only: mult_1 right_diff_distrib mult_1_right)
    then have b: "1 - eps \<le> v" using dn by linarith
    then show ?thesis using False e by (cases "v \<le> 1") (simp_all add: min_def abs_le_iff)
  qed
  then show ?thesis
    by (simp add: dragProgressDouble_def dragProgress_def v_def q_def T_def R_def T'_def R'_def
        eps_def)
qed

subsection \<open>Release in double precision\<close>

lemma fl_06: "fl 0.6 = 5404319552844595 / 2 ^ 53"
  using fl_dyadic [of 5404319552844595 53 "0.6"] by simp

lemma pointerMoveDouble_progress:
  assumes "isDragging s" and "\<not> isRevealed s" and "dragStartRef s = Some start"
    and "lastPointRef s \<noteq> None" and "el = Some c"
  shows "tearProgress (handleCoverPointerMoveDouble el cx cy s) = dragProgressDouble el start cx cy"
    and "completedTear s = None \<Longrightarrow> \<not> isRevealed (handleCoverPointerMoveDouble el cx cy s)
          \<Longrightarrow> completedTear (handleCoverPointerMoveDouble el cx cy s) = None"
    and "isRevealed (handleCoverPointerMoveDouble el cx cy s)
         \<longleftrightarrow> dragProgressDouble el start cx cy \<ge> 1
             \<or> (dragProgressDouble el start cx cy \<ge> 0.75
                 \<and> (\<exists>pos. getNormalizedPos el cx cy = Some pos
                      \<and> (tx pos \<le> 0.03 \<or> tx pos \<ge> 0.97 \<or> ty pos \<le> 0.03 \<or> ty pos \<ge> 0.97)))"
proof -
  obtain pos where pos: "getNormalizedPos el cx cy = Some pos"
    using getNormalizedPos_Some [OF assms(5)] by blast
  obtain lp where lp: "lastPointRef s = Some lp"
    using assms(4) by blast
  show "tearProgress (handleCoverPointerMoveDouble el cx cy s) = dragProgressDouble el start cx cy"
    using assms(1,2,3) pos lp
    by (simp add: handleCoverPointerMoveDouble_def Let_def finishTear_fields)
  show "completedTear s = None \<Longrightarrow> \<not> isRevealed (handleCoverPointerMoveDouble el cx cy s)
          \<Longrightarrow> completedTear (handleCoverPointerMoveDouble el cx cy s) = None"
    using assms(1,2,3) pos lp
    by (auto simp: handleCoverPointerMoveDouble_def Let_def finishTear_fields split: if_splits)
  show "isRevealed (handleCoverPointerMoveDouble el cx cy s)
         \<longleftrightarrow> dragProgressDouble el start cx cy \<ge> 1
             \<or> (dragProgressDouble el start cx cy \<ge> 0.75
                 \<and> (\<exists>pos. getNormalizedPos el cx cy = Some pos
                      \<and> (tx pos \<le> 0.03 \<or> tx pos \<ge> 0.97 \<or> ty pos \<le> 0.03 \<or> ty pos \<ge> 0.97)))"
    using assms(1,2,3) pos lp
    by (simp add: handleCoverPointerMoveDouble_def Let_def finishTear_fields)
qed

lemma pointerUpDouble_phase:
  shows "isRevealed s \<Longrightarrow> phase (handleCoverPointerUpDouble s) = Revealed"
    and "\<not> isRevealed s \<Longrightarrow> commitsOnReleaseDouble s
          \<Longrightarrow> phase (handleCoverPointerUpDouble s) = Revealed"
    and "\<not> isRevealed s \<Longrightarrow> \<not> commitsOnReleaseDouble s
          \<Longrightarrow> phase (handleCoverPointerUpDouble s) = Idle
          \<and> tearPath (handleCoverPointerUpDouble s) = []
          \<and> tearProgress (handleCoverPointerUpDouble s) = 0
          \<and> completedTear (handleCoverPointerUpDouble s) = completedTear s"
  by (simp_all add: handleCoverPointerUpDouble_def Let_def phase_def finishTear_fields)

lemma half_drag_double:
  assumes "0 < coverDiagonal el" and "totalDist start cx cy = 0.5 * requiredDist el"
  shows "dragProgressDouble el start cx cy < fl 0.6"
proof -
  have req: "0 < requiredDist el" using assms(1) by (simp add: requiredDist_def)
  have dp: "dragProgress el start cx cy = 0.5"
    using req by (simp add: dragProgress_def assms(2))
  have "\<bar>dragProgressDouble el start cx cy - 0.5\<bar> \<le> 1 / 10 ^ 15"
    using dragProgressDouble_close [OF assms(1), of start cx cy] by (simp only: dp)
  then have "dragProgressDouble el start cx cy \<le> 0.5 + 1 / 10 ^ 15"
    by linarith
  also have "\<dots> < fl 0.6" unfolding fl_06 by simp
  finally show ?thesis .
qed

lemma margin_drag_double:
  assumes "0 < coverDiagonal el"
    and "(0.85 + 1 / 10 ^ 15) * requiredDist el \<le> totalDist start cx cy"
  shows "fl 0.85 \<le> dragProgressDouble el start cx cy"
proof -
  have req: "0 < requiredDist el" using assms(1) by (simp add: requiredDist_def)
  have "0.85 + 1 / 10 ^ 15 \<le> totalDist start cx cy / requiredDist el"
    using assms(2) req by (simp add: pos_le_divide_eq)
  then have dp: "0.85 + 1 / 10 ^ 15 \<le> dragProgress el start cx cy"
    by (simp add: dragProgress_def)
  have "\<bar>dragProgressDouble el start cx cy - dragProgress el start cx cy\<bar> \<le> 1 / 10 ^ 15"
    by (rule dragProgressDouble_close [OF assms(1)])
  then have "0.85 \<le> dragProgressDouble el start cx cy"
    using dp by linarith
  moreover have "fl 0.85 \<le> 0.85" unfolding fl_085 by simp
  ultimately show ?thesis by linarith
qed

subsection \<open>The release thresholds\<close>

text \<open>
  Claim C2, as amended. On pointer-up in a dragging state of a session, the machine goes
  to \<open>Revealed\<close> exactly when the stored progress is at least \<open>0.85\<close>, or at least
  \<open>0.6\<close> with the last recorded point within 4% of an edge; otherwise it goes to
  \<open>Idle\<close> with the raw path empty, the progress \<open>0\<close> and no completed tear. This
  holds with the thresholds read as reals and with the thresholds read as doubles. A
  pointer-move to 50% of the required distance followed by the release ends in
  \<open>Idle\<close>, in exact arithmetic and in double precision. In double precision a
  pointer-move to at least \<open>85% + 10^-15\<close> of the required distance followed by the
  release ends in \<open>Revealed\<close>.
\<close>

theorem release_commit_thresholds:
  assumes reach: "s = run el es (initialState mobile)" and drag: "phase s = Dragging"
  shows "lastPointRef s \<noteq> None
   \<and> (lastPointRef s = Some p \<longrightarrow>
        (phase (handleCoverPointerUp s) = Revealed
          \<longleftrightarrow> tearProgress s \<ge> 0.85
              \<or> (tearProgress s \<ge> 0.6
                  \<and> (tx p \<le> 0.04 \<or> tx p \<ge> 0.96 \<or> ty p \<le> 0.04 \<or> ty p \<ge> 0.96))))
   \<and> (phase (handleCoverPointerUp s) \<noteq> Revealed \<longrightarrow>
        phase (handleCoverPointerUp s) = Idle
        \<and> tearPath (handleCoverPointerUp s) = []
        \<and> tearProgress (handleCoverPointerUp s) = 0
        \<and> completedTear (handleCoverPointerUp s) = None)
   \<and> (el = Some c \<and> 0 < coverDiagonal el \<and> dragStartRef s = Some start
        \<and> totalDist start cx cy = 0.5 * requiredDist el \<longrightarrow>
        phase (handleCoverPointerUp (handleCoverPointerMove el cx cy s)) = Idle
        \<and> tearPath (handleCoverPointerUp (handleCoverPointerMove el cx cy s)) = []
        \<and> tearProgress (handleCoverPointerUp (handleCoverPointerMove el cx cy s)) = 0
        \<and> completedTear (handleCoverPointerUp (handleCoverPointerMove el cx cy s)) = None)
   \<and> (lastPointRef s = Some p \<longrightarrow>
        (phase (handleCoverPointerUpDouble s) = Revealed
          \<longleftrightarrow> tearProgress s \<ge> fl 0.85
              \<or> (tearProgress s \<ge> fl 0.6
                  \<and> (tx p \<le> 0.04 \<or> tx p \<ge> 0.96 \<or> ty p \<le> 0.04 \<or> ty p \<ge> 0.96))))
   \<and> (phase (handleCoverPointerUpDouble s) \<noteq> Revealed \<longrightarrow>
        phase (handleCoverPointerUpDouble s) = Idle
        \<and> tearPath (handleCoverPointerUpDouble s) = []
        \<and> tearProgress (handleCoverPointerUpDouble s) = 0
        \<and> completedTear (handleCoverPointerUpDouble s) = None)
   \<and> (el = Some c \<and> 0 < coverDiagonal el \<and> dragStartRef s = Some start
        \<and> totalDist start cx cy = 0.5 * requiredDist el \<longrightarrow>
        phase (handleCoverPointerUpDouble (handleCoverPointerMoveDouble el cx cy s)) = Idle
        \<and> tearPath (handleCoverPointerUpDouble (handleCoverPointerMoveDouble el cx cy s)) = []
        \<and> tearProgress (handleCoverPointerUpDouble (handleCoverPointerMoveDouble el cx cy s)) = 0
        \<and> completedTear (handleCoverPointerUpDouble (handleCoverPointerMoveDouble el cx cy s))
            = None)
   \<and> (el = Some c \<and> 0 < coverDiagonal el \<and> dragStartRef s = Some start
        \<and> (0.85 + 1 / 10 ^ 15) * requiredDist el \<le> totalDist start cx cy \<longrightarrow>
        phase (handleCoverPointerUpDouble (handleCoverPointerMoveDouble el cx cy s)) = Revealed)"
proof -
  have inv: "sessionInvariant s"
    unfolding reach by (rule reachable_invariant)
  have refs: "isDragging s" "\<not> isRevealed s" "completedTear s = None"
    "dragStartRef s \<noteq> None" "lastPointRef s \<noteq> None"
    using dragging_refs [OF inv drag] by simp_all
  have A: "lastPointRef s = Some p \<longrightarrow>
        (phase (handleCoverPointerUp s) = Revealed
          \<longleftrightarrow> tearProgress s \<ge> 0.85
              \<or> (tearProgress s \<ge> 0.6
                  \<and> (tx p \<le> 0.04 \<or> tx p \<ge> 0.96 \<or> ty p \<le> 0.04 \<or> ty p \<ge> 0.96)))"
  proof
    assume p: "lastPointRef s = Some p"
    have c: "commitsOnRelease s \<longleftrightarrow> tearProgress s \<ge> 0.85
              \<or> (tearProgress s \<ge> 0.6
                  \<and> (tx p \<le> 0.04 \<or> tx p \<ge> 0.96 \<or> ty p \<le> 0.04 \<or> ty p \<ge> 0.96))"
      by (simp add: commitsOnRelease_def nearEdgeAtRelease_def p)
    show "phase (handleCoverPointerUp s) = Revealed
          \<longleftrightarrow> tearProgress s \<ge> 0.85
              \<or> (tearProgress s \<ge> 0.6
                  \<and> (tx p \<le> 0.04 \<or> tx p \<ge> 0.96 \<or> ty p \<le> 0.04 \<or> ty p \<ge> 0.96))"
      unfolding c [symmetric]
      using pointerUp_phase [OF refs(2)] by (cases "commitsOnRelease s") simp_all
  qed
  have B: "phase (handleCoverPointerUp s) \<noteq> Revealed \<longrightarrow>
        phase (handleCoverPointerUp s) = Idle
        \<and> tearPath (handleCoverPointerUp s) = []
        \<and> tearProgress (handleCoverPointerUp s) = 0
        \<and> completedTear (handleCoverPointerUp s) = None"
    using pointerUp_phase [OF refs(2)] refs(3) by (cases "commitsOnRelease s") simp_all
  have D: "phase (handleCoverPointerUp (handleCoverPointerMove el cx cy s)) = Idle
        \<and> tearPath (handleCoverPointerUp (handleCoverPointerMove el cx cy s)) = []
        \<and> tearProgress (handleCoverPointerUp (handleCoverPointerMove el cx cy s)) = 0
        \<and> completedTear (handleCoverPointerUp (handleCoverPointerMove el cx cy s)) = None"
    if h: "el = Some c" "0 < coverDiagonal el" "dragStartRef s = Some start"
      "totalDist start cx cy = 0.5 * requiredDist el"
  proof -
    let ?s1 = "handleCoverPointerMove el cx cy s"
    have req: "0 < requiredDist el" using h(2) by (simp add: requiredDist_def)
    have dp: "dragProgress el start cx cy = 0.5"
      using req by (simp add: dragProgress_def h(4))
    then have prog: "tearProgress ?s1 = 0.5"
      using pointerMove_progress(1) [OF refs(1,2) h(3) refs(5) h(1)] by simp
    have nrev: "\<not> isRevealed ?s1"
      using pointerMove_progress(3) [OF refs(1,2) h(3) refs(5) h(1), of cx cy] dp by simp
    have none: "completedTear ?s1 = None"
      using pointerMove_progress(2) [OF refs(1,2) h(3) refs(5) h(1) refs(3) nrev] .
    have "\<not> commitsOnRelease ?s1" by (simp add: commitsOnRelease_def prog)
    then show ?thesis using pointerUp_phase(2) [OF nrev] none by simp
  qed
  have D': "el = Some c \<and> 0 < coverDiagonal el \<and> dragStartRef s = Some start
        \<and> totalDist start cx cy = 0.5 * requiredDist el \<longrightarrow>
        phase (handleCoverPointerUp (handleCoverPointerMove el cx cy s)) = Idle
        \<and> tearPath (handleCoverPointerUp (handleCoverPointerMove el cx cy s)) = []
        \<and> tearProgress (handleCoverPointerUp (handleCoverPointerMove el cx cy s)) = 0
        \<and> completedTear (handleCoverPointerUp (handleCoverPointerMove el cx cy s)) = None"
    using D by (intro impI) (elim conjE)
  have E: "lastPointRef s = Some p \<longrightarrow>
        (phase (handleCoverPointerUpDouble s) = Revealed
          \<longleftrightarrow> tearProgress s \<ge> fl 0.85
              \<or> (tearProgress s \<ge> fl 0.6
                  \<and> (tx p \<le> 0.04 \<or> tx p \<ge> 0.96 \<or> ty p \<le> 0.04 \<or> ty p \<ge> 0.96)))"
  proof
    assume p: "lastPointRef s = Some p"
    have c: "commitsOnReleaseDouble s \<longleftrightarrow> tearProgress s \<ge> fl 0.85
              \<or> (tearProgress s \<ge> fl 0.6
                  \<and> (tx p \<le> 0.04 \<or> tx p \<ge> 0.96 \<or> ty p \<le> 0.04 \<or> ty p \<ge> 0.96))"
      by (simp only: commitsOnReleaseDouble_def nearEdgeAtRelease_def p option.case)
    show "phase (handleCoverPointerUpDouble s) = Revealed
          \<longleftrightarrow> tearProgress s \<ge> fl 0.85
              \<or> (tearProgress s \<ge> fl 0.6
                  \<and> (tx p \<le> 0.04 \<or> tx p \<ge> 0.96 \<or> ty p \<le> 0.04 \<or> ty p \<ge> 0.96))"
      unfolding c [symmetric]
      using pointerUpDouble_phase(2,3) [OF refs(2)]
      by (cases "commitsOnReleaseDouble s") simp_all
  qed
  have F: "phase (handleCoverPointerUpDouble s) \<noteq> Revealed \<longrightarrow>
        phase (handleCoverPointerUpDouble s) = Idle
        \<and> tearPath (handleCoverPointerUpDouble s) = []
        \<and> tearProgress (handleCoverPointerUpDouble s) = 0
        \<and> completedTear (handleCoverPointerUpDouble s) = None"
    using pointerUpDouble_phase(2,3) [OF refs(2)] refs(3)
    by (cases "commitsOnReleaseDouble s") simp_all
  have G: "phase (handleCoverPointerUpDouble (handleCoverPointerMoveDouble el cx cy s)) = Idle
        \<and> tearPath (handleCoverPointerUpDouble (handleCoverPointerMoveDouble el cx cy s)) = []
        \<and> tearProgress (handleCoverPointerUpDouble (handleCoverPointerMoveDouble el cx cy s)) = 0
        \<and> completedTear (handleCoverPointerUpDouble (handleCoverPointerMoveDouble el cx cy s))
            = None"
    if h: "el = Some c" "0 < coverDiagonal el" "dragStartRef s = Some start"
      "totalDist start cx cy = 0.5 * requiredDist el"
  proof -
    let ?s1 = "handleCoverPointerMoveDouble el cx cy s"
    have lt: "dragProgressDouble el start cx cy < fl 0.6"
      by (rule half_drag_double [OF h(2,4)])
    have f6: "fl 0.6 < 0.75" "fl 0.6 < fl 0.85" unfolding fl_06 fl_085 by simp_all
    have prog: "tearProgress ?s1 = dragProgressDouble el start cx cy"
      by (rule pointerMoveDouble_progress(1) [OF refs(1,2) h(3) refs(5) h(1)])
    have nrev: "\<not> isRevealed ?s1"
      using pointerMoveDouble_progress(3) [OF refs(1,2) h(3) refs(5) h(1), of cx cy] lt f6(1)
      by simp
    have none: "completedTear ?s1 = None"
      using pointerMoveDouble_progress(2) [OF refs(1,2) h(3) refs(5) h(1) refs(3) nrev] .
    have "\<not> commitsOnReleaseDouble ?s1"
      using lt f6(2) by (simp add: commitsOnReleaseDouble_def prog)
    then show ?thesis using pointerUpDouble_phase(3) [OF nrev] none by simp
  qed
  have G': "el = Some c \<and> 0 < coverDiagonal el \<and> dragStartRef s = Some start
        \<and> totalDist start cx cy = 0.5 * requiredDist el \<longrightarrow>
        phase (handleCoverPointerUpDouble (handleCoverPointerMoveDouble el cx cy s)) = Idle
        \<and> tearPath (handleCoverPointerUpDouble (handleCoverPointerMoveDouble el cx cy s)) = []
        \<and> tearProgress (handleCoverPointerUpDouble (handleCoverPointerMoveDouble el cx cy s)) = 0
        \<and> completedTear (handleCoverPointerUpDouble (handleCoverPointerMoveDouble el cx cy s))
            = None"
    using G by (intro impI) (elim conjE)
  have H: "phase (handleCoverPointerUpDouble (handleCoverPointerMoveDouble el cx cy s)) = Revealed"
    if h: "el = Some c" "0 < coverDiagonal el" "dragStartRef s = Some start"
      "(0.85 + 1 / 10 ^ 15) * requiredDist el \<le> totalDist start cx cy"
  proof (cases "isRevealed (handleCoverPointerMoveDouble el cx cy s)")
    case True
    then show ?thesis by (rule pointerUpDouble_phase(1))
  next
    case False
    have "fl 0.85 \<le> dragProgressDouble el start cx cy"
      by (rule margin_drag_double [OF h(2,4)])
    then have "commitsOnReleaseDouble (handleCoverPointerMoveDouble el cx cy s)"
      by (simp only: commitsOnReleaseDouble_def
          pointerMoveDouble_progress(1) [OF refs(1,2) h(3) refs(5) h(1)] simp_thms)
    then show ?thesis by (rule pointerUpDouble_phase(2) [OF False])
  qed
  have H': "el = Some c \<and> 0 < coverDiagonal el \<and> dragStartRef s = Some start
        \<and> (0.85 + 1 / 10 ^ 15) * requiredDist el \<le> totalDist start cx cy \<longrightarrow>
        phase (handleCoverPointerUpDouble (handleCoverPointerMoveDouble el cx cy s)) = Revealed"
    using H by (intro impI) (elim conjE)
  show ?thesis
    by (rule conjI [OF refs(5) conjI [OF A conjI [OF B conjI [OF D' conjI [OF E conjI [OF F
          conjI [OF G' H']]]]]]])
qed


lemma exampleCover_diagonal: "coverDiagonal exampleCover = 500"
proof -
  have "sqrt ((300::real)\<^sup>2 + 400\<^sup>2) = 500"
    by (rule real_sqrt_unique) simp_all
  then show ?thesis by (simp add: coverDiagonal_def exampleCover_def)
qed

lemma exampleCover_down:
  "run exampleCover [PointerDown 20 20] (initialState False)
     = \<lparr>isRevealed = False, isDragging = True, tearProgress = 0,
        tearPath = [\<lparr>tx = 1 / 15, ty = 1 / 20\<rparr>], completedTear = None,
        dragStartRef = Some (20, 20), lastPointRef = Some \<lparr>tx = 1 / 15, ty = 1 / 20\<rparr>,
        isMobileRef = False, onRevealedCalls = 0\<rparr>"
  by (simp add: initialState_def handleCoverPointerDown_def getNormalizedPos_def exampleCover_def)

lemma totalDist_345: "0 \<le> k \<Longrightarrow> totalDist (a, b) (a + 3 * k) (b + 4 * k) = 5 * k"
proof -
  assume k: "0 \<le> k"
  have "sqrt (3 * k * (3 * k) + 4 * k * (4 * k)) = 5 * k"
    by (rule real_sqrt_unique) (use k in \<open>simp_all add: power2_eq_square algebra_simps\<close>)
  then show ?thesis by (simp add: totalDist_def Let_def)
qed

theorem release_commit_thresholds_witness:
  "phase (run exampleCover [PointerDown 20 20] (initialState False)) = Dragging
   \<and> lastPointRef (run exampleCover [PointerDown 20 20] (initialState False))
       = Some \<lparr>tx = 1 / 15, ty = 1 / 20\<rparr>
   \<and> tearProgress (run exampleCover [PointerDown 20 20] (initialState False)) = 0
   \<and> phase (run exampleCover [PointerDown 20 20, PointerUp] (initialState False)) = Idle
   \<and> completedTear (run exampleCover [PointerDown 20 20, PointerUp] (initialState False)) = None
   \<and> phase (handleCoverPointerUpDouble
        (run exampleCover [PointerDown 20 20] (initialState False))) = Idle
   \<and> phase (run exampleCover [PointerDown 20 20, PointerMove 249.5 326] (initialState False))
       = Dragging
   \<and> tearProgress (run exampleCover [PointerDown 20 20, PointerMove 249.5 326]
        (initialState False)) = 0.9
   \<and> phase (run exampleCover [PointerDown 20 20, PointerMove 249.5 326, PointerUp]
        (initialState False)) = Revealed
   \<and> 0 < coverDiagonal exampleCover
   \<and> totalDist (20, 20) 147.5 190 = 0.5 * requiredDist exampleCover
   \<and> phase (run exampleCover [PointerDown 20 20, PointerMove 147.5 190, PointerUp]
        (initialState False)) = Idle
   \<and> tearPath (run exampleCover [PointerDown 20 20, PointerMove 147.5 190, PointerUp]
        (initialState False)) = []
   \<and> tearProgress (run exampleCover [PointerDown 20 20, PointerMove 147.5 190, PointerUp]
        (initialState False)) = 0
   \<and> completedTear (run exampleCover [PointerDown 20 20, PointerMove 147.5 190, PointerUp]
        (initialState False)) = None
   \<and> phase (handleCoverPointerUpDouble (handleCoverPointerMoveDouble exampleCover 147.5 190
        (run exampleCover [PointerDown 20 20] (initialState False)))) = Idle
   \<and> (0.85 + 1 / 10 ^ 15) * requiredDist exampleCover \<le> totalDist (20, 20) 249.5 326
   \<and> phase (handleCoverPointerUpDouble (handleCoverPointerMoveDouble exampleCover 249.5 326
        (run exampleCover [PointerDown 20 20] (initialState False)))) = Revealed"
proof -
  let ?s = "run exampleCover [PointerDown 20 20] (initialState False)"
  let ?m = "run exampleCover [PointerDown 20 20, PointerMove 249.5 326] (initialState False)"
  have drag: "phase ?s = Dragging"
    unfolding exampleCover_down by (simp add: phase_def)
  have start: "dragStartRef ?s = Some (20, 20)"
    unfolding exampleCover_down by simp
  have el: "exampleCover = Some \<lparr>rectLeft = 0, rectTop = 0, rectWidth = 300, rectHeight = 400,
                          offsetWidth = 300, offsetHeight = 400\<rparr>"
    by (simp add: exampleCover_def)
  have diag: "0 < coverDiagonal exampleCover"
    by (simp add: exampleCover_diagonal)
  have d50: "totalDist (20, 20) 147.5 190 = 0.5 * requiredDist exampleCover"
    using totalDist_345 [of "42.5" 20 20] by (simp add: requiredDist_def exampleCover_diagonal)
  have d90: "(0.85 + 1 / 10 ^ 15) * requiredDist exampleCover \<le> totalDist (20, 20) 249.5 326"
    using totalDist_345 [of "76.5" 20 20] by (simp add: requiredDist_def exampleCover_diagonal)
  have r50: "phase (handleCoverPointerUp (handleCoverPointerMove exampleCover 147.5 190 ?s)) = Idle
        \<and> tearPath (handleCoverPointerUp (handleCoverPointerMove exampleCover 147.5 190 ?s)) = []
        \<and> tearProgress (handleCoverPointerUp (handleCoverPointerMove exampleCover 147.5 190 ?s)) = 0
        \<and> completedTear (handleCoverPointerUp (handleCoverPointerMove exampleCover 147.5 190 ?s)) = None"
    using release_commit_thresholds [OF refl drag] el diag start d50 by blast
  have r50d: "phase (handleCoverPointerUpDouble
        (handleCoverPointerMoveDouble exampleCover 147.5 190 ?s)) = Idle"
    using release_commit_thresholds [OF refl drag] el diag start d50 by blast
  have r90d: "phase (handleCoverPointerUpDouble
        (handleCoverPointerMoveDouble exampleCover 249.5 326 ?s)) = Revealed"
    using release_commit_thresholds [OF refl drag] el diag start d90 by blast
  have lp: "lastPointRef ?s = Some \<lparr>tx = 1 / 15, ty = 1 / 20\<rparr>"
    unfolding exampleCover_down by simp
  have tp: "tearProgress ?s = 0"
    unfolding exampleCover_down by simp
  have nr: "phase (handleCoverPointerUp ?s) \<noteq> Revealed"
    using release_commit_thresholds [OF refl drag, where p = "\<lparr>tx = 1 / 15, ty = 1 / 20\<rparr>"] lp tp
    by simp
  have r0: "phase (handleCoverPointerUp ?s) = Idle \<and> completedTear (handleCoverPointerUp ?s) = None"
    using release_commit_thresholds [OF refl drag] nr by blast
  have f: "0 < fl 0.85" "0 < fl 0.6" unfolding fl_085 fl_06 by simp_all
  have nrd: "phase (handleCoverPointerUpDouble ?s) \<noteq> Revealed"
    using release_commit_thresholds [OF refl drag, where p = "\<lparr>tx = 1 / 15, ty = 1 / 20\<rparr>"] lp tp f
    by simp
  have r0d: "phase (handleCoverPointerUpDouble ?s) = Idle"
    using release_commit_thresholds [OF refl drag] nrd by blast
  have m: "?m = handleCoverPointerMove exampleCover 249.5 326 ?s"
    by simp
  have sd: "isDragging ?s" "\<not> isRevealed ?s" "lastPointRef ?s \<noteq> None"
    unfolding exampleCover_down by simp_all
  have p90: "dragProgress exampleCover (20, 20) 249.5 326 = 0.9"
    using totalDist_345 [of "76.5" 20 20]
    by (simp add: dragProgress_def requiredDist_def exampleCover_diagonal)
  have p90': "dragProgress exampleCover (20, 20) (499 / 2) 326 = 9 / 10"
    using p90 by simp
  have pos90: "getNormalizedPos exampleCover (499 / 2) 326
                 = Some \<lparr>tx = 499 / 600, ty = 163 / 200\<rparr>"
    by (simp add: getNormalizedPos_def exampleCover_def)
  have t90: "tearProgress ?m = 0.9"
    unfolding m using pointerMove_progress(1) [OF sd(1,2) start sd(3) el] p90 by simp
  have nrev90: "\<not> isRevealed ?m"
    unfolding m using pointerMove_progress(3) [OF sd(1,2) start sd(3) el, of "249.5" 326]
    by (simp add: p90' pos90)
  have refs90: "isDragging ?m \<and> lastPointRef ?m \<noteq> None"
    using pointerMove_progress(4) [OF sd(1,2) start sd(3) el, of "249.5" 326] nrev90
    unfolding m by blast
  have drag90: "phase ?m = Dragging"
    using nrev90 refs90 by (simp add: phase_def)
  obtain q where q: "lastPointRef ?m = Some q"
    using refs90 by blast
  have r90: "phase (handleCoverPointerUp ?m) = Revealed"
    using release_commit_thresholds [OF refl drag90, where p = q] q t90 by simp
  have "run exampleCover [PointerDown 20 20, PointerMove 249.5 326, PointerUp] (initialState False)
          = handleCoverPointerUp ?m"
    by simp
  then show ?thesis
    using drag lp tp r0 r0d drag90 t90 r90 diag d50 r50 r50d d90 r90d by simp
qed

theorem revealed_terminal_witness:
  "phase (run exampleCover [Tap] (initialState True)) = Revealed
   \<and> run exampleCover ([Tap] @ [PointerDown 20 20, PointerMove 236.75 309, PointerUp, Tap])
         (initialState True)
       = run exampleCover [Tap] (initialState True)
   \<and> onRevealedCalls (run exampleCover
         ([Tap] @ [PointerDown 20 20, PointerMove 236.75 309, PointerUp, Tap])
         (initialState True)) = 1
   \<and> phase (initialState True) \<noteq> Revealed
   \<and> onRevealedCalls (handle exampleCover Tap (initialState True)) = 1"
proof -
  have rev: "phase (run exampleCover [Tap] (initialState True)) = Revealed"
    by (simp add: handleTapOpen_def initialState_def Let_def phase_def)
  have idle: "phase (initialState True) \<noteq> Revealed"
    by (simp add: initialState_def phase_def)
  have "onRevealedCalls (initialState True) = 0"
    by (simp add: initialState_def)
  then show ?thesis
    using revealed_terminal [of exampleCover "[Tap]" True
        "[PointerDown 20 20, PointerMove 236.75 309, PointerUp, Tap]" "initialState True" Tap]
      rev idle
    by simp
qed

subsection \<open>The progress of an exactly 85% drag in double precision\<close>

lemma fl_sqrt_800000: "fl (sqrt 800000) = 7867464773627462 / 2 ^ 43"
proof -
  have lo: "(real_of_int 7867464773627462 - 1 / 2) / 2 ^ 43 < sqrt (800000::real)"
    by (rule real_less_rsqrt) (simp add: power_divide)
  have hi: "sqrt (800000::real) < (real_of_int 7867464773627462 + 1 / 2) / 2 ^ 43"
    by (rule real_less_lsqrt) (simp_all add: power_divide)
  show ?thesis
    using fl_dyadic [OF _ _ lo hi] by simp
qed

lemma fl_sqrt_417605: "fl (sqrt 417605) = 5684243298945841 / 2 ^ 43"
proof -
  have lo: "(real_of_int 5684243298945841 - 1 / 2) / 2 ^ 43 < sqrt (417605::real)"
    by (rule real_less_rsqrt) (simp add: power_divide)
  have hi: "sqrt (417605::real) < (real_of_int 5684243298945841 + 1 / 2) / 2 ^ 43"
    by (rule real_less_lsqrt) (simp_all add: power_divide)
  show ?thesis
    using fl_dyadic [OF _ _ lo hi] by simp
qed

lemma fl_integers:
  "fl 160000 = 160000" "fl 640000 = 640000" "fl 800000 = 800000"
  "fl 289 = 289" "fl 578 = 578" "fl 83521 = 83521" "fl 334084 = 334084" "fl 417605 = 417605"
proof -
  show "fl 160000 = 160000"
    by (rule fl_exact [where m = "160000 * 2 ^ 35" and k = 35]) simp_all
  show "fl 640000 = 640000"
    by (rule fl_exact [where m = "640000 * 2 ^ 33" and k = 33]) simp_all
  show "fl 800000 = 800000"
    by (rule fl_exact [where m = "800000 * 2 ^ 33" and k = 33]) simp_all
  show "fl 289 = 289"
    by (rule fl_exact [where m = "289 * 2 ^ 44" and k = 44]) simp_all
  show "fl 578 = 578"
    by (rule fl_exact [where m = "578 * 2 ^ 43" and k = 43]) simp_all
  show "fl 83521 = 83521"
    by (rule fl_exact [where m = "83521 * 2 ^ 36" and k = 36]) simp_all
  show "fl 334084 = 334084"
    by (rule fl_exact [where m = "334084 * 2 ^ 34" and k = 34]) simp_all
  show "fl 417605 = 417605"
    by (rule fl_exact [where m = "417605 * 2 ^ 34" and k = 34]) simp_all
qed

lemma tallCover_diagonalDouble: "coverDiagonalDouble tallCover = 7867464773627462 / 2 ^ 43"
  by (simp add: coverDiagonalDouble_def tallCover_def fl_integers fl_sqrt_800000)

lemma tallCover_requiredDistDouble: "requiredDistDouble tallCover = 6687345057583343 / 2 ^ 43"
proof -
  have "fl (7867464773627462 / 2 ^ 43 * (7656119366529843 / 2 ^ 53))
          = real_of_int 6687345057583343 / 2 ^ 43"
    by (rule fl_dyadic) simp_all
  then show ?thesis
    unfolding requiredDistDouble_def tallCover_diagonalDouble fl_085 by simp
qed

lemma tallCover_totalDistDouble: "totalDistDouble (0, 0) 289 578 = 5684243298945841 / 2 ^ 43"
  by (simp add: totalDistDouble_def Let_def fl_integers fl_sqrt_417605)

lemma tallCover_progressDouble:
  "dragProgressDouble tallCover (0, 0) 289 578 = 7656119366529842 / 2 ^ 53"
proof -
  have "fl (totalDistDouble (0, 0) 289 578 / requiredDistDouble tallCover)
          = real_of_int 7656119366529842 / 2 ^ 53"
    unfolding tallCover_totalDistDouble tallCover_requiredDistDouble
    by (rule fl_dyadic) simp_all
  then show ?thesis
    by (simp add: dragProgressDouble_def)
qed


lemma tallCover_exact_85:
  "totalDist (0, 0) 289 578 = 0.85 * requiredDist tallCover"
proof -
  have "(289 * sqrt 800000 / 400)\<^sup>2 = (289 / 400)\<^sup>2 * (sqrt 800000)\<^sup>2"
    by (simp add: power_mult_distrib power_divide)
  also have "\<dots> = (417605::real)"
    by (simp add: power_divide)
  finally have sq: "(289 * sqrt 800000 / 400)\<^sup>2 = (417605::real)" .
  have "sqrt (417605::real) = 289 * sqrt 800000 / 400"
    by (rule real_sqrt_unique) (simp_all add: sq)
  then show ?thesis
    by (simp add: totalDist_def requiredDist_def coverDiagonal_def tallCover_def Let_def)
qed

lemma tallCover_down:
  "handleCoverPointerDown tallCover 0 0 (initialState False)
     = \<lparr>isRevealed = False, isDragging = True, tearProgress = 0,
        tearPath = [\<lparr>tx = 0, ty = 0\<rparr>], completedTear = None,
        dragStartRef = Some (0, 0), lastPointRef = Some \<lparr>tx = 0, ty = 0\<rparr>,
        isMobileRef = False, onRevealedCalls = 0\<rparr>"
  by (simp add: initialState_def handleCoverPointerDown_def getNormalizedPos_def tallCover_def)

lemma tallCover_moveDouble:
  "handleCoverPointerMoveDouble tallCover 289 578
     (handleCoverPointerDown tallCover 0 0 (initialState False))
     = \<lparr>isRevealed = False, isDragging = True, tearProgress = 7656119366529842 / 2 ^ 53,
        tearPath = [\<lparr>tx = 0, ty = 0\<rparr>, \<lparr>tx = 0.7225, ty = 0.7225\<rparr>], completedTear = None,
        dragStartRef = Some (0, 0), lastPointRef = Some \<lparr>tx = 0.7225, ty = 0.7225\<rparr>,
        isMobileRef = False, onRevealedCalls = 0\<rparr>"
proof -
  have pos: "getNormalizedPos tallCover 289 578 = Some \<lparr>tx = 0.7225, ty = 0.7225\<rparr>"
    by (simp add: getNormalizedPos_def tallCover_def)
  have dist: "0.012 < sqrt ((0.7225::real) * 0.7225 + 0.7225 * 0.7225)"
    by (rule real_less_rsqrt) (simp add: power2_eq_square)
  show ?thesis
    unfolding tallCover_down
    using dist
    by (simp add: handleCoverPointerMoveDouble_def pos tallCover_progressDouble Let_def)
qed

text \<open>
  Claim C2 as stated fails where it says that a drag reaching exactly 85% of the
  required distance, with no edge proximity, commits. On a cover of 400 by 800 pixels
  the drag from \<open>(0, 0)\<close> to \<open>(289, 578)\<close> is exactly 85% of the required distance
  (the exact progress is \<open>0.85\<close>), and the progress that the code computes in doubles
  is \<open>7656119366529842 / 2^53\<close>, that is \<open>0.8499999999999999\<close>, one unit in the last
  place below the double \<open>0.85\<close>. The last recorded point \<open>(0.7225, 0.7225)\<close> is not
  near an edge, so the release goes to \<open>Idle\<close>.
\<close>

theorem exact_85_percent_drag_snaps_back:
  "totalDist (0, 0) 289 578 = 0.85 * requiredDist tallCover
   \<and> dragProgress tallCover (0, 0) 289 578 = 0.85
   \<and> dragProgressDouble tallCover (0, 0) 289 578 = 7656119366529842 / 2 ^ 53
   \<and> fl 0.85 = 7656119366529843 / 2 ^ 53
   \<and> dragProgressDouble tallCover (0, 0) 289 578 < fl 0.85
   \<and> handleCoverPointerMoveDouble tallCover 289 578
        (handleCoverPointerDown tallCover 0 0 (initialState False))
       = \<lparr>isRevealed = False, isDragging = True, tearProgress = 7656119366529842 / 2 ^ 53,
          tearPath = [\<lparr>tx = 0, ty = 0\<rparr>, \<lparr>tx = 0.7225, ty = 0.7225\<rparr>],
          completedTear = None, dragStartRef = Some (0, 0),
          lastPointRef = Some \<lparr>tx = 0.7225, ty = 0.7225\<rparr>,
          isMobileRef = False, onRevealedCalls = 0\<rparr>
   \<and> phase (handleCoverPointerMoveDouble tallCover 289 578
        (handleCoverPointerDown tallCover 0 0 (initialState False))) = Dragging
   \<and> phase (handleCoverPointerUpDouble (handleCoverPointerMoveDouble tallCover 289 578
        (handleCoverPointerDown tallCover 0 0 (initialState False)))) = Idle
   \<and> phase (handleCoverPointerUp (handleCoverPointerMoveDouble tallCover 289 578
        (handleCoverPointerDown tallCover 0 0 (initialState False)))) = Idle"
proof -
  have "0 < requiredDist tallCover"
    by (simp add: requiredDist_def coverDiagonal_def tallCover_def)
  then have prog: "dragProgress tallCover (0, 0) 289 578 = 0.85"
    by (simp add: dragProgress_def tallCover_exact_85)
  have lt: "dragProgressDouble tallCover (0, 0) 289 578 < fl 0.85"
    unfolding tallCover_progressDouble fl_085 by simp
  have ph: "phase (handleCoverPointerMoveDouble tallCover 289 578
        (handleCoverPointerDown tallCover 0 0 (initialState False))) = Dragging"
    unfolding tallCover_moveDouble by (simp add: phase_def)
  have up: "phase (handleCoverPointerUpDouble (handleCoverPointerMoveDouble tallCover 289 578
        (handleCoverPointerDown tallCover 0 0 (initialState False)))) = Idle"
  proof -
    have nc: "\<not> commitsOnReleaseDouble (handleCoverPointerMoveDouble tallCover 289 578
        (handleCoverPointerDown tallCover 0 0 (initialState False)))"
      unfolding tallCover_moveDouble commitsOnReleaseDouble_def fl_085 fl_06
      by (simp add: nearEdgeAtRelease_def)
    have nrev: "\<not> isRevealed (handleCoverPointerMoveDouble tallCover 289 578
        (handleCoverPointerDown tallCover 0 0 (initialState False)))"
      unfolding tallCover_moveDouble by simp
    show ?thesis
      using pointerUpDouble_phase(3) [OF nrev nc] by (rule conjunct1)
  qed
  have up': "phase (handleCoverPointerUp (handleCoverPointerMoveDouble tallCover 289 578
        (handleCoverPointerDown tallCover 0 0 (initialState False)))) = Idle"
    unfolding tallCover_moveDouble
    by (simp add: phase_def handleCoverPointerUp_def commitsOnRelease_def
        nearEdgeAtRelease_def Let_def)
  show ?thesis
    by (rule conjI [OF tallCover_exact_85 conjI [OF prog conjI [OF tallCover_progressDouble
          conjI [OF fl_085 conjI [OF lt conjI [OF tallCover_moveDouble
          conjI [OF ph conjI [OF up up']]]]]]]])
qed

subsection \<open>Progress of a drag\<close>

text \<open>
  Claim C6. For a surface of positive diagonal, the progress computed by a pointer-move
  is the straight-line distance from the drag start to the pointer, divided by 85% of
  the diagonal, capped at \<open>1\<close>. It lies in \<open>[0, 1]\<close>, it is monotone in that distance,
  and of two successive pointer-moves of a drag, the second farther from the start than
  the first, the second leaves a progress at least as large.
\<close>

theorem drag_progress_monotone:
  assumes "0 < coverDiagonal el"
  shows "dragProgress el start cx cy
           = min (sqrt ((cx - fst start)\<^sup>2 + (cy - snd start)\<^sup>2) / (0.85 * coverDiagonal el)) 1
   \<and> 0 \<le> dragProgress el start cx cy \<and> dragProgress el start cx cy \<le> 1
   \<and> (totalDist start cx cy \<le> totalDist start cx' cy'
        \<longrightarrow> dragProgress el start cx cy \<le> dragProgress el start cx' cy')
   \<and> (s = run el es (initialState mobile) \<and> phase s = Dragging \<and> el = Some c
        \<and> dragStartRef s = Some start
        \<longrightarrow> tearProgress (handleCoverPointerMove el cx cy s) = dragProgress el start cx cy
          \<and> (totalDist start cx cy < totalDist start cx' cy'
               \<longrightarrow> tearProgress (handleCoverPointerMove el cx cy s)
                   \<le> tearProgress (handleCoverPointerMove el cx' cy'
                         (handleCoverPointerMove el cx cy s))))"
proof -
  have formula: "dragProgress el start cx cy
           = min (sqrt ((cx - fst start)\<^sup>2 + (cy - snd start)\<^sup>2) / (0.85 * coverDiagonal el)) 1"
    by (simp add: dragProgress_def requiredDist_def totalDist_def Let_def power2_eq_square
        mult.commute)
  have bounds: "0 \<le> dragProgress el start cx cy \<and> dragProgress el start cx cy \<le> 1"
    using assms by (rule dragProgress_bounds)
  have mono: "totalDist start cx cy \<le> totalDist start cx' cy'
        \<longrightarrow> dragProgress el start cx cy \<le> dragProgress el start cx' cy'"
    using dragProgress_mono [OF assms] by blast
  have events: "s = run el es (initialState mobile) \<and> phase s = Dragging \<and> el = Some c
        \<and> dragStartRef s = Some start
        \<longrightarrow> tearProgress (handleCoverPointerMove el cx cy s) = dragProgress el start cx cy
          \<and> (totalDist start cx cy < totalDist start cx' cy'
               \<longrightarrow> tearProgress (handleCoverPointerMove el cx cy s)
                   \<le> tearProgress (handleCoverPointerMove el cx' cy'
                         (handleCoverPointerMove el cx cy s)))"
  proof (intro impI, elim conjE)
    assume reach: "s = run el es (initialState mobile)" and drag: "phase s = Dragging"
      and el: "el = Some c" and start: "dragStartRef s = Some start"
    let ?s1 = "handleCoverPointerMove el cx cy s"
    have inv: "sessionInvariant s"
      unfolding reach by (rule reachable_invariant)
    have refs: "isDragging s" "\<not> isRevealed s" "lastPointRef s \<noteq> None"
      using dragging_refs [OF inv drag] by simp_all
    have p1: "tearProgress ?s1 = dragProgress el start cx cy"
      using pointerMove_progress(1) [OF refs(1,2) start refs(3) el] .
    have p2: "tearProgress ?s1 \<le> tearProgress (handleCoverPointerMove el cx' cy' ?s1)"
      if far: "totalDist start cx cy < totalDist start cx' cy'"
    proof (cases "isRevealed ?s1")
      case True
      then show ?thesis by (simp add: handleCoverPointerMove_def)
    next
      case False
      have next_refs: "isDragging ?s1 \<and> dragStartRef ?s1 = Some start \<and> lastPointRef ?s1 \<noteq> None"
        using pointerMove_progress(4) [OF refs(1,2) start refs(3) el False] .
      have "tearProgress (handleCoverPointerMove el cx' cy' ?s1) = dragProgress el start cx' cy'"
        using pointerMove_progress(1) [OF _ False _ _ el, of start cx' cy'] next_refs by blast
      then show ?thesis
        using p1 dragProgress_mono [OF assms, of start cx cy cx' cy'] far by simp
    qed
    show "tearProgress ?s1 = dragProgress el start cx cy
          \<and> (totalDist start cx cy < totalDist start cx' cy'
               \<longrightarrow> tearProgress ?s1 \<le> tearProgress (handleCoverPointerMove el cx' cy' ?s1))"
      using p1 p2 by blast
  qed
  show ?thesis
    by (rule conjI [OF formula conjI [OF conjunct1 [OF bounds] conjI [OF conjunct2 [OF bounds]
          conjI [OF mono events]]]])
qed

theorem drag_progress_monotone_witness:
  "0 < coverDiagonal exampleCover
   \<and> phase (run exampleCover [PointerDown 20 20] (initialState False)) = Dragging
   \<and> totalDist (20, 20) 50 60 < totalDist (20, 20) 80 100
   \<and> dragProgress exampleCover (20, 20) 50 60 = 2 / 17
   \<and> dragProgress exampleCover (20, 20) 80 100 = 4 / 17
   \<and> tearProgress (run exampleCover [PointerDown 20 20, PointerMove 50 60] (initialState False))
       = 2 / 17
   \<and> tearProgress (run exampleCover [PointerDown 20 20, PointerMove 50 60] (initialState False))
       \<le> tearProgress (run exampleCover [PointerDown 20 20, PointerMove 50 60, PointerMove 80 100]
            (initialState False))"
proof -
  let ?s = "run exampleCover [PointerDown 20 20] (initialState False)"
  have drag: "phase ?s = Dragging"
    unfolding exampleCover_down by (simp add: phase_def)
  have start: "dragStartRef ?s = Some (20, 20)"
    unfolding exampleCover_down by simp
  have el: "exampleCover = Some \<lparr>rectLeft = 0, rectTop = 0, rectWidth = 300, rectHeight = 400,
                          offsetWidth = 300, offsetHeight = 400\<rparr>"
    by (simp add: exampleCover_def)
  have diag: "0 < coverDiagonal exampleCover"
    by (simp add: exampleCover_diagonal)
  have d1: "totalDist (20, 20) 50 60 = 50"
    using totalDist_345 [of 10 20 20] by simp
  have d2: "totalDist (20, 20) 80 100 = 100"
    using totalDist_345 [of 20 20 20] by simp
  have far: "totalDist (20, 20) 50 60 < totalDist (20, 20) 80 100"
    by (simp add: d1 d2)
  have v1: "dragProgress exampleCover (20, 20) 50 60 = 2 / 17"
    by (simp add: dragProgress_def requiredDist_def exampleCover_diagonal d1)
  have v2: "dragProgress exampleCover (20, 20) 80 100 = 4 / 17"
    by (simp add: dragProgress_def requiredDist_def exampleCover_diagonal d2)
  have "tearProgress (handleCoverPointerMove exampleCover 50 60 ?s)
           = dragProgress exampleCover (20, 20) 50 60
        \<and> tearProgress (handleCoverPointerMove exampleCover 50 60 ?s)
           \<le> tearProgress (handleCoverPointerMove exampleCover 80 100
                (handleCoverPointerMove exampleCover 50 60 ?s))"
    using drag_progress_monotone [OF diag, where s = ?s and es = "[PointerDown 20 20]"
          and mobile = False and start = "(20, 20)" and cx = 50 and cy = 60
          and cx' = 80 and cy' = 100]
      drag el start far by blast
  then show ?thesis
    using diag drag far v1 v2 by simp
qed

section \<open>Properties of the chained jagged path\<close>

declare chainLoop.simps [simp del]

lemma chainLoop_from:
  "0 < i \<Longrightarrow> chainLoop source progress i acc
     = acc @ concat (map (\<lambda>k. drop 1 (segmentEdge source progress k)) [i..<length source - 1])"
proof (induction source progress i acc rule: chainLoop.induct)
  case (1 source progress i acc)
  show ?case
  proof (cases "int i < int (length source) - 1")
    case True
    then have lt: "i < length source - 1" by linarith
    have "chainLoop source progress i acc
            = chainLoop source progress (i + 1) (acc @ drop 1 (segmentEdge source progress i))"
      using True "1.prems" by (subst chainLoop.simps) (simp add: Let_def)
    also have "\<dots> = (acc @ drop 1 (segmentEdge source progress i))
            @ concat (map (\<lambda>k. drop 1 (segmentEdge source progress k)) [i + 1..<length source - 1])"
      using "1.IH" [OF True refl] "1.prems" by simp
    also have "\<dots> = acc @ concat (map (\<lambda>k. drop 1 (segmentEdge source progress k))
                              [i..<length source - 1])"
      using lt by (simp add: upt_conv_Cons)
    finally show ?thesis .
  next
    case False
    then have "length source - 1 \<le> i" by linarith
    then show ?thesis using False by (subst chainLoop.simps) simp
  qed
qed

lemma chainLoop_start:
  assumes "2 \<le> length source"
  shows "chainLoop source progress 0 []
     = segmentEdge source progress 0
       @ concat (map (\<lambda>k. drop 1 (segmentEdge source progress k)) [1..<length source - 1])"
proof -
  have "chainLoop source progress 0 [] = chainLoop source progress 1 (segmentEdge source progress 0)"
    using assms by (subst chainLoop.simps) (simp add: Let_def)
  then show ?thesis by (simp add: chainLoop_from)
qed

lemma nth_concat_uniform:
  "\<forall>xs \<in> set xss. length xs = c \<Longrightarrow> m < length xss \<Longrightarrow> j < c
     \<Longrightarrow> concat xss ! (c * m + j) = xss ! m ! j"
proof (induction xss arbitrary: m)
  case Nil
  then show ?case by simp
next
  case (Cons xs xss)
  show ?case
  proof (cases m)
    case 0
    then show ?thesis using Cons.prems by (simp add: nth_append)
  next
    case (Suc m')
    have "c * m + j = length xs + (c * m' + j)"
      using Cons.prems(1) Suc by simp
    then have "concat (xs # xss) ! (c * m + j) = concat xss ! (c * m' + j)"
      by (simp add: nth_append)
    then show ?thesis
      using Cons.IH [of m'] Cons.prems Suc by simp
  qed
qed

lemma length_concat_uniform:
  "\<forall>xs \<in> set xss. length xs = c \<Longrightarrow> length (concat xss) = c * length xss"
  by (induction xss) simp_all


lemma segmentEdge_split:
  "segmentEdge source progress k
     = source ! k # segmentInterior source progress k @ [source ! (k + 1)]"
  by (simp add: segmentEdge_def segmentInterior_def generateJaggedEdge_split)

lemma segmentInterior_length: "length (segmentInterior source progress k) = 3"
  by (simp add: segmentInterior_def jaggedInterior_length)

lemma chainLoop_uniform:
  assumes "2 \<le> length source"
  shows "chainLoop source progress 0 []
     = source ! 0 # concat (map (\<lambda>k. segmentInterior source progress k @ [source ! (k + 1)])
                        [0..<length source - 1])"
proof -
  have tl: "drop 1 (segmentEdge source progress k)
              = segmentInterior source progress k @ [source ! (k + 1)]" for k
    by (simp add: segmentEdge_split)
  have "[0..<length source - 1] = 0 # [1..<length source - 1]"
    using assms by (simp add: upt_conv_Cons)
  then show ?thesis
    using chainLoop_start [OF assms, of progress]
    by (simp add: tl segmentEdge_split)
qed

text \<open>
  Claim C8. When the jagged path is chained over the consecutive segments of a source
  path, the edge of the first segment is taken whole and the edge of every later segment
  without its first point. So the chained path has \<open>4 * segments + 1\<close> points: source
  point \<open>k\<close> stands once, at index \<open>4 * k\<close>, and the three indices after it hold
  the interior points of segment \<open>k\<close>; no boundary vertex is followed by a copy of
  itself from the next segment.
\<close>

theorem chained_path_shares_boundary_vertices:
  assumes "2 \<le> length source"
  shows "jaggedTearPoints source None progress = chainLoop source progress 0 []
   \<and> jaggedTearPoints path (Some source) progress = chainLoop source progress 0 []
   \<and> chainLoop source progress 0 []
       = segmentEdge source progress 0
         @ concat (map (\<lambda>i. drop 1 (segmentEdge source progress i)) [1..<length source - 1])
   \<and> length (chainLoop source progress 0 []) = 4 * (length source - 1) + 1
   \<and> (\<forall>k < length source. chainLoop source progress 0 [] ! (4 * k) = source ! k)
   \<and> (\<forall>k < length source - 1. \<forall>j < 3.
         chainLoop source progress 0 [] ! (4 * k + 1 + j) = segmentInterior source progress k ! j)"
proof -
  let ?seg = "\<lambda>k. segmentInterior source progress k @ [source ! (k + 1)]"
  let ?segs = "map ?seg [0..<length source - 1]"
  let ?chain = "chainLoop source progress 0 []"
  have uni: "\<forall>xs \<in> set ?segs. length xs = 4"
    by (auto simp: segmentInterior_length)
  have chain: "?chain = source ! 0 # concat ?segs"
    using assms by (rule chainLoop_uniform)
  have A: "jaggedTearPoints source None progress = ?chain"
    using assms by (simp add: jaggedTearPoints_def)
  have B: "jaggedTearPoints path (Some source) progress = ?chain"
    using assms by (simp add: jaggedTearPoints_def)
  have C: "?chain = segmentEdge source progress 0
         @ concat (map (\<lambda>i. drop 1 (segmentEdge source progress i)) [1..<length source - 1])"
    using assms by (rule chainLoop_start)
  have D: "length ?chain = 4 * (length source - 1) + 1"
    using length_concat_uniform [OF uni] by (simp add: chain)
  have nth: "?chain ! (4 * m + 1 + j) = ?seg m ! j" if "m < length source - 1" "j < 4" for m j
  proof -
    have "concat ?segs ! (4 * m + j) = ?segs ! m ! j"
      using nth_concat_uniform [OF uni, of m j] that by simp
    then show ?thesis
      using that by (simp add: chain)
  qed
  have E: "\<forall>k < length source. ?chain ! (4 * k) = source ! k"
  proof (intro allI impI)
    fix k assume k: "k < length source"
    show "?chain ! (4 * k) = source ! k"
    proof (cases k)
      case 0
      then show ?thesis by (simp add: chain)
    next
      case (Suc m)
      then have m: "m < length source - 1" using k by simp
      have "?chain ! (4 * m + 1 + 3) = ?seg m ! 3"
        using nth [OF m, of 3] by simp
      moreover have "?seg m ! 3 = source ! (m + 1)"
        by (simp add: nth_append segmentInterior_length)
      ultimately show ?thesis using Suc by simp
    qed
  qed
  have F: "\<forall>k < length source - 1. \<forall>j < 3.
         ?chain ! (4 * k + 1 + j) = segmentInterior source progress k ! j"
  proof (intro allI impI)
    fix k j assume k: "k < length source - 1" and j: "j < (3::nat)"
    have "?chain ! (4 * k + 1 + j) = ?seg k ! j"
      using nth [OF k, of j] j by simp
    then show "?chain ! (4 * k + 1 + j) = segmentInterior source progress k ! j"
      using j by (simp add: nth_append segmentInterior_length)
  qed
  show ?thesis
    by (rule conjI [OF A conjI [OF B conjI [OF C conjI [OF D conjI [OF E F]]]]])
qed


lemma segmentLength_horizontal:
  "ty p1 = ty p2 \<Longrightarrow> segmentLength p1 p2 = \<bar>tx p2 - tx p1\<bar>"
  by (simp add: segmentLength_def Let_def)

lemma rng_positive_state:
  "0 < s \<Longrightarrow> rng s = ((real_of_int ((s * 16807) mod 2147483647) - 1) / 2147483646,
                          (s * 16807) mod 2147483647)"
  by (simp add: rng_def js_rem_def Let_def)

lemma exampleSource_interior0:
  "segmentInterior exampleSource 0 0 =
     [\<lparr>tx = 90382070169 / 596523235000, ty = 72662878363 / 149130808750\<rparr>,
      \<lparr>tx = 23959443349 / 119304647000, ty = 882563869619 / 1789569705000\<rparr>,
      \<lparr>tx = 247801471 / 987621250, ty = 127013882761 / 255652815000\<rparr>]"
  apply (simp add: segmentInterior_def exampleSource_def jaggedInterior_def seededRandom_def)
  apply (subst jaggedLoop.simps,
      simp add: jaggedPoint_def segmentNormal_def normalDivisor_def segmentLength_horizontal
        rng_positive_state Let_def)+
  done

lemma exampleSource_interior1:
  "segmentInterior exampleSource 0 1 =
     [\<lparr>tx = 52432780159 / 149130808750, ty = 109417165577 / 223696213125\<rparr>,
      \<lparr>tx = 59769620231 / 149130808750, ty = 875463401881 / 1789569705000\<rparr>,
      \<lparr>tx = 268986326599 / 596523235000, ty = 908624401087 / 1789569705000\<rparr>]"
  apply (simp add: segmentInterior_def exampleSource_def jaggedInterior_def seededRandom_def)
  apply (subst jaggedLoop.simps,
      simp add: jaggedPoint_def segmentNormal_def normalDivisor_def segmentLength_horizontal
        rng_positive_state Let_def)+
  done

lemma exampleSource_interior2:
  "segmentInterior exampleSource 0 2 =
     [\<lparr>tx = 329080171103 / 596523235000, ty = 174455531587 / 357913941000\<rparr>,
      \<lparr>tx = 358359745103 / 596523235000, ty = 911312607083 / 1789569705000\<rparr>,
      \<lparr>tx = 194150282357 / 298261617500, ty = 80472904537 / 162688155000\<rparr>]"
  apply (simp add: segmentInterior_def exampleSource_def jaggedInterior_def seededRandom_def)
  apply (subst jaggedLoop.simps,
      simp add: jaggedPoint_def segmentNormal_def normalDivisor_def segmentLength_horizontal
        rng_positive_state Let_def)+
  done

lemma exampleSource_chain:
  "chainLoop exampleSource 0 0 [] =
     [\<lparr>tx = 1 / 10, ty = 1 / 2\<rparr>,
      \<lparr>tx = 90382070169 / 596523235000, ty = 72662878363 / 149130808750\<rparr>,
      \<lparr>tx = 23959443349 / 119304647000, ty = 882563869619 / 1789569705000\<rparr>,
      \<lparr>tx = 247801471 / 987621250, ty = 127013882761 / 255652815000\<rparr>,
      \<lparr>tx = 3 / 10, ty = 1 / 2\<rparr>,
      \<lparr>tx = 52432780159 / 149130808750, ty = 109417165577 / 223696213125\<rparr>,
      \<lparr>tx = 59769620231 / 149130808750, ty = 875463401881 / 1789569705000\<rparr>,
      \<lparr>tx = 268986326599 / 596523235000, ty = 908624401087 / 1789569705000\<rparr>,
      \<lparr>tx = 1 / 2, ty = 1 / 2\<rparr>,
      \<lparr>tx = 329080171103 / 596523235000, ty = 174455531587 / 357913941000\<rparr>,
      \<lparr>tx = 358359745103 / 596523235000, ty = 911312607083 / 1789569705000\<rparr>,
      \<lparr>tx = 194150282357 / 298261617500, ty = 80472904537 / 162688155000\<rparr>,
      \<lparr>tx = 7 / 10, ty = 1 / 2\<rparr>]"
proof -
  have len: "2 \<le> length exampleSource"
    by (simp add: exampleSource_def)
  have range: "[0..<length exampleSource - 1] = [0, 1, 2]"
    by (simp add: exampleSource_def upt_conv_Cons)
  show ?thesis
    unfolding chainLoop_uniform [OF len] range
    by (simp add: exampleSource_interior0 exampleSource_interior1 [unfolded One_nat_def]
        exampleSource_interior2)
      (simp add: exampleSource_def)
qed

theorem chained_path_shares_boundary_vertices_witness:
  "2 \<le> length exampleSource
   \<and> length exampleSource - 1 = 3
   \<and> jaggedTearPoints exampleSource None 0 = chainLoop exampleSource 0 0 []
   \<and> length (jaggedTearPoints exampleSource None 0) = 13
   \<and> jaggedTearPoints exampleSource None 0 ! 4 = exampleSource ! 1
   \<and> jaggedTearPoints exampleSource None 0 ! 8 = exampleSource ! 2
   \<and> jaggedTearPoints exampleSource None 0 ! 5 = segmentInterior exampleSource 0 1 ! 0
   \<and> distinct_adj (jaggedTearPoints exampleSource None 0)"
proof -
  have len: "2 \<le> length exampleSource"
    by (simp add: exampleSource_def)
  have n: "length exampleSource = 4"
    by (simp add: exampleSource_def)
  note facts = chained_path_shares_boundary_vertices [OF len, of 0 "[]"]
  note eq = conjunct1 [OF facts]
  note l0 = conjunct1 [OF conjunct2 [OF conjunct2 [OF conjunct2 [OF facts]]]]
  note v = conjunct1 [OF conjunct2 [OF conjunct2 [OF conjunct2 [OF conjunct2 [OF facts]]]]]
  note i = conjunct2 [OF conjunct2 [OF conjunct2 [OF conjunct2 [OF conjunct2 [OF facts]]]]]
  have l: "length (chainLoop exampleSource 0 0 []) = 13"
    using l0 n by simp
  have v1: "chainLoop exampleSource 0 0 [] ! 4 = exampleSource ! 1"
    using v [rule_format, of 1] n by simp
  have v2: "chainLoop exampleSource 0 0 [] ! 8 = exampleSource ! 2"
    using v [rule_format, of 2] n by simp
  have i1: "chainLoop exampleSource 0 0 [] ! 5 = segmentInterior exampleSource 0 1 ! 0"
    using i [rule_format, of 1 0] n by simp
  have d: "distinct_adj (chainLoop exampleSource 0 0 [])"
    unfolding exampleSource_chain by simp
  show ?thesis
    using len n eq l v1 v2 i1 d by simp
qed

section \<open>Properties of the clip geometry builder\<close>

lemma edgeSum_Cons:
  "vs \<noteq> [] \<Longrightarrow> edgeSum f (a # vs) = f a (hd vs) + edgeSum f vs"
  by (cases vs) simp_all

lemma edgeSum_append:
  "xs \<noteq> [] \<Longrightarrow> ys \<noteq> [] \<Longrightarrow>
     edgeSum f (xs @ ys) = edgeSum f xs + f (last xs) (hd ys) + edgeSum f ys"
proof (induction xs)
  case Nil
  then show ?case by simp
next
  case (Cons a xs)
  show ?case
  proof (cases "xs = []")
    case True
    then show ?thesis using Cons.prems by (simp add: edgeSum_Cons)
  next
    case False
    then show ?thesis
      using Cons.IH Cons.prems by (simp add: edgeSum_Cons add.assoc)
  qed
qed

lemma edgeSum_rev:
  assumes anti: "\<And>a b. f b a = - f a b"
  shows "edgeSum f (rev vs) = - edgeSum f vs"
proof (induction vs)
  case Nil
  show ?case by simp
next
  case (Cons a vs)
  show ?case
  proof (cases "vs = []")
    case True
    then show ?thesis by simp
  next
    case False
    have "edgeSum f (rev (a # vs)) = edgeSum f (rev vs) + f (last (rev vs)) a"
      using False by (simp add: edgeSum_append)
    also have "\<dots> = - edgeSum f vs + f (hd vs) a"
      using False by (simp add: Cons.IH last_rev)
    also have "\<dots> = - (f a (hd vs) + edgeSum f vs)"
      by (simp add: anti [of a "hd vs"])
    finally show ?thesis
      using False by (simp add: edgeSum_Cons)
  qed
qed

lemma pieces_closedSum:
  fixes f :: "vertex \<Rightarrow> vertex \<Rightarrow> 'a::ab_group_add"
  assumes anti: "\<And>a b. f b a = - f a b"
    and right: "f (100, 0) (100, l) + f (100, l) (100, 100) = f (100, 0) (100, 100)"
    and left: "f (0, 100) (0, t) + f (0, t) (0, 0) = f (0, 100) (0, 0)"
    and ne: "V \<noteq> []"
  shows "closedSum f ([(0, 0), (100, 0), (100, l)] @ rev V @ [(0, t)])
         + closedSum f ([(0, t)] @ V @ [(100, l), (100, 100), (0, 100)])
         = closedSum f surfacePolygon"
proof -
  have rv: "rev V \<noteq> []" using ne by simp
  have top: "closedSum f ([(0, 0), (100, 0), (100, l)] @ rev V @ [(0, t)])
      = f (0, 0) (100, 0) + f (100, 0) (100, l) + f (100, l) (last V)
        - edgeSum f V + f (hd V) (0, t) + f (0, t) (0, 0)"
  proof -
    have "closedSum f ([(0, 0), (100, 0), (100, l)] @ rev V @ [(0, t)])
        = edgeSum f ([(0, 0), (100, 0), (100, l)] @ (rev V @ [(0, t), (0, 0)]))"
      by (simp add: closedSum_def)
    also have "\<dots> = edgeSum f [(0, 0), (100, 0), (100, l)] + f (100, l) (hd (rev V @ [(0, t), (0, 0)]))
        + edgeSum f (rev V @ [(0, t), (0, 0)])"
      by (subst edgeSum_append) simp_all
    also have "edgeSum f (rev V @ [(0, t), (0, 0)])
        = edgeSum f (rev V) + f (last (rev V)) (0, t) + edgeSum f [(0, t), (0, 0)]"
      using rv by (subst edgeSum_append) simp_all
    finally show ?thesis
      using ne rv by (simp add: edgeSum_rev [of f, OF anti] last_rev hd_rev hd_append algebra_simps)
  qed
  have bottom: "closedSum f ([(0, t)] @ V @ [(100, l), (100, 100), (0, 100)])
      = f (0, t) (hd V) + edgeSum f V + f (last V) (100, l)
        + f (100, l) (100, 100) + f (100, 100) (0, 100) + f (0, 100) (0, t)"
  proof -
    have "closedSum f ([(0, t)] @ V @ [(100, l), (100, 100), (0, 100)])
        = edgeSum f ([(0, t)] @ (V @ [(100, l), (100, 100), (0, 100), (0, t)]))"
      by (simp add: closedSum_def)
    also have "\<dots> = f (0, t) (hd V) + edgeSum f (V @ [(100, l), (100, 100), (0, 100), (0, t)])"
      using ne by (simp add: edgeSum_Cons hd_append)
    also have "edgeSum f (V @ [(100, l), (100, 100), (0, 100), (0, t)])
        = edgeSum f V + f (last V) (100, l) + edgeSum f [(100, l), (100, 100), (0, 100), (0, t)]"
      using ne by (subst edgeSum_append) simp_all
    finally show ?thesis
      by (simp add: algebra_simps)
  qed
  have square: "closedSum f surfacePolygon
      = f (0, 0) (100, 0) + f (100, 0) (100, 100) + f (100, 100) (0, 100) + f (0, 100) (0, 0)"
    by (simp add: closedSum_def surfacePolygon_def algebra_simps)
  have c1: "f (100, l) (last V) + f (last V) (100, l) = 0"
    using anti [of "(100, l)" "last V"] by simp
  have c2: "f (hd V) (0, t) + f (0, t) (hd V) = 0"
    using anti [of "(0, t)" "hd V"] by simp
  show ?thesis
    unfolding top bottom square right [symmetric] left [symmetric]
    using c1 c2 by (simp add: algebra_simps)
qed


lemma cross_anti: "cross b a = - cross a b"
  by (simp add: cross_def)

lemma cross_right: "cross (100, 0) (100, l) + cross (100, l) (100, 100) = cross (100, 0) (100, 100)"
  by (simp add: cross_def)

lemma cross_left: "cross (0, 100) (0, t) + cross (0, t) (0, 0) = cross (0, 100) (0, 0)"
  by (simp add: cross_def)

lemma isLeft_swap: "isLeft b a q = - isLeft a b q"
  by (simp add: isLeft_def algebra_simps)

lemma edgeWinding_anti: "edgeWinding q b a = - edgeWinding q a b"
  by (simp add: edgeWinding_def isLeft_swap [of b a q])

lemma edgeWinding_right:
  "edgeWinding q (100, 0) (100, l) + edgeWinding q (100, l) (100, 100)
     = edgeWinding q (100, 0) (100, 100)"
  by (auto simp: edgeWinding_def isLeft_def zero_less_mult_iff mult_less_0_iff)

lemma edgeWinding_left:
  "edgeWinding q (0, 100) (0, t) + edgeWinding q (0, t) (0, 0) = edgeWinding q (0, 100) (0, 0)"
  by (auto simp: edgeWinding_def isLeft_def zero_less_mult_iff mult_less_0_iff)

lemma surface_area: "polygonArea surfacePolygon = 1"
  by (simp add: polygonArea_def closedSum_def surfacePolygon_def cross_def)

lemma surface_winding:
  "0 \<le> fst q \<Longrightarrow> fst q < 100 \<Longrightarrow> 0 \<le> snd q \<Longrightarrow> snd q < 100 \<Longrightarrow> windingNumber surfacePolygon q = 1"
  by (simp add: windingNumber_def closedSum_def surfacePolygon_def edgeWinding_def isLeft_def)


lemma clipPaths_shape:
  assumes "2 \<le> length jagged"
  shows "topClip jagged
           = [(0, 0), (100, 0), (100, snd (clipVertex (last jagged)))]
             @ rev (map clipVertex jagged) @ [(0, snd (clipVertex (hd jagged)))]"
    and "bottomClip jagged
           = [(0, snd (clipVertex (hd jagged)))] @ map clipVertex jagged
             @ [(100, snd (clipVertex (last jagged))), (100, 100), (0, 100)]"
proof -
  have ne: "jagged \<noteq> []" using assms by auto
  have first: "jagged ! 0 = hd jagged" using ne by (simp add: hd_conv_nth)
  have last: "jagged ! (length jagged - Suc 0) = last jagged" using ne by (simp add: last_conv_nth)
  show "topClip jagged
           = [(0, 0), (100, 0), (100, snd (clipVertex (last jagged)))]
             @ rev (map clipVertex jagged) @ [(0, snd (clipVertex (hd jagged)))]"
    using assms by (simp add: topClip_def clipPaths_def Let_def first last clipVertex_def rev_map)
  show "bottomClip jagged
           = [(0, snd (clipVertex (hd jagged)))] @ map clipVertex jagged
             @ [(100, snd (clipVertex (last jagged))), (100, 100), (0, 100)]"
    using assms by (simp add: bottomClip_def clipPaths_def Let_def first last clipVertex_def)
qed

text \<open>
  What the two clip polygons satisfy for every jagged path with at least 2 points: the
  same rounded tear vertices in both, reversed in the top piece; signed shoelace areas
  that sum to \<open>1\<close>; winding numbers that sum to the winding number of the surface at
  every point, so that every point of the surface lies in at least one piece.
\<close>

lemma clip_pieces_share_tear_and_cover:
  assumes "2 \<le> length jagged"
  shows "topClip jagged
           = [(0, 0), (100, 0), (100, snd (clipVertex (last jagged)))]
             @ rev (map clipVertex jagged) @ [(0, snd (clipVertex (hd jagged)))]
   \<and> bottomClip jagged
           = [(0, snd (clipVertex (hd jagged)))] @ map clipVertex jagged
             @ [(100, snd (clipVertex (last jagged))), (100, 100), (0, 100)]
   \<and> polygonArea (topClip jagged) + polygonArea (bottomClip jagged) = 1
   \<and> windingNumber (topClip jagged) q + windingNumber (bottomClip jagged) q
       = windingNumber surfacePolygon q
   \<and> (0 \<le> fst q \<and> fst q < 100 \<and> 0 \<le> snd q \<and> snd q < 100
        \<longrightarrow> (insideClip (topClip jagged) q \<or> insideClip (bottomClip jagged) q)
          \<and> (0 \<le> windingNumber (topClip jagged) q \<and> 0 \<le> windingNumber (bottomClip jagged) q
               \<longrightarrow> \<not> (insideClip (topClip jagged) q \<and> insideClip (bottomClip jagged) q)))"
proof -
  let ?V = "map clipVertex jagged"
  let ?l = "snd (clipVertex (last jagged))"
  let ?t = "snd (clipVertex (hd jagged))"
  have ne: "?V \<noteq> []" using assms by auto
  note shape = clipPaths_shape [OF assms]
  have "closedSum cross (topClip jagged) + closedSum cross (bottomClip jagged)
          = closedSum cross surfacePolygon"
    unfolding shape
    by (rule pieces_closedSum [OF cross_anti cross_right cross_left ne])
  then have "polygonArea (topClip jagged) + polygonArea (bottomClip jagged)
          = polygonArea surfacePolygon"
    by (simp add: polygonArea_def add_divide_distrib [symmetric])
  then have area: "polygonArea (topClip jagged) + polygonArea (bottomClip jagged) = 1"
    by (simp add: surface_area)
  have wind: "windingNumber (topClip jagged) q + windingNumber (bottomClip jagged) q
       = windingNumber surfacePolygon q"
    unfolding windingNumber_def shape
    by (rule pieces_closedSum [OF edgeWinding_anti edgeWinding_right edgeWinding_left ne])
  have cover: "0 \<le> fst q \<and> fst q < 100 \<and> 0 \<le> snd q \<and> snd q < 100
        \<longrightarrow> (insideClip (topClip jagged) q \<or> insideClip (bottomClip jagged) q)
          \<and> (0 \<le> windingNumber (topClip jagged) q \<and> 0 \<le> windingNumber (bottomClip jagged) q
               \<longrightarrow> \<not> (insideClip (topClip jagged) q \<and> insideClip (bottomClip jagged) q))"
  proof
    assume "0 \<le> fst q \<and> fst q < 100 \<and> 0 \<le> snd q \<and> snd q < 100"
    then have "windingNumber surfacePolygon q = 1"
      by (simp add: surface_winding)
    then have one: "windingNumber (topClip jagged) q + windingNumber (bottomClip jagged) q = 1"
      using wind by simp
    have some: "insideClip (topClip jagged) q \<or> insideClip (bottomClip jagged) q"
      unfolding insideClip_def using one by linarith
    have single: "0 \<le> windingNumber (topClip jagged) q \<and> 0 \<le> windingNumber (bottomClip jagged) q
               \<longrightarrow> \<not> (insideClip (topClip jagged) q \<and> insideClip (bottomClip jagged) q)"
      unfolding insideClip_def using one by linarith
    show "(insideClip (topClip jagged) q \<or> insideClip (bottomClip jagged) q)
          \<and> (0 \<le> windingNumber (topClip jagged) q \<and> 0 \<le> windingNumber (bottomClip jagged) q
               \<longrightarrow> \<not> (insideClip (topClip jagged) q \<and> insideClip (bottomClip jagged) q))"
      using some single by (rule conjI)
  qed
  show ?thesis
    by (rule conjI [OF shape(1) conjI [OF shape(2) conjI [OF area conjI [OF wind cover]]]])
qed

lemma exampleJagged: "jaggedTearPoints exampleSource None 0 = chainLoop exampleSource 0 0 []"
  by (simp add: jaggedTearPoints_def exampleSource_def)

lemma exampleJagged_clips:
  "topClip (jaggedTearPoints exampleSource None 0)
     = [(0, 0), (100, 0), (100, 50), (70, 50), (651 / 10, 99 / 2), (601 / 10, 509 / 10), (276 / 5, 487 / 10), (50, 50), (451 / 10, 254 / 5), (401 / 10, 489 / 10), (176 / 5, 489 / 10), (30, 50), (251 / 10, 497 / 10), (201 / 10, 493 / 10), (76 / 5, 487 / 10), (10, 50), (0, 50)]"
  "bottomClip (jaggedTearPoints exampleSource None 0)
     = [(0, 50), (10, 50), (76 / 5, 487 / 10), (201 / 10, 493 / 10), (251 / 10, 497 / 10), (30, 50), (176 / 5, 489 / 10), (401 / 10, 489 / 10), (451 / 10, 254 / 5), (50, 50), (276 / 5, 487 / 10), (601 / 10, 509 / 10), (651 / 10, 99 / 2), (70, 50), (100, 50), (100, 100), (0, 100)]"
  unfolding exampleJagged exampleSource_chain
  by (simp_all add: topClip_def bottomClip_def clipPaths_def clipVertex_def toFixed1_def Let_def)

text \<open>
  A tear drawn from left to right: the point \<open>(50, 20)\<close> above the tear is in the top
  piece only.
\<close>

lemma left_to_right_pieces_example:
  "2 \<le> length (jaggedTearPoints exampleSource None 0)
   \<and> polygonArea (topClip (jaggedTearPoints exampleSource None 0)) = 248843 / 500000
   \<and> polygonArea (bottomClip (jaggedTearPoints exampleSource None 0)) = 251157 / 500000
   \<and> polygonArea (topClip (jaggedTearPoints exampleSource None 0))
       + polygonArea (bottomClip (jaggedTearPoints exampleSource None 0)) = 1
   \<and> windingNumber (topClip (jaggedTearPoints exampleSource None 0)) (50, 20) = 1
   \<and> windingNumber (bottomClip (jaggedTearPoints exampleSource None 0)) (50, 20) = 0
   \<and> (0::real) \<le> fst (50::real, 20::real) \<and> fst (50::real, 20::real) < 100
   \<and> (0::real) \<le> snd (50::real, 20::real) \<and> snd (50::real, 20::real) < 100
   \<and> (insideClip (topClip (jaggedTearPoints exampleSource None 0)) (50, 20)
        \<or> insideClip (bottomClip (jaggedTearPoints exampleSource None 0)) (50, 20))
   \<and> \<not> (insideClip (topClip (jaggedTearPoints exampleSource None 0)) (50, 20)
          \<and> insideClip (bottomClip (jaggedTearPoints exampleSource None 0)) (50, 20))"
proof -
  let ?J = "jaggedTearPoints exampleSource None 0"
  have len: "2 \<le> length ?J"
    unfolding exampleJagged exampleSource_chain by simp
  note facts = clip_pieces_share_tear_and_cover [OF len, of "(50, 20)"]
  note area = conjunct1 [OF conjunct2 [OF conjunct2 [OF facts]]]
  note cover = conjunct2 [OF conjunct2 [OF conjunct2 [OF conjunct2 [OF facts]]]]
  have a1: "polygonArea (topClip ?J) = 248843 / 500000"
    unfolding exampleJagged_clips by (simp add: polygonArea_def closedSum_def cross_def)
  have w1: "windingNumber (topClip ?J) (50, 20) = 1"
    unfolding exampleJagged_clips
    by (simp add: windingNumber_def closedSum_def edgeWinding_def isLeft_def)
  have w2: "windingNumber (bottomClip ?J) (50, 20) = 0"
    unfolding exampleJagged_clips
    by (simp add: windingNumber_def closedSum_def edgeWinding_def isLeft_def)
  have a2: "polygonArea (bottomClip ?J) = 251157 / 500000"
    using area a1 by simp
  have inside: "(insideClip (topClip ?J) (50, 20) \<or> insideClip (bottomClip ?J) (50, 20))
      \<and> \<not> (insideClip (topClip ?J) (50, 20) \<and> insideClip (bottomClip ?J) (50, 20))"
    using cover w1 w2 by simp
  show ?thesis
    using len area a1 a2 w1 w2 inside by simp
qed

subsection \<open>A tear drawn from right to left\<close>

lemma rightToLeft_down:
  "handleCoverPointerDown exampleCover 290 200 (initialState False)
     = \<lparr>isRevealed = False, isDragging = True, tearProgress = 0,
        tearPath = [\<lparr>tx = 29 / 30, ty = 1 / 2\<rparr>], completedTear = None,
        dragStartRef = Some (290, 200), lastPointRef = Some \<lparr>tx = 29 / 30, ty = 1 / 2\<rparr>,
        isMobileRef = False, onRevealedCalls = 0\<rparr>"
  by (simp add: initialState_def handleCoverPointerDown_def getNormalizedPos_def exampleCover_def)

lemma rightToLeft_move:
  "handleCoverPointerMove exampleCover 10 200
     (handleCoverPointerDown exampleCover 290 200 (initialState False))
     = \<lparr>isRevealed = False, isDragging = True, tearProgress = 56 / 85,
        tearPath = [\<lparr>tx = 29 / 30, ty = 1 / 2\<rparr>, \<lparr>tx = 1 / 30, ty = 1 / 2\<rparr>],
        completedTear = None,
        dragStartRef = Some (290, 200), lastPointRef = Some \<lparr>tx = 1 / 30, ty = 1 / 2\<rparr>,
        isMobileRef = False, onRevealedCalls = 0\<rparr>"
proof -
  have pos: "getNormalizedPos exampleCover 10 200 = Some \<lparr>tx = 1 / 30, ty = 1 / 2\<rparr>"
    by (simp add: getNormalizedPos_def exampleCover_def)
  have "sqrt ((280::real) * 280) = 280" by simp
  then have "totalDist (290, 200) 10 200 = 280"
    by (simp add: totalDist_def Let_def)
  then have prog: "dragProgress exampleCover (290, 200) 10 200 = 56 / 85"
    by (simp add: dragProgress_def requiredDist_def exampleCover_diagonal)
  have dist: "0.012 < sqrt ((1 / 30 - 29 / 30) * (1 / 30 - 29 / 30) + (0::real))"
    by (rule real_less_rsqrt) (simp add: power2_eq_square)
  show ?thesis
    unfolding rightToLeft_down
    using dist by (simp add: handleCoverPointerMove_def pos prog Let_def)
qed

lemma rightToLeft_edges:
  "extendToEdge \<lparr>tx = 29 / 30, ty = 1 / 2\<rparr> \<lparr>tx = 1 / 30, ty = 1 / 2\<rparr> True = \<lparr>tx = 1, ty = 1 / 2\<rparr>"
  "extendToEdge \<lparr>tx = 1 / 30, ty = 1 / 2\<rparr> \<lparr>tx = 29 / 30, ty = 1 / 2\<rparr> False = \<lparr>tx = 0, ty = 1 / 2\<rparr>"
  by (simp_all add: extendToEdge_def edgeCandidates_def pickCloser_def candidateValid_def
      clamp01_def Let_def)

lemma rightToLeft_state:
  "run exampleCover rightToLeftDrag (initialState False)
     = \<lparr>isRevealed = True, isDragging = False, tearProgress = 56 / 85,
        tearPath = [\<lparr>tx = 29 / 30, ty = 1 / 2\<rparr>, \<lparr>tx = 1 / 30, ty = 1 / 2\<rparr>],
        completedTear = Some [\<lparr>tx = 1, ty = 1 / 2\<rparr>, \<lparr>tx = 29 / 30, ty = 1 / 2\<rparr>,
                              \<lparr>tx = 1 / 30, ty = 1 / 2\<rparr>, \<lparr>tx = 0, ty = 1 / 2\<rparr>],
        dragStartRef = None, lastPointRef = None,
        isMobileRef = False, onRevealedCalls = 1\<rparr>"
  unfolding rightToLeftDrag_def run.simps handle.simps rightToLeft_move
  by (simp add: handleCoverPointerUp_def commitsOnRelease_def nearEdgeAtRelease_def
      finishTear_def rightToLeft_edges Let_def)

lemma rightToLeft_interior0:
  "segmentInterior rightToLeftTear (56 / 85) 0 =
     [\<lparr>tx = 75588714357949 / 76056712462500, ty = 19629351309971 / 38028356231250\<rparr>,
      \<lparr>tx = 29951794854533 / 30422684985000, ty = 232809936164293 / 456340274775000\<rparr>,
      \<lparr>tx = 327834964601 / 335791225000, ty = 231463700887889 / 456340274775000\<rparr>]"
  apply (simp add: segmentInterior_def rightToLeftTear_def jaggedInterior_def seededRandom_def)
  apply (subst jaggedLoop.simps,
      simp add: jaggedPoint_def segmentNormal_def normalDivisor_def segmentLength_horizontal
        rng_positive_state Let_def)+
  done

lemma rightToLeft_interior1:
  "segmentInterior rightToLeftTear (56 / 85) 1 =
     [\<lparr>tx = 18649626113777 / 25352237487500, ty = 29594986997119 / 57042534346875\<rparr>,
      \<lparr>tx = 9528613007951 / 19014178115625, ty = 21400323033877 / 41485479525000\<rparr>,
      \<lparr>tx = 13588583193861 / 50704474975000, ty = 13211646794737 / 26843545575000\<rparr>]"
  apply (simp add: segmentInterior_def rightToLeftTear_def jaggedInterior_def seededRandom_def)
  apply (subst jaggedLoop.simps,
      simp add: jaggedPoint_def segmentNormal_def normalDivisor_def segmentLength_horizontal
        rng_positive_state Let_def)+
  done

lemma rightToLeft_interior2:
  "segmentInterior rightToLeftTear (56 / 85) 2 =
     [\<lparr>tx = 520880429147 / 19014178115625, ty = 47120639347781 / 91268054955000\<rparr>,
      \<lparr>tx = 2698833854551 / 152113424925000, ty = 222234640612021 / 456340274775000\<rparr>,
      \<lparr>tx = 491100471721 / 50704474975000, ty = 233494820102149 / 456340274775000\<rparr>]"
  apply (simp add: segmentInterior_def rightToLeftTear_def jaggedInterior_def seededRandom_def)
  apply (subst jaggedLoop.simps,
      simp add: jaggedPoint_def segmentNormal_def normalDivisor_def segmentLength_horizontal
        rng_positive_state Let_def)+
  done

lemma rightToLeft_chain:
  "chainLoop rightToLeftTear (56 / 85) 0 [] =
     [\<lparr>tx = 1, ty = 1 / 2\<rparr>,
      \<lparr>tx = 75588714357949 / 76056712462500, ty = 19629351309971 / 38028356231250\<rparr>,
      \<lparr>tx = 29951794854533 / 30422684985000, ty = 232809936164293 / 456340274775000\<rparr>,
      \<lparr>tx = 327834964601 / 335791225000, ty = 231463700887889 / 456340274775000\<rparr>,
      \<lparr>tx = 29 / 30, ty = 1 / 2\<rparr>,
      \<lparr>tx = 18649626113777 / 25352237487500, ty = 29594986997119 / 57042534346875\<rparr>,
      \<lparr>tx = 9528613007951 / 19014178115625, ty = 21400323033877 / 41485479525000\<rparr>,
      \<lparr>tx = 13588583193861 / 50704474975000, ty = 13211646794737 / 26843545575000\<rparr>,
      \<lparr>tx = 1 / 30, ty = 1 / 2\<rparr>,
      \<lparr>tx = 520880429147 / 19014178115625, ty = 47120639347781 / 91268054955000\<rparr>,
      \<lparr>tx = 2698833854551 / 152113424925000, ty = 222234640612021 / 456340274775000\<rparr>,
      \<lparr>tx = 491100471721 / 50704474975000, ty = 233494820102149 / 456340274775000\<rparr>,
      \<lparr>tx = 0, ty = 1 / 2\<rparr>]"
proof -
  have len: "2 \<le> length rightToLeftTear"
    by (simp add: rightToLeftTear_def)
  have range: "[0..<length rightToLeftTear - 1] = [0, 1, 2]"
    by (simp add: rightToLeftTear_def upt_conv_Cons)
  show ?thesis
    unfolding chainLoop_uniform [OF len] range
    by (simp add: rightToLeft_interior0 rightToLeft_interior1 [unfolded One_nat_def]
        rightToLeft_interior2)
      (simp add: rightToLeftTear_def)
qed

lemma rightToLeft_jagged:
  "jaggedOf (run exampleCover rightToLeftDrag (initialState False))
     = chainLoop rightToLeftTear (56 / 85) 0 []"
  unfolding rightToLeft_state
  by (simp add: jaggedOf_def jaggedTearPoints_def rightToLeftTear_def)

text \<open>
  Claim C1. The two clip polygons are to cover the surface with no gap and no
  overlapping interior region. The code does not deliver this for a tear drawn from right
  to left: \<open>topPath\<close> joins the right side to the last tear point and \<open>bottomPath\<close>
  joins the left side to the first, whatever the direction of the tear, so both polygons
  run along the tear twice. After the drag from \<open>(290, 200)\<close> to \<open>(10, 200)\<close> on the
  cover of 300 by 400 pixels, released there, the point \<open>(50, 51)\<close> has winding number
  \<open>-1\<close> in the top clip and \<open>2\<close> in the bottom clip: it lies inside both pieces.
\<close>

theorem right_to_left_drag_pieces_overlap:
  "phase (run exampleCover rightToLeftDrag (initialState False)) = Revealed
   \<and> completedTear (run exampleCover rightToLeftDrag (initialState False))
       = Some [\<lparr>tx = 1, ty = 1 / 2\<rparr>, \<lparr>tx = 29 / 30, ty = 1 / 2\<rparr>,
               \<lparr>tx = 1 / 30, ty = 1 / 2\<rparr>, \<lparr>tx = 0, ty = 1 / 2\<rparr>]
   \<and> topClip (jaggedOf (run exampleCover rightToLeftDrag (initialState False)))
       = [(0, 0),
      (100, 0),
      (100, 50),
      (0, 50),
      (1, 256 / 5),
      (9 / 5, 487 / 10),
      (27 / 10, 258 / 5),
      (33 / 10, 50),
      (134 / 5, 246 / 5),
      (501 / 10, 258 / 5),
      (368 / 5, 519 / 10),
      (967 / 10, 50),
      (488 / 5, 507 / 10),
      (197 / 2, 51),
      (497 / 5, 258 / 5),
      (100, 50),
      (0, 50)]
   \<and> bottomClip (jaggedOf (run exampleCover rightToLeftDrag (initialState False)))
       = [(0, 50),
      (100, 50),
      (497 / 5, 258 / 5),
      (197 / 2, 51),
      (488 / 5, 507 / 10),
      (967 / 10, 50),
      (368 / 5, 519 / 10),
      (501 / 10, 258 / 5),
      (134 / 5, 246 / 5),
      (33 / 10, 50),
      (27 / 10, 258 / 5),
      (9 / 5, 487 / 10),
      (1, 256 / 5),
      (0, 50),
      (100, 50),
      (100, 100),
      (0, 100)]
   \<and> windingNumber (topClip (jaggedOf (run exampleCover rightToLeftDrag (initialState False))))
         (50, 51) = - 1
   \<and> windingNumber (bottomClip (jaggedOf (run exampleCover rightToLeftDrag (initialState False))))
         (50, 51) = 2
   \<and> insideClip (topClip (jaggedOf (run exampleCover rightToLeftDrag (initialState False))))
         (50, 51)
   \<and> insideClip (bottomClip (jaggedOf (run exampleCover rightToLeftDrag (initialState False))))
         (50, 51)"
proof -
  let ?s = "run exampleCover rightToLeftDrag (initialState False)"
  have ph: "phase ?s = Revealed"
    unfolding rightToLeft_state by (simp add: phase_def)
  have ct: "completedTear ?s
       = Some [\<lparr>tx = 1, ty = 1 / 2\<rparr>, \<lparr>tx = 29 / 30, ty = 1 / 2\<rparr>,
               \<lparr>tx = 1 / 30, ty = 1 / 2\<rparr>, \<lparr>tx = 0, ty = 1 / 2\<rparr>]"
    unfolding rightToLeft_state by simp
  have top: "topClip (jaggedOf ?s)
       = [(0, 0),
      (100, 0),
      (100, 50),
      (0, 50),
      (1, 256 / 5),
      (9 / 5, 487 / 10),
      (27 / 10, 258 / 5),
      (33 / 10, 50),
      (134 / 5, 246 / 5),
      (501 / 10, 258 / 5),
      (368 / 5, 519 / 10),
      (967 / 10, 50),
      (488 / 5, 507 / 10),
      (197 / 2, 51),
      (497 / 5, 258 / 5),
      (100, 50),
      (0, 50)]"
    unfolding rightToLeft_jagged rightToLeft_chain
    by (simp add: topClip_def clipPaths_def clipVertex_def toFixed1_def Let_def)
  have bot: "bottomClip (jaggedOf ?s)
       = [(0, 50),
      (100, 50),
      (497 / 5, 258 / 5),
      (197 / 2, 51),
      (488 / 5, 507 / 10),
      (967 / 10, 50),
      (368 / 5, 519 / 10),
      (501 / 10, 258 / 5),
      (134 / 5, 246 / 5),
      (33 / 10, 50),
      (27 / 10, 258 / 5),
      (9 / 5, 487 / 10),
      (1, 256 / 5),
      (0, 50),
      (100, 50),
      (100, 100),
      (0, 100)]"
    unfolding rightToLeft_jagged rightToLeft_chain
    by (simp add: bottomClip_def clipPaths_def clipVertex_def toFixed1_def Let_def)
  have w1: "windingNumber (topClip (jaggedOf ?s)) (50, 51) = - 1"
    unfolding top by (simp add: windingNumber_def closedSum_def edgeWinding_def isLeft_def)
  have w2: "windingNumber (bottomClip (jaggedOf ?s)) (50, 51) = 2"
    unfolding bot by (simp add: windingNumber_def closedSum_def edgeWinding_def isLeft_def)
  have i1: "insideClip (topClip (jaggedOf ?s)) (50, 51)"
    by (simp add: insideClip_def w1)
  have i2: "insideClip (bottomClip (jaggedOf ?s)) (50, 51)"
    by (simp add: insideClip_def w2)
  show ?thesis
    by (rule conjI [OF ph conjI [OF ct conjI [OF top conjI [OF bot conjI [OF w1
          conjI [OF w2 conjI [OF i1 i2]]]]]]])
qed

text \<open>
  The same on a path of three points from right to left, small enough to follow by hand.
\<close>

lemma right_to_left_path_overlap:
  "topClip [\<lparr>tx = 1, ty = 0.5\<rparr>, \<lparr>tx = 0.5, ty = 0.6\<rparr>, \<lparr>tx = 0, ty = 0.5\<rparr>]
     = [(0, 0), (100, 0), (100, 50), (0, 50), (50, 60), (100, 50), (0, 50)]
   \<and> bottomClip [\<lparr>tx = 1, ty = 0.5\<rparr>, \<lparr>tx = 0.5, ty = 0.6\<rparr>, \<lparr>tx = 0, ty = 0.5\<rparr>]
     = [(0, 50), (100, 50), (50, 60), (0, 50), (100, 50), (100, 100), (0, 100)]
   \<and> windingNumber [(0, 0), (100, 0), (100, 50), (0, 50), (50, 60), (100, 50), (0, 50)]
         (50, 55) = - 1
   \<and> windingNumber [(0, 50), (100, 50), (50, 60), (0, 50), (100, 50), (100, 100), (0, 100)]
         (50, 55) = 2"
  by (simp add: topClip_def bottomClip_def clipPaths_def clipVertex_def toFixed1_def Let_def
      windingNumber_def closedSum_def edgeWinding_def isLeft_def)

end
